(* ===== verification/Prelude.thy ===== *)
theory Prelude
  imports Main "HOL-Library.AList" "HOL-Library.Char_ord" "HOL-Library.List_Lexorder"
begin

text \<open>
  What every component shares: the exceptions of the compiler as values of one type, the
  result type \<open>'a res\<close> with its bind, the Python string operations the front end
  calls (over Latin-1 text, one \<^typ>\<open>char\<close> per code point), decimal rendering, and the
  Python dictionary as an association list that keeps insertion order.
\<close>

named_theorems res_simps \<open>unfolding a bind of results\<close>
named_theorems dict_simps \<open>lookup after an update of a dictionary\<close>

subsection \<open>Exceptions and results\<close>

text \<open>
  One constructor per exception class raised in \<open>src/compiler\<close>. \<open>ValueError\<close>,
  \<open>IndexError\<close>, \<open>KeyError\<close> and \<open>AttributeError\<close> are Python's own, raised by an
  operation of the language and caught by nobody. \<open>OutOfFuel\<close> is the model's: a bounded
  recursion did not reach its end; every component that uses it proves that it is not
  reached at the fuel its entry point passes, or that no fuel is enough where the code
  does not return.
\<close>

datatype exn =
    SyntaxError string
  | ParseError string
  | TypeParseError string
  | NameError string
  | TypeCheckError string
  | GenericError string
  | RuntimeError string
  | NotImplementedError string
  | ValueError
  | OverflowError
  | IndexError
  | KeyError
  | AttributeError
  | OutOfFuel

type_synonym 'a res = "exn + 'a"

definition rbind :: "'a res \<Rightarrow> ('a \<Rightarrow> 'b res) \<Rightarrow> 'b res" where
  "rbind m f = (case m of Inl e \<Rightarrow> Inl e | Inr x \<Rightarrow> f x)"

lemma rbind_simps [simp, res_simps]:
  "rbind (Inl e) f = Inl e"
  "rbind (Inr x) f = f x"
  by (simp_all add: rbind_def)

lemma rbind_eq_Inr [simp]: "(rbind m f = Inr y) = (\<exists>x. m = Inr x \<and> f x = Inr y)"
  by (cases m) auto

lemma rbind_eq_Inl: "(rbind m f = Inl e) = (m = Inl e \<or> (\<exists>x. m = Inr x \<and> f x = Inl e))"
  by (cases m) auto

lemma rbind_assoc: "rbind (rbind m f) g = rbind m (\<lambda>x. rbind (f x) g)"
  by (cases m) auto

lemma rbind_cong [fundef_cong]:
  "m = m' \<Longrightarrow> (\<And>x. m' = Inr x \<Longrightarrow> f x = f' x) \<Longrightarrow> rbind m f = rbind m' f'"
  by (cases m') auto

lemma rbind_split [split]:
  "P (rbind m f) = ((\<forall>e. m = Inl e \<longrightarrow> P (Inl e)) \<and> (\<forall>x. m = Inr x \<longrightarrow> P (f x)))"
  by (cases m) auto

declare rbind_split [split del]

text \<open>A loop that stops at the first exception: \<open>[f x for x in xs]\<close>.\<close>

fun rmap :: "('a \<Rightarrow> 'b res) \<Rightarrow> 'a list \<Rightarrow> 'b list res" where
  "rmap f [] = Inr []"
| "rmap f (x # xs) = rbind (f x) (\<lambda>y. rbind (rmap f xs) (\<lambda>ys. Inr (y # ys)))"

lemma rmap_cong [fundef_cong]:
  "xs = ys \<Longrightarrow> (\<And>x. x \<in> set ys \<Longrightarrow> f x = g x) \<Longrightarrow> rmap f xs = rmap g ys"
proof (induction ys arbitrary: xs)
  case (Cons y ys)
  then have "rmap f ys = rmap g ys" by simp
  with Cons.prems show ?case by simp
qed simp

lemma rmap_Inr_conv: "rmap f xs = Inr ys \<longleftrightarrow> list_all2 (\<lambda>x y. f x = Inr y) xs ys"
  by (induction xs arbitrary: ys) (auto simp: list_all2_Cons1)

lemma rmap_Inl: "rmap f xs = Inl e \<Longrightarrow> \<exists>x \<in> set xs. f x = Inl e"
  by (induction xs) (auto simp: rbind_eq_Inl)

lemma rmap_Inr_mem: "rmap f xs = Inr ys \<Longrightarrow> y \<in> set ys \<Longrightarrow> \<exists>x \<in> set xs. f x = Inr y"
  by (induction xs arbitrary: ys) auto

lemma rmap_map_Inr: "(\<And>x. x \<in> set xs \<Longrightarrow> f x = Inr (g x)) \<Longrightarrow> rmap f xs = Inr (map g xs)"
  by (induction xs) auto

lemma rmap_comp: "rmap f (map h xs) = rmap (\<lambda>x. f (h x)) xs"
  by (induction xs) auto

text \<open>A loop that threads a state and stops at the first exception.\<close>

fun rfold :: "('a \<Rightarrow> 's \<Rightarrow> 's res) \<Rightarrow> 'a list \<Rightarrow> 's \<Rightarrow> 's res" where
  "rfold f [] s = Inr s"
| "rfold f (x # xs) s = rbind (f x s) (rfold f xs)"

lemma rfold_cong [fundef_cong]:
  "xs = ys \<Longrightarrow> s = t \<Longrightarrow> (\<And>x u. x \<in> set ys \<Longrightarrow> f x u = g x u) \<Longrightarrow> rfold f xs s = rfold g ys t"
proof (induction ys arbitrary: xs s t)
  case (Cons y ys)
  then show ?case by (auto intro!: rbind_cong)
qed simp

lemma rfold_append: "rfold f (xs @ ys) s = rbind (rfold f xs s) (rfold f ys)"
proof (induction xs arbitrary: s)
  case (Cons x xs)
  then show ?case by (cases "f x s") auto
qed simp

lemma rfold_invariant:
  assumes "rfold f xs s = Inr t" and "P s"
    and "\<And>x u v. x \<in> set xs \<Longrightarrow> P u \<Longrightarrow> f x u = Inr v \<Longrightarrow> P v"
  shows "P t"
  using assms by (induction xs arbitrary: s) auto

subsection \<open>A state passed through a walk\<close>

definition sbind :: "('s \<Rightarrow> ('a \<times> 's) res) \<Rightarrow> ('a \<Rightarrow> 's \<Rightarrow> ('b \<times> 's) res) \<Rightarrow> 's \<Rightarrow> ('b \<times> 's) res" where
  "sbind m f s = rbind (m s) (\<lambda>(a, s'). f a s')"

definition sret :: "'a \<Rightarrow> 's \<Rightarrow> ('a \<times> 's) res" where
  "sret a s = Inr (a, s)"

definition sfail :: "exn \<Rightarrow> 's \<Rightarrow> ('a \<times> 's) res" where
  "sfail e s = Inl e"

fun smap :: "('a \<Rightarrow> 's \<Rightarrow> ('b \<times> 's) res) \<Rightarrow> 'a list \<Rightarrow> 's \<Rightarrow> ('b list \<times> 's) res" where
  "smap f [] = sret []"
| "smap f (x # xs) = sbind (f x) (\<lambda>y. sbind (smap f xs) (\<lambda>ys. sret (y # ys)))"

definition sopt :: "('a \<Rightarrow> 's \<Rightarrow> ('b \<times> 's) res) \<Rightarrow> 'a option \<Rightarrow> 's \<Rightarrow> ('b option \<times> 's) res" where
  "sopt f v = (case v of None \<Rightarrow> sret None | Some x \<Rightarrow> sbind (f x) (\<lambda>y. sret (Some y)))"

lemma sbind_cong [fundef_cong]:
  "m s = m' s' \<Longrightarrow> (\<And>a u. m' s' = Inr (a, u) \<Longrightarrow> f a u = g a u) \<Longrightarrow> s = s' \<Longrightarrow> sbind m f s = sbind m' g s'"
  unfolding sbind_def by (cases "m' s'") auto

lemma smap_cong [fundef_cong]:
  "xs = ys \<Longrightarrow> s = t \<Longrightarrow> (\<And>x u. x \<in> set ys \<Longrightarrow> f x u = g x u) \<Longrightarrow> smap f xs s = smap g ys t"
proof (induction ys arbitrary: xs s t)
  case (Cons y ys)
  then show ?case by (auto intro!: sbind_cong)
qed simp

lemma sopt_cong [fundef_cong]:
  "v = v' \<Longrightarrow> s = t \<Longrightarrow> (\<And>x u. v' = Some x \<Longrightarrow> f x u = g x u) \<Longrightarrow> sopt f v s = sopt g v' t"
  by (cases v') (auto simp: sopt_def intro!: sbind_cong)

lemma sbind_eq_Inr: "sbind m f s = Inr r \<longleftrightarrow> (\<exists>a s'. m s = Inr (a, s') \<and> f a s' = Inr r)"
  by (cases "m s") (auto simp: sbind_def)

lemma sret_eq_Inr: "sret a s = Inr r \<longleftrightarrow> r = (a, s)"
  by (auto simp: sret_def)

text \<open>A loop with an accumulator, a fallible function of no state, a reading and a change of the state.\<close>

fun sfold :: "('x \<Rightarrow> 'a \<Rightarrow> 's \<Rightarrow> ('a \<times> 's) res) \<Rightarrow> 'x list \<Rightarrow> 'a \<Rightarrow> 's \<Rightarrow> ('a \<times> 's) res" where
  "sfold f [] a = sret a"
| "sfold f (x # xs) a = sbind (f x a) (sfold f xs)"

definition slift :: "'a res \<Rightarrow> 's \<Rightarrow> ('a \<times> 's) res" where
  "slift m s = rbind m (\<lambda>a. Inr (a, s))"

definition sget :: "('s \<Rightarrow> 'a) \<Rightarrow> 's \<Rightarrow> ('a \<times> 's) res" where
  "sget f s = Inr (f s, s)"

definition smod :: "('s \<Rightarrow> 's) \<Rightarrow> 's \<Rightarrow> (unit \<times> 's) res" where
  "smod f s = Inr ((), f s)"

definition swhen :: "bool \<Rightarrow> ('s \<Rightarrow> (unit \<times> 's) res) \<Rightarrow> 's \<Rightarrow> (unit \<times> 's) res" where
  "swhen c m = (if c then m else sret ())"

subsection \<open>Python text\<close>

text \<open>
  Source text is Latin-1: a \<^typ>\<open>char\<close> is the code point of the same number. The
  predicates are \<open>str.isdigit\<close>, \<open>str.isalpha\<close>, \<open>str.isalnum\<close> and \<open>str.isspace\<close> on that
  range: the superscripts 178, 179, 185 are digits but not decimals, 188 to 190 are
  numeric only.
\<close>

abbreviation code :: "char \<Rightarrow> nat" where
  "code \<equiv> of_char"

definition ascii_digit :: "char \<Rightarrow> bool" where
  "ascii_digit c \<longleftrightarrow> 48 \<le> code c \<and> code c \<le> 57"

definition py_isdigit :: "char \<Rightarrow> bool" where
  "py_isdigit c \<longleftrightarrow> ascii_digit c \<or> code c = 178 \<or> code c = 179 \<or> code c = 185"

definition py_isalpha :: "char \<Rightarrow> bool" where
  "py_isalpha c \<longleftrightarrow> 65 \<le> code c \<and> code c \<le> 90 \<or> 97 \<le> code c \<and> code c \<le> 122
     \<or> code c = 170 \<or> code c = 181 \<or> code c = 186
     \<or> 192 \<le> code c \<and> code c \<noteq> 215 \<and> code c \<noteq> 247"

definition py_isalnum :: "char \<Rightarrow> bool" where
  "py_isalnum c \<longleftrightarrow> py_isalpha c \<or> py_isdigit c \<or> 188 \<le> code c \<and> code c \<le> 190"

definition py_isspace :: "char \<Rightarrow> bool" where
  "py_isspace c \<longleftrightarrow> 9 \<le> code c \<and> code c \<le> 13 \<or> 28 \<le> code c \<and> code c \<le> 32
     \<or> code c = 133 \<or> code c = 160"

lemmas py_char_defs = ascii_digit_def py_isdigit_def py_isalpha_def py_isalnum_def py_isspace_def

definition py_lstrip :: "string \<Rightarrow> string" where
  "py_lstrip s = dropWhile py_isspace s"

definition py_rstrip :: "string \<Rightarrow> string" where
  "py_rstrip s = rev (dropWhile py_isspace (rev s))"

definition py_strip :: "string \<Rightarrow> string" where
  "py_strip s = py_rstrip (py_lstrip s)"

lemma length_dropWhile_pred [simp]: "length (dropWhile P xs) - Suc 0 \<le> length xs"
  using length_dropWhile_le [of P xs] by simp

lemma length_py_lstrip: "length (py_lstrip s) \<le> length s"
  by (simp add: py_lstrip_def length_dropWhile_le)

lemma length_py_rstrip: "length (py_rstrip s) \<le> length s"
  using length_dropWhile_le [of py_isspace "rev s"] by (simp add: py_rstrip_def)

lemma length_py_strip: "length (py_strip s) \<le> length s"
  unfolding py_strip_def by (rule le_trans [OF length_py_rstrip length_py_lstrip])

lemma py_strip_id:
  assumes "s = [] \<or> \<not> py_isspace (hd s) \<and> \<not> py_isspace (last s)"
  shows "py_strip s = s"
proof -
  have l: "py_lstrip s = s" using assms by (cases s) (auto simp: py_lstrip_def)
  have r: "py_rstrip s = s" using assms by (cases s rule: rev_cases) (auto simp: py_rstrip_def)
  from l r show ?thesis by (simp add: py_strip_def)
qed

lemma rstrip_prefix:
  assumes "p \<noteq> []" and "\<not> py_isspace (last p)"
  shows "\<exists>t'. py_rstrip (p @ t) = p @ t' \<and> length t' \<le> length t"
proof -
  have r: "rev p = last p # rev (butlast p)" using assms(1) by (cases p rule: rev_cases) auto
  have "dropWhile py_isspace (rev t @ rev p) = dropWhile py_isspace (rev t) @ rev p"
  proof (cases "\<forall>c \<in> set t. py_isspace c")
    case True
    then have "dropWhile py_isspace (rev t) = []" by simp
    with True show ?thesis by (simp add: dropWhile_append r assms(2))
  next
    case False
    then obtain c where "c \<in> set (rev t)" "\<not> py_isspace c" by auto
    then show ?thesis by (rule dropWhile_append1)
  qed
  then have "py_rstrip (p @ t) = p @ py_rstrip t" by (simp add: py_rstrip_def)
  then show ?thesis using length_py_rstrip by blast
qed

lemma strip_prefix:
  assumes "p \<noteq> []" and "\<not> py_isspace (hd p)" and "\<not> py_isspace (last p)"
  shows "\<exists>t'. py_strip (p @ t) = p @ t' \<and> length t' \<le> length t"
proof -
  have "py_lstrip (p @ t) = p @ t" using assms(1,2) by (cases p) (auto simp: py_lstrip_def)
  then show ?thesis using rstrip_prefix [OF assms(1,3)] by (simp add: py_strip_def)
qed

fun starts_with :: "string \<Rightarrow> string \<Rightarrow> bool" where
  "starts_with [] s = True"
| "starts_with (p # ps) [] = False"
| "starts_with (p # ps) (c # s) = (p = c \<and> starts_with ps s)"

lemma starts_with_conv: "starts_with p s \<longleftrightarrow> (\<exists>t. s = p @ t)"
  by (induction p s rule: starts_with.induct) auto

lemma starts_with_take: "starts_with p s \<longleftrightarrow> take (length p) s = p"
  by (induction p s rule: starts_with.induct) auto

definition ends_with :: "string \<Rightarrow> string \<Rightarrow> bool" where
  "ends_with p s \<longleftrightarrow> starts_with (rev p) (rev s)"

lemma ends_with_conv: "ends_with p s \<longleftrightarrow> (\<exists>t. s = t @ p)"
proof -
  have "(rev s = rev p @ t) \<longleftrightarrow> (s = rev t @ p)" for t
    by (metis rev_append rev_rev_ident)
  then show ?thesis
    unfolding ends_with_def starts_with_conv by (metis rev_rev_ident)
qed

text \<open>\<open>s.find(c)\<close> for a one-character needle: the first index, or none.\<close>

fun find_char :: "char \<Rightarrow> string \<Rightarrow> nat option" where
  "find_char c [] = None"
| "find_char c (d # s) = (if d = c then Some 0 else map_option Suc (find_char c s))"

lemma find_char_None: "find_char c s = None \<longleftrightarrow> c \<notin> set s"
  by (induction s) auto

lemma find_char_Some:
  "find_char c s = Some i \<Longrightarrow> i < length s \<and> s ! i = c \<and> c \<notin> set (take i s)"
  by (induction s arbitrary: i) (auto split: if_splits)

lemma find_char_append: "c \<notin> set p \<Longrightarrow> find_char c (p @ c # s) = Some (length p)"
  by (induction p) auto

subsection \<open>Decimal text\<close>

definition digit_char :: "nat \<Rightarrow> char" where
  "digit_char d = char_of (48 + d)"

fun show_nat :: "nat \<Rightarrow> string" where
  "show_nat n = (if n < 10 then [digit_char n] else show_nat (n div 10) @ [digit_char (n mod 10)])"

declare show_nat.simps [simp del]

definition show_int :: "int \<Rightarrow> string" where
  "show_int i = (if i < 0 then CHR ''-'' # show_nat (nat (- i)) else show_nat (nat i))"

definition digit_val :: "char \<Rightarrow> nat" where
  "digit_val c = code c - 48"

definition dec_val :: "string \<Rightarrow> nat" where
  "dec_val s = foldl (\<lambda>n c. 10 * n + digit_val c) 0 s"

lemma dec_val_snoc [simp]: "dec_val (s @ [c]) = 10 * dec_val s + digit_val c"
  by (simp add: dec_val_def)

lemma code_digit_char: "d < 10 \<Longrightarrow> code (digit_char d) = 48 + d"
  by (simp add: digit_char_def take_bit_eq_mod)

lemma digit_char_eval [simp]:
  "digit_char 0 = CHR ''0''" "digit_char 1 = CHR ''1''" "digit_char 2 = CHR ''2''"
  "digit_char 3 = CHR ''3''" "digit_char 4 = CHR ''4''" "digit_char 5 = CHR ''5''"
  "digit_char 6 = CHR ''6''" "digit_char 7 = CHR ''7''" "digit_char 8 = CHR ''8''"
  "digit_char 9 = CHR ''9''"
  by code_simp+

lemma digit_char_simps [simp]:
  "d < 10 \<Longrightarrow> ascii_digit (digit_char d)" "d < 10 \<Longrightarrow> digit_val (digit_char d) = d"
  by (simp_all add: ascii_digit_def digit_val_def code_digit_char)

lemma show_nat_digits: "\<forall>c \<in> set (show_nat n). ascii_digit c"
proof (induction n rule: show_nat.induct)
  case (1 n)
  then show ?case by (cases "n < 10") (simp_all add: show_nat.simps [of n])
qed

lemma show_nat_nonempty [simp]: "show_nat n \<noteq> []"
  by (subst show_nat.simps) simp

lemma dec_val_show_nat [simp]: "dec_val (show_nat n) = n"
proof (induction n rule: show_nat.induct)
  case (1 n)
  show ?case
  proof (cases "n < 10")
    case True
    then show ?thesis by (simp add: show_nat.simps [of n] dec_val_def)
  next
    case False
    with 1 show ?thesis by (simp add: show_nat.simps [of n])
  qed
qed

subsection \<open>Dictionaries\<close>

text \<open>
  A Python dict is an association list in insertion order with distinct keys:
  \<open>d[k] = v\<close> is \<^const>\<open>AList.update\<close> (in place when the key is present, at the end
  otherwise), \<open>d.get(k)\<close> is \<^const>\<open>map_of\<close>, iteration follows the list.
\<close>

type_synonym 'v dict = "(string \<times> 'v) list"

abbreviation dict_set :: "'k \<Rightarrow> 'v \<Rightarrow> ('k \<times> 'v) list \<Rightarrow> ('k \<times> 'v) list" where
  "dict_set \<equiv> AList.update"

definition has_key :: "('k \<times> 'v) list \<Rightarrow> 'k \<Rightarrow> bool" where
  "has_key d k \<longleftrightarrow> map_of d k \<noteq> None"

lemma dict_get_set [simp, dict_simps]:
  "map_of (dict_set k v d) k' = (if k' = k then Some v else map_of d k')"
  by (simp add: update_conv')

lemma has_key_set [simp, dict_simps]: "has_key (dict_set k v d) k' \<longleftrightarrow> k' = k \<or> has_key d k'"
  by (simp add: has_key_def)

lemma has_key_Nil [simp]: "\<not> has_key [] k"
  by (simp add: has_key_def)

lemma has_key_iff: "has_key d k \<longleftrightarrow> k \<in> fst ` set d"
  by (simp add: has_key_def map_of_eq_None_iff)

lemma keys_dict_set: "fst ` set (dict_set k v d) = insert k (fst ` set d)"
proof -
  have "dom (map_of (dict_set k v d)) = insert k (dom (map_of d))"
    by (simp add: update_conv' fun_upd_def dom_def) auto
  then show ?thesis by (simp add: dom_map_of_conv_image_fst)
qed

text \<open>Joining text: \<open>sep.join(parts)\<close>.\<close>

fun join :: "string \<Rightarrow> string list \<Rightarrow> string" where
  "join sep [] = []"
| "join sep [x] = x"
| "join sep (x # y # ys) = x @ sep @ join sep (y # ys)"

lemma in_list:
  assumes "x \<in> set (y # ys)"
  obtains "x = y" | "x \<in> set ys"
  using assms by auto

end
