(* ===== verification/Lexer.thy ===== *)
theory Lexer
  imports Prelude
begin

text \<open>
  \<open>compiler/lexer.py\<close>: token kinds, tokens, the scanners of string and character
  literals, and \<open>lex\<close>, the source text cut into tokens. The code keeps an index \<open>i\<close> into
  \<open>source\<close>; a definition here keeps the index and the text from it on (\<open>source[i:]\<close>), so
  that a test such as \<open>i + 1 < n and source[i + 1] == c\<close> is a pattern. Source text is
  Latin-1; the contents of a literal are lists of code points, since an escape can denote
  any of them.
\<close>

subsection \<open>Tokens\<close>

text \<open>
  \<open>TokenKind\<close>, in the groups its comments make: literals and names, keywords, operators,
  separators.
\<close>

datatype kw =
    LET | IF | ELSE | TYPE_KW | FUN | RET | ERR | TRY | STRUCT | IFACE | ENUM | MATCH | FOR | IN
  | BREAK | NEW | DEFER | NIL | IMPORT | EXTERN | SPAWN

datatype opk =
    PLUS | MINUS | STAR | SLASH | PERCENT | AMP | PIPE | CARET | TILDE | SHL | SHR
  | EQ | PLUSEQ | MINUSEQ | STAREQ | SLASHEQ | PERCENTEQ | AMPEQ | PIPEEQ | CARETEQ | SHLEQ | SHREQ
  | PLUSPLUS | MINUSMINUS | GT | LT | GE | LE | EQEQ | NE | AND | OR | NOT
  | QUESTION | QUESTIONQUESTION | NOTNOT

datatype tokkind =
    INTEGER | FLOAT | STRING | CHAR_LIT | BOOL | IDENT
  | Kw kw
  | Op opk
  | LPAREN | RPAREN | LBRACE | RBRACE | SEMI | COMMA | COLON | COLONCOLON | DOTDOT | ARROW
  | LBRACKET | RBRACKET | DOT | EOF

type_synonym ustr = "nat list"

text \<open>A part of an interpolated string: literal code points, or the text of an expression.\<close>

datatype part = PLit ustr | PExpr string

datatype tokval =
    VInt nat "string option"
  | VFloat string "string option"
  | VStr ustr
  | VInterp "part list"
  | VChar nat
  | VBool bool
  | VText string

record token =
  tkind :: tokkind
  tvalue :: tokval
  tpos :: nat

abbreviation Token :: "tokkind \<Rightarrow> tokval \<Rightarrow> nat \<Rightarrow> token" where
  "Token k v p \<equiv> \<lparr>tkind = k, tvalue = v, tpos = p\<rparr>"

definition KEYWORDS :: "(string \<times> tokkind) list" where
  "KEYWORDS =
    [(''let'', Kw LET), (''if'', Kw IF), (''else'', Kw ELSE), (''fun'', Kw FUN), (''ret'', Kw RET),
     (''err'', Kw ERR), (''try'', Kw TRY), (''struct'', Kw STRUCT), (''iface'', Kw IFACE), (''enum'', Kw ENUM),
     (''match'', Kw MATCH), (''for'', Kw FOR), (''in'', Kw IN), (''break'', Kw BREAK), (''new'', Kw NEW),
     (''defer'', Kw DEFER), (''nil'', Kw NIL), (''import'', Kw IMPORT), (''extern'', Kw EXTERN),
     (''spawn'', Kw SPAWN), (''type'', Kw TYPE_KW), (''true'', BOOL), (''false'', BOOL)]"

definition INTEGER_SUFFIXES :: "string list" where
  "INTEGER_SUFFIXES = [''i8'', ''i16'', ''i32'', ''i64'', ''u8'', ''u16'', ''u32'', ''u64'']"

definition FLOAT_SUFFIXES :: "string list" where
  "FLOAT_SUFFIXES = [''f32'', ''f64'']"

subsection \<open>Python's \<open>int\<close>\<close>

text \<open>
  \<open>int(s, 16)\<close>: surrounding white space (the two Latin-1 spaces 133 and 160 count), a sign,
  an optional \<open>0x\<close> that one underscore may follow, then hexadecimal digits with single
  underscores between them; anything else is a \<open>ValueError\<close>, here \<^const>\<open>None\<close>.
\<close>

definition hexval :: "char \<Rightarrow> nat option" where
  "hexval c =
     (if ascii_digit c then Some (code c - 48)
      else if 97 \<le> code c \<and> code c \<le> 102 then Some (code c - 87)
      else if 65 \<le> code c \<and> code c \<le> 70 then Some (code c - 55)
      else None)"

fun hex_digits :: "bool \<Rightarrow> nat \<Rightarrow> string \<Rightarrow> nat option" where
  "hex_digits prev_underscore acc [] = (if prev_underscore then None else Some acc)"
| "hex_digits prev_underscore acc (c # cs) =
     (if c = CHR ''_'' then (if prev_underscore then None else hex_digits True acc cs)
      else case hexval c of None \<Rightarrow> None | Some d \<Rightarrow> hex_digits False (16 * acc + d) cs)"

definition int_space :: "char \<Rightarrow> bool" where
  "int_space c \<longleftrightarrow> 9 \<le> code c \<and> code c \<le> 13 \<or> code c = 32 \<or> code c = 133 \<or> code c = 160"

definition py_int16 :: "string \<Rightarrow> int option" where
  "py_int16 s =
     (let t = rev (dropWhile int_space (rev (dropWhile int_space s)));
          neg = (case t of c # _ \<Rightarrow> c = CHR ''-'' | [] \<Rightarrow> False);
          u = (case t of c # r \<Rightarrow> if c = CHR ''-'' \<or> c = CHR ''+'' then r else t | [] \<Rightarrow> t);
          v = (case u of
                 c # d # r \<Rightarrow> if c = CHR ''0'' \<and> (d = CHR ''x'' \<or> d = CHR ''X'')
                   then (case r of e # r' \<Rightarrow> if e = CHR ''_'' then r' else r | [] \<Rightarrow> r)
                   else u
               | _ \<Rightarrow> u)
      in map_option (\<lambda>n. if neg then - int n else int n) (hex_digits True 0 v))"

text \<open>
  \<open>int(s)\<close> on a run of characters that \<open>isdigit\<close> accepts: the superscripts are no decimal
  digits, and the conversion refuses more than 4300 digits (the limit Python sets unless
  the environment changes it).
\<close>

definition py_int10 :: "string \<Rightarrow> nat option" where
  "py_int10 s = (if list_all ascii_digit s \<and> length s \<le> 4300 then Some (dec_val s) else None)"

subsection \<open>Escapes, interpolations, literals\<close>

definition at_pos :: "string \<Rightarrow> nat \<Rightarrow> exn" where
  "at_pos msg i = SyntaxError (msg @ '' at position '' @ show_nat i)"

text \<open>
  The result is the code point, the index behind the escape and the text from there;
  \<open>decode_unicode\<close> reads what follows \<open>\u{\<close> of the escape that starts at \<open>i\<close>. \<open>chr\<close> takes its
  argument as a C \<open>int\<close>: below \<open>- 2 ^ 31\<close> it raises \<open>OverflowError\<close>, on other negative numbers \<open>ValueError\<close>.
\<close>

definition decode_unicode :: "nat \<Rightarrow> string \<Rightarrow> (nat \<times> nat \<times> string) res" where
  "decode_unicode i cs =
     (let digits = takeWhile (\<lambda>c. c \<noteq> CHR ''}'') cs;
          r = dropWhile (\<lambda>c. c \<noteq> CHR ''}'') cs
      in if r = [] then Inl (at_pos ''Unterminated unicode escape'' i)
         else if digits = [] then Inl (at_pos ''Invalid unicode escape'' i)
         else case py_int16 digits of
           None \<Rightarrow> Inl (at_pos ''Invalid unicode escape'' i)
         | Some cp \<Rightarrow>
             if cp > 0x10FFFF \<or> 0xD800 \<le> cp \<and> cp \<le> 0xDFFF
             then Inl (at_pos ''Invalid unicode code point'' i)
             else if cp < - (2 ^ 31) then Inl OverflowError
             else if cp < 0 then Inl ValueError
             else Inr (nat cp, i + 4 + length digits, tl r))"

definition decode_escape :: "nat \<Rightarrow> char \<Rightarrow> string \<Rightarrow> (nat \<times> nat \<times> string) res" where
  "decode_escape i quote cs =
     (case cs of
        _ # ec # r \<Rightarrow>
          if ec = CHR ''n'' then Inr (10, i + 2, r)
          else if ec = CHR ''t'' then Inr (9, i + 2, r)
          else if ec = CHR ''r'' then Inr (13, i + 2, r)
          else if ec = CHR 0x5C then Inr (92, i + 2, r)
          else if ec = quote then Inr (code quote, i + 2, r)
          else if ec = CHR 0x22 then Inr (34, i + 2, r)
          else if ec = CHR 0x27 then Inr (39, i + 2, r)
          else if ec = CHR ''u'' \<and> starts_with ''{'' r then decode_unicode i (tl r)
          else Inr (code ec, i + 2, r)
      | _ \<Rightarrow> Inl (at_pos ''Unterminated escape sequence'' i))"

fun scan_interpolation_expr ::
    "nat \<Rightarrow> int \<Rightarrow> char option \<Rightarrow> string \<Rightarrow> nat \<Rightarrow> string \<Rightarrow> (string \<times> nat \<times> string) res" where
  "scan_interpolation_expr start depth quote acc i [] =
     Inl (at_pos ''Unterminated string interpolation'' (start - 1))"
| "scan_interpolation_expr start depth (Some q) acc i (ch # cs) =
     (if ch = CHR 0x5C then
        (case cs of
           [] \<Rightarrow> Inl (at_pos ''Unterminated string interpolation'' (start - 1))
         | d # cs' \<Rightarrow> scan_interpolation_expr start depth (Some q) (d # ch # acc) (i + 2) cs')
      else scan_interpolation_expr start depth (if ch = q then None else Some q) (ch # acc) (i + 1) cs)"
| "scan_interpolation_expr start depth None acc i (ch # cs) =
     (if ch = CHR 0x27 \<or> ch = CHR 0x22 then
        scan_interpolation_expr start depth (Some ch) (ch # acc) (i + 1) cs
      else if ch \<in> set ''([{'' then
        scan_interpolation_expr start (depth + 1) None (ch # acc) (i + 1) cs
      else if ch = CHR ''}'' then
        (if depth - 1 = 0 then
           (if py_strip (rev acc) = [] then Inl (at_pos ''Empty string interpolation'' (start - 1))
            else Inr (py_strip (rev acc), i + 1, cs))
         else scan_interpolation_expr start (depth - 1) None (ch # acc) (i + 1) cs)
      else if ch \<in> set '')]'' then
        (if depth - 1 < 1 then Inl (at_pos ''Unbalanced string interpolation'' (start - 1))
         else scan_interpolation_expr start (depth - 1) None (ch # acc) (i + 1) cs)
      else scan_interpolation_expr start depth None (ch # acc) (i + 1) cs)"

text \<open>
  Both scanners consume: the index moves forward, by as much as the text gets shorter.
\<close>

definition advances :: "nat \<Rightarrow> string \<Rightarrow> nat \<Rightarrow> string \<Rightarrow> bool" where
  "advances i cs j r \<longleftrightarrow> i < j \<and> j + length r = i + length cs"

lemma advances_shorter: "advances i cs j r \<Longrightarrow> length r < length cs"
  by (simp add: advances_def)

lemma advances_trans: "advances i cs j r \<Longrightarrow> advances j r k t \<Longrightarrow> advances i cs k t"
  by (simp add: advances_def)

lemma length_takeWhile_dropWhile: "length (takeWhile P xs) + length (dropWhile P xs) = length xs"
  by (metis length_append takeWhile_dropWhile_id)

lemma decode_unicode_advances:
  "decode_unicode i cs = Inr (cp, j, r) \<Longrightarrow> j + length r = i + 3 + length cs \<and> i + 3 < j"
  using length_takeWhile_dropWhile [of "\<lambda>c. c \<noteq> CHR ''}''" cs]
  by (cases "dropWhile (\<lambda>c. c \<noteq> CHR ''}'') cs")
    (auto simp: decode_unicode_def Let_def split: if_splits option.splits)

lemma decode_escape_advances:
  assumes "decode_escape i quote cs = Inr (cp, j, r)"
  shows "advances i cs j r"
proof -
  obtain b ec t where cs: "cs = b # ec # t"
    using assms by (auto simp: decode_escape_def split: list.splits)
  show ?thesis
  proof (cases "r = t \<and> j = i + 2")
    case True
    with cs show ?thesis by (simp add: advances_def)
  next
    case False
    with assms cs have "starts_with ''{'' t" "decode_unicode i (tl t) = Inr (cp, j, r)"
      by (auto simp: decode_escape_def split: if_split_asm)
    with cs show ?thesis
      using decode_unicode_advances [of i "tl t" cp j r] by (cases t) (auto simp: advances_def)
  qed
qed

lemma scan_interpolation_expr_advances:
  "scan_interpolation_expr start depth quote acc i cs = Inr (e, j, r) \<Longrightarrow> advances i cs j r"
proof (induction start depth quote acc i cs rule: scan_interpolation_expr.induct)
  case (2 start depth q acc i ch cs)
  show ?case
  proof (cases "ch = CHR 0x5C")
    case True
    with "2.prems" obtain d cs' where cs: "cs = d # cs'"
      by (cases cs) simp_all
    with True "2.IH"(1) [OF True cs] "2.prems" show ?thesis by (simp add: advances_def)
  next
    case False
    with "2.IH"(2) [OF False] "2.prems" show ?thesis by (simp add: advances_def)
  qed
next
  case (3 start depth acc i ch cs)
  from "3.prems" "3.IH" show ?case
    by (simp add: advances_def split: if_split_asm)
qed simp

declare scan_interpolation_expr.simps [simp del]

lemmas scanner_advances = decode_escape_advances scan_interpolation_expr_advances

text \<open>
  \<open>_scan_string\<close>: \<open>chars\<close> and \<open>parts\<close> are kept in reverse. The result is a
  \<^const>\<open>VStr\<close> or, when an interpolation was seen, a \<^const>\<open>VInterp\<close>.
\<close>

function scan_string_loop ::
    "nat \<Rightarrow> nat \<Rightarrow> ustr \<Rightarrow> part list \<Rightarrow> bool \<Rightarrow> string \<Rightarrow> (tokval \<times> nat \<times> string) res" where
  "scan_string_loop start i chars parts interpolated [] =
     Inl (at_pos ''Unterminated string literal'' start)"
| "scan_string_loop start i chars parts interpolated (ch # cs) =
     (if ch = CHR 0x22 then
        (if interpolated
         then Inr (VInterp (rev (if chars \<noteq> [] then PLit (rev chars) # parts else parts)), i + 1, cs)
         else Inr (VStr (rev chars), i + 1, cs))
      else if ch = CHR 0x5C then
        rbind (decode_escape i CHR 0x22 (ch # cs))
          (\<lambda>(cp, j, r). scan_string_loop start j (cp # chars) parts interpolated r)
      else if ch = CHR ''{'' then
        (if starts_with ''{'' cs then scan_string_loop start (i + 2) (code ch # chars) parts interpolated (tl cs)
         else rbind (scan_interpolation_expr (i + 1) 1 None [] (i + 1) cs)
           (\<lambda>(e, j, r). scan_string_loop start j []
              (PExpr e # (if chars \<noteq> [] then PLit (rev chars) # parts else parts)) True r))
      else if ch = CHR ''}'' then
        (if starts_with ''}'' cs then scan_string_loop start (i + 2) (code ch # chars) parts interpolated (tl cs)
         else Inl (at_pos ''Unescaped '}' in string literal'' i))
      else scan_string_loop start (i + 1) (code ch # chars) parts interpolated cs)"
  by pat_completeness auto
termination
  by (relation "measure (\<lambda>(start, i, chars, parts, interpolated, cs). length cs)")
    (auto dest: scanner_advances [THEN advances_shorter])

definition scan_string :: "nat \<Rightarrow> string \<Rightarrow> (tokval \<times> nat \<times> string) res" where
  "scan_string start cs = scan_string_loop start (start + 1) [] [] False (tl cs)"

lemma scan_string_loop_advances:
  "scan_string_loop start i chars parts b cs = Inr (v, j, r) \<Longrightarrow> advances i cs j r"
proof (induction start i chars parts b cs rule: scan_string_loop.induct)
  case (2 start i chars parts b ch cs)
  consider "ch = CHR 0x22" | (esc) "ch = CHR 0x5C" | (opn) "ch = CHR ''{''" | (cls) "ch = CHR ''}''"
    | (other) "ch \<notin> {CHR 0x22, CHR 0x5C, CHR ''{'', CHR ''}''}"
    by blast
  then show ?case
  proof cases
    case esc
    with "2.prems" obtain cp k t where d: "decode_escape i CHR 0x22 (ch # cs) = Inr (cp, k, t)"
      and l: "scan_string_loop start k (cp # chars) parts b t = Inr (v, j, r)" by auto
    with esc "2.IH"(1) [OF _ esc d refl refl l] have "advances k t j r" by simp
    with scanner_advances(1) [OF d] show ?thesis by (rule advances_trans)
  next
    case opn
    show ?thesis
    proof (cases "starts_with ''{'' cs")
      case True
      with opn "2.prems" "2.IH"(2) show ?thesis by (cases cs) (auto simp: advances_def)
    next
      case False
      with opn "2.prems" obtain e k t where
        d: "scan_interpolation_expr (i + 1) 1 None [] (i + 1) cs = Inr (e, k, t)" by auto
      with opn False "2.prems" "2.IH"(3) [OF _ _ opn False d refl refl] have "advances k t j r"
        by simp
      with scanner_advances(2) [OF d] show ?thesis by (simp add: advances_def)
    qed
  next
    case cls
    with "2.prems" "2.IH"(4) show ?thesis by (cases cs) (auto simp: advances_def split: if_splits)
  qed (use "2.prems" "2.IH"(5) in \<open>auto simp: advances_def split: if_splits\<close>)
qed simp

declare scan_string_loop.simps [simp del]

definition scan_char :: "nat \<Rightarrow> string \<Rightarrow> (nat \<times> nat \<times> string) res" where
  "scan_char start cs =
     (case tl cs of
        [] \<Rightarrow> Inl (at_pos ''Unterminated char literal'' start)
      | c # r \<Rightarrow>
          if c = CHR 0x27 then Inl (at_pos ''Empty char literal'' start)
          else rbind (if c = CHR 0x5C then decode_escape (start + 1) CHR 0x27 (c # r)
                      else Inr (code c, start + 2, r))
            (\<lambda>(v, i, r'). case r' of
               [] \<Rightarrow> Inl (at_pos ''Char literal must contain exactly one Unicode code point'' start)
             | d # r'' \<Rightarrow>
                 if d = CHR 0x27 then Inr (v, i + 1, r'')
                 else Inl (at_pos ''Char literal must contain exactly one Unicode code point'' start)))"

subsection \<open>The main loop\<close>

definition ident_char :: "char \<Rightarrow> bool" where
  "ident_char c \<longleftrightarrow> py_isalnum c \<or> c = CHR ''_''"

text \<open>
  The branch for a number. \<open>number_text\<close> scans digits and, after a dot that is not the
  first of two, a fraction: the text, whether it is a float, whether digits follow the dot,
  the rest. The suffix is the run of identifier characters behind it.
\<close>

definition number_text :: "string \<Rightarrow> string \<times> bool \<times> bool \<times> string" where
  "number_text cs =
     (let ds = takeWhile py_isdigit cs; r = dropWhile py_isdigit cs
      in if starts_with ''.'' r \<and> \<not> starts_with ''..'' r
         then (ds @ CHR ''.'' # takeWhile py_isdigit (tl r), True,
               takeWhile py_isdigit (tl r) \<noteq> [], dropWhile py_isdigit (tl r))
         else (ds, False, False, r))"

definition lex_number :: "nat \<Rightarrow> string \<Rightarrow> (token \<times> nat \<times> string) res" where
  "lex_number start cs =
     (case number_text cs of (text, is_float, has_fraction, r) \<Rightarrow>
      let suf = takeWhile ident_char r;
          suffix = (if suf = [] then None else Some suf);
          suffix_start = start + length text;
          i = suffix_start + length suf
      in if is_float then
           (if \<not> has_fraction then Inl (at_pos ''Invalid float literal'' start)
            else if suf \<noteq> [] \<and> suf \<notin> set FLOAT_SUFFIXES
            then Inl (at_pos (''Invalid float literal suffix '' @ suf) suffix_start)
            else Inr (Token FLOAT (VFloat text suffix) start, i, dropWhile ident_char r))
         else
           (if suf \<noteq> [] \<and> suf \<notin> set INTEGER_SUFFIXES
            then Inl (at_pos (''Invalid integer literal suffix '' @ suf) suffix_start)
            else case py_int10 text of
              None \<Rightarrow> Inl ValueError
            | Some n \<Rightarrow> Inr (Token INTEGER (VInt n suffix) start, i, dropWhile ident_char r)))"

definition lex_word :: "nat \<Rightarrow> string \<Rightarrow> token \<times> nat \<times> string" where
  "lex_word start cs =
     (let word = takeWhile ident_char cs;
          kind = (case map_of KEYWORDS word of Some k \<Rightarrow> k | None \<Rightarrow> IDENT);
          v = (if kind = BOOL then VBool (word = ''true'') else VText word)
      in (Token kind v start, start + length word, dropWhile ident_char cs))"

definition OPS3 :: "(string \<times> tokkind) list" where
  "OPS3 = [(''<<='', Op SHLEQ), (''>>='', Op SHREQ)]"

definition OPS2 :: "(string \<times> tokkind) list" where
  "OPS2 =
    [(''+='', Op PLUSEQ), (''-='', Op MINUSEQ), (''*='', Op STAREQ), (''/='', Op SLASHEQ), (''%='', Op PERCENTEQ),
     (''&='', Op AMPEQ), (''|='', Op PIPEEQ), (''^='', Op CARETEQ), (''++'', Op PLUSPLUS), (''--'', Op MINUSMINUS),
     (''<<'', Op SHL), (''>>'', Op SHR), (''>='', Op GE), (''<='', Op LE), (''=='', Op EQEQ), (''!='', Op NE),
     (''!!'', Op NOTNOT), (''&&'', Op AND), (''||'', Op OR), (''::'', COLONCOLON), (''->'', ARROW),
     (''??'', Op QUESTIONQUESTION), (''..'', DOTDOT)]"

definition OPS1 :: "(string \<times> tokkind) list" where
  "OPS1 =
    [(''+'', Op PLUS), (''-'', Op MINUS), (''*'', Op STAR), (''/'', Op SLASH), (''%'', Op PERCENT), (''&'', Op AMP),
     (''|'', Op PIPE), (''^'', Op CARET), (''~'', Op TILDE), (''='', Op EQ), (''>'', Op GT), (''<'', Op LT),
     (''('', LPAREN), ('')'', RPAREN), (''{'', LBRACE), (''}'', RBRACE), ('';'', SEMI),
     ('','', COMMA), ('':'', COLON), (''.'', DOT), (''['', LBRACKET), ('']'', RBRACKET),
     (''!'', Op NOT), (''?'', Op QUESTION)]"

text \<open>
  The symbols: three characters are tried first, then two, then one. A slice that the text
  is too short for has fewer characters and so is in no table.
\<close>

definition lex_symbol :: "nat \<Rightarrow> string \<Rightarrow> (token \<times> nat \<times> string) res" where
  "lex_symbol i cs =
     (case map_of OPS3 (take 3 cs) of
        Some k \<Rightarrow> Inr (Token k (VText (take 3 cs)) i, i + 3, drop 3 cs)
      | None \<Rightarrow>
     (case map_of OPS2 (take 2 cs) of
        Some k \<Rightarrow> Inr (Token k (VText (take 2 cs)) i, i + 2, drop 2 cs)
      | None \<Rightarrow>
     (case map_of OPS1 (take 1 cs) of
        Some k \<Rightarrow> Inr (Token k (VText (take 1 cs)) i, i + 1, drop 1 cs)
      | None \<Rightarrow> Inl (at_pos (''Unexpected character '' @ take 1 cs) i))))"

text \<open>
  One turn of \<open>while i < n\<close>: white space and comments produce no token. A string or
  character token carries the index behind the literal, every other token its start.
\<close>

definition lex_step :: "nat \<Rightarrow> char \<Rightarrow> string \<Rightarrow> (token option \<times> nat \<times> string) res" where
  "lex_step i ch cs =
     (if ch = CHR '' '' \<or> code ch = 9 \<or> code ch = 10 \<or> code ch = 13 then Inr (None, i + 1, cs)
      else if ch = CHR ''#'' then
        Inr (None, i + 1 + length (takeWhile (\<lambda>c. code c \<noteq> 10) cs), dropWhile (\<lambda>c. code c \<noteq> 10) cs)
      else if py_isdigit ch then
        rbind (lex_number i (ch # cs)) (\<lambda>(t, j, r). Inr (Some t, j, r))
      else if ch = CHR 0x22 then
        rbind (scan_string i (ch # cs)) (\<lambda>(v, j, r). Inr (Some (Token STRING v j), j, r))
      else if ch = CHR 0x27 then
        rbind (scan_char i (ch # cs)) (\<lambda>(v, j, r). Inr (Some (Token CHAR_LIT (VChar v) j), j, r))
      else if py_isalpha ch \<or> ch = CHR ''_'' then
        (case lex_word i (ch # cs) of (t, j, r) \<Rightarrow> Inr (Some t, j, r))
      else rbind (lex_symbol i (ch # cs)) (\<lambda>(t, j, r). Inr (Some t, j, r)))"

lemma lex_word_advances:
  "lex_word i cs = (t, j, r) \<Longrightarrow> cs \<noteq> [] \<Longrightarrow> ident_char (hd cs) \<Longrightarrow> advances i cs j r"
  using length_takeWhile_dropWhile [of ident_char cs]
  by (cases cs) (auto simp: lex_word_def Let_def advances_def)

lemma map_of_list_all: "map_of xs k = Some v \<Longrightarrow> list_all (\<lambda>(k, v). P k) xs \<Longrightarrow> P k"
  by (auto dest!: map_of_SomeD simp: list_all_iff)

lemma ops_length:
  "map_of OPS3 xs = Some k \<Longrightarrow> length xs = 3"
  "map_of OPS2 xs = Some k \<Longrightarrow> length xs = 2"
  "map_of OPS1 xs = Some k \<Longrightarrow> length xs = 1"
  by (erule map_of_list_all, simp add: OPS3_def OPS2_def OPS1_def)+

lemma lex_symbol_advances:
  assumes "lex_symbol i cs = Inr (t, j, r)"
  shows "advances i cs j r"
proof -
  have take: "length (take n cs) = n \<Longrightarrow> 0 < n \<Longrightarrow> advances i cs (i + n) (drop n cs)" for n
    by (simp add: advances_def)
  show ?thesis
    using assms take [of 3] take [of 2] take [of 1]
      ops_length(1) [of "take 3 cs"] ops_length(2) [of "take 2 cs"] ops_length(3) [of "take 1 cs"]
    by (simp add: lex_symbol_def del: length_take split: option.split_asm)
qed

lemma number_text_split:
  assumes "number_text cs = (num, f, h, r)"
  shows "num @ r = cs" and "cs \<noteq> [] \<Longrightarrow> py_isdigit (hd cs) \<Longrightarrow> num \<noteq> []"
proof -
  obtain ds r1 where ds: "takeWhile py_isdigit cs = ds" and r1: "dropWhile py_isdigit cs = r1"
    by simp
  have cs: "cs = ds @ r1" unfolding ds [symmetric] r1 [symmetric] by simp
  note n = assms [unfolded number_text_def ds r1 Let_def]
  show "num @ r = cs"
  proof (cases "starts_with ''.'' r1 \<and> \<not> starts_with ''..'' r1")
    case True
    then obtain t where "r1 = CHR ''.'' # t" by (auto simp: starts_with_conv)
    with n True have "num = ds @ CHR ''.'' # takeWhile py_isdigit t" "r = dropWhile py_isdigit t"
      by auto
    with \<open>r1 = CHR ''.'' # t\<close> show ?thesis by (simp add: cs)
  next
    case False
    then show ?thesis using n by (simp add: cs split: if_split_asm)
  qed
  assume "cs \<noteq> []" "py_isdigit (hd cs)"
  then have "ds \<noteq> []" unfolding ds [symmetric] by (cases cs) simp_all
  with n show "num \<noteq> []" by (auto split: if_split_asm)
qed

lemma lex_number_advances:
  assumes "lex_number i cs = Inr (t, j, r)" and "cs \<noteq> []" and "py_isdigit (hd cs)"
  shows "advances i cs j r"
proof -
  obtain num f h r' where n: "number_text cs = (num, f, h, r')"
    by (cases "number_text cs") auto
  from assms(1) n have "j = i + length num + length (takeWhile ident_char r')"
    and "r = dropWhile ident_char r'"
    by (simp_all add: lex_number_def Let_def split: if_split_asm option.split_asm)
  moreover have "length cs = length num + length r'" "num \<noteq> []"
    using number_text_split [OF n] assms(2,3) by auto
  ultimately show ?thesis
    using length_takeWhile_dropWhile [of ident_char r'] by (simp add: advances_def)
qed

lemma scan_charD:
  assumes "scan_char i cs = Inr (v, j, r)"
  shows "\<exists>b c t k. cs = b # c # t \<and> j = k + 1 \<and>
    (if c = CHR 0x5C then decode_escape (i + 1) CHR 0x27 (c # t) else Inr (code c, i + 2, t))
      = Inr (v, k, CHR 0x27 # r)"
proof -
  from assms obtain b c t where cs: "cs = b # c # t"
    by (cases cs; cases "tl cs") (simp_all add: scan_char_def)
  let ?e = "if c = CHR 0x5C then decode_escape (i + 1) CHR 0x27 (c # t) else Inr (code c, i + 2, t)"
  from assms obtain x where x: "?e = Inr x"
    unfolding scan_char_def cs by (auto split: if_split_asm)
  obtain w k r' where e: "?e = Inr (w, k, r')"
    using x by (cases x) auto
  with assms have "r' = CHR 0x27 # r" "j = k + 1" "w = v"
    unfolding scan_char_def cs by (cases r'; auto split: if_split_asm)+
  with cs e show ?thesis by blast
qed

lemma scan_char_advances:
  assumes "scan_char i cs = Inr (v, j, r)"
  shows "advances i cs j r"
proof -
  from scan_charD [OF assms] obtain b c t k where *: "cs = b # c # t" "j = k + 1"
    "(if c = CHR 0x5C then decode_escape (i + 1) CHR 0x27 (c # t) else Inr (code c, i + 2, t))
      = Inr (v, k, CHR 0x27 # r)" by blast
  from *(3) have "advances (i + 1) (c # t) k (CHR 0x27 # r)"
    by (cases "c = CHR 0x5C") (auto dest: decode_escape_advances simp: advances_def)
  then show ?thesis by (simp add: *(1,2) advances_def)
qed

lemma scan_string_advances: "scan_string i cs = Inr (v, j, r) \<Longrightarrow> advances i cs j r"
  by (cases cs) (auto simp: scan_string_def advances_def scan_string_loop.simps
      dest!: scan_string_loop_advances)

lemma lex_step_advances:
  assumes "lex_step i ch cs = Inr (t, j, r)"
  shows "advances i (ch # cs) j r"
proof -
  consider (ws) "ch = CHR '' '' \<or> code ch = 9 \<or> code ch = 10 \<or> code ch = 13"
    | (comment) "j = i + 1 + length (takeWhile (\<lambda>c. code c \<noteq> 10) cs)" "r = dropWhile (\<lambda>c. code c \<noteq> 10) cs"
    | (number) t' where "py_isdigit ch" "lex_number i (ch # cs) = Inr (t', j, r)"
    | (str) v where "scan_string i (ch # cs) = Inr (v, j, r)"
    | (chr) v where "scan_char i (ch # cs) = Inr (v, j, r)"
    | (word) t' where "ident_char ch" "lex_word i (ch # cs) = (t', j, r)"
    | (symbol) t' where "lex_symbol i (ch # cs) = Inr (t', j, r)"
    using assms unfolding lex_step_def
    by (simp add: ident_char_def py_isalnum_def split: if_split_asm prod.split_asm) blast+
  then show ?thesis
  proof cases
    case ws
    with assms show ?thesis by (simp add: lex_step_def advances_def)
  next
    case comment
    then show ?thesis
      using length_takeWhile_dropWhile [of "\<lambda>c. code c \<noteq> 10" cs] by (simp add: advances_def)
  qed (auto intro: lex_number_advances scan_string_advances scan_char_advances
      lex_word_advances lex_symbol_advances)
qed

text \<open>The generator, run to its end: the tokens, with \<open>EOF\<close> at index \<open>n\<close> last.\<close>

function lex_from :: "nat \<Rightarrow> string \<Rightarrow> token list res" where
  "lex_from i [] = Inr [Token EOF (VText '''') i]"
| "lex_from i (ch # cs) =
     rbind (lex_step i ch cs)
       (\<lambda>(t, j, r). rbind (lex_from j r)
          (\<lambda>ts. Inr (case t of None \<Rightarrow> ts | Some t' \<Rightarrow> t' # ts)))"
  by pat_completeness auto
termination
  by (relation "measure (\<lambda>(i, cs). length cs)") (auto dest: lex_step_advances [THEN advances_shorter])

definition lex :: "string \<Rightarrow> token list res" where
  "lex source = lex_from 0 source"

end
