(* ===== verification/LexerProps.thy ===== *)
theory LexerProps
  imports Lexer
begin

text \<open>
  What \<open>lex\<close> promises its client, the parser: the list ends with the one \<open>EOF\<close>, indices
  grow and stay inside the text, the total weight of the tokens (which bounds the depth of
  the parser) is at most one more than the length of the text, literals hold Unicode scalar
  values only, and words, numbers, operators and strings written out are read back.
\<close>

subsection \<open>The token of one step\<close>

lemma lex_step_tokenE:
  assumes "lex_step i ch cs = Inr (Some t, j, r)"
  obtains (number) "py_isdigit ch" "lex_number i (ch # cs) = Inr (t, j, r)"
    | (str) v where "scan_string i (ch # cs) = Inr (v, j, r)" "t = Token STRING v j"
    | (char) v where "scan_char i (ch # cs) = Inr (v, j, r)" "t = Token CHAR_LIT (VChar v) j"
    | (word) "ident_char ch" "\<not> py_isdigit ch" "lex_word i (ch # cs) = (t, j, r)"
    | (symbol) "lex_symbol i (ch # cs) = Inr (t, j, r)"
  using assms unfolding lex_step_def
  by (simp add: ident_char_def py_isalnum_def split: if_split_asm prod.split_asm) blast+

lemma map_of_list_all_val: "map_of xs k = Some v \<Longrightarrow> list_all (\<lambda>(k, v). P v) xs \<Longrightarrow> P v"
  by (auto dest!: map_of_SomeD simp: list_all_iff)

lemma table_kinds:
  "map_of KEYWORDS w = Some k \<Longrightarrow> k \<notin> {EOF, STRING, CHAR_LIT, INTEGER, FLOAT, IDENT}"
  "map_of OPS3 w = Some k \<Longrightarrow> k \<notin> {EOF, STRING, CHAR_LIT, INTEGER, FLOAT, IDENT}"
  "map_of OPS2 w = Some k \<Longrightarrow> k \<notin> {EOF, STRING, CHAR_LIT, INTEGER, FLOAT, IDENT}"
  "map_of OPS1 w = Some k \<Longrightarrow> k \<notin> {EOF, STRING, CHAR_LIT, INTEGER, FLOAT, IDENT}"
  by (erule map_of_list_all_val, simp add: KEYWORDS_def OPS3_def OPS2_def OPS1_def)+

lemma lex_word_token:
  assumes "lex_word i cs = (t, j, r)"
  shows "tkind t \<notin> {EOF, STRING, CHAR_LIT, INTEGER, FLOAT}" and "tpos t = i"
    and "tvalue t = VText (takeWhile ident_char cs) \<or> (\<exists>b. tvalue t = VBool b)"
  using assms table_kinds(1) [of "takeWhile ident_char cs"]
  by (auto simp: lex_word_def Let_def split: option.splits if_splits)

lemma lex_symbol_token:
  assumes "lex_symbol i cs = Inr (t, j, r)"
  shows "tkind t \<notin> {EOF, STRING, CHAR_LIT, INTEGER, FLOAT, IDENT}" and "tpos t = i"
    and "\<exists>w. tvalue t = VText w"
  using assms table_kinds(2) [of "take 3 cs"] table_kinds(3) [of "take 2 cs"] table_kinds(4) [of "take 1 cs"]
  by (simp_all add: lex_symbol_def split: option.splits) auto

lemma lex_number_token:
  assumes "lex_number i cs = Inr (t, j, r)"
  shows "tkind t \<in> {INTEGER, FLOAT}" and "tpos t = i"
    and "\<exists>n s f. tvalue t = VInt n s \<or> tvalue t = VFloat f s"
  using assms
  by (auto simp: lex_number_def Let_def split: prod.splits if_splits option.splits)

lemma lex_step_token:
  assumes "lex_step i ch cs = Inr (Some t, j, r)"
  shows "tkind t \<noteq> EOF \<and> i \<le> tpos t \<and> tpos t \<le> j"
proof -
  have j: "i < j" using lex_step_advances [OF assms] by (simp add: advances_def)
  from assms show ?thesis
  proof (cases rule: lex_step_tokenE)
    case number
    with j lex_number_token [OF number(2)] show ?thesis by auto
  next
    case word
    with j lex_word_token [OF word(3)] show ?thesis by auto
  next
    case symbol
    with j lex_symbol_token [OF symbol] show ?thesis by auto
  qed (use j in auto)
qed

subsection \<open>The shape of the token list\<close>

definition eof_terminated :: "token list \<Rightarrow> bool" where
  "eof_terminated ts \<longleftrightarrow> ts \<noteq> [] \<and> tkind (last ts) = EOF \<and> EOF \<notin> tkind ` set (butlast ts)"

lemma eof_terminated_Cons:
  "eof_terminated ts \<Longrightarrow> tkind t \<noteq> EOF \<Longrightarrow> eof_terminated (t # ts)"
  by (simp add: eof_terminated_def)

lemma lex_from_eof_terminated: "lex_from i cs = Inr ts \<Longrightarrow> eof_terminated ts"
proof (induction i cs arbitrary: ts rule: lex_from.induct)
  case (2 i ch cs)
  from "2.prems" obtain t j r us where s: "lex_step i ch cs = Inr (t, j, r)"
    and f: "lex_from j r = Inr us" and ts: "ts = (case t of None \<Rightarrow> us | Some t' \<Rightarrow> t' # us)"
    by auto
  from "2.IH" [OF s refl refl f] s show ?case
    unfolding ts by (cases t) (auto intro: eof_terminated_Cons dest: lex_step_token)
qed (simp add: eof_terminated_def)

lemma lex_from_positions:
  "lex_from i cs = Inr ts \<Longrightarrow>
     sorted (map tpos ts) \<and> (\<forall>t \<in> set ts. i \<le> tpos t \<and> tpos t \<le> i + length cs)
     \<and> tpos (last ts) = i + length cs"
proof (induction i cs arbitrary: ts rule: lex_from.induct)
  case (2 i ch cs)
  from "2.prems" obtain t j r us where s: "lex_step i ch cs = Inr (t, j, r)"
    and f: "lex_from j r = Inr us" and ts: "ts = (case t of None \<Rightarrow> us | Some t' \<Rightarrow> t' # us)"
    by auto
  have adv: "i < j" "j + length r = i + Suc (length cs)"
    using lex_step_advances [OF s] by (simp_all add: advances_def)
  have ne: "us \<noteq> []" using lex_from_eof_terminated [OF f] by (simp add: eof_terminated_def)
  note ih = "2.IH" [OF s refl refl f]
  show ?case
  proof (cases t)
    case None
    with ih adv show ?thesis by (auto simp: ts)
  next
    case (Some t')
    with s have "i \<le> tpos t' \<and> tpos t' \<le> j" by (auto dest: lex_step_token)
    moreover from ih adv have "\<forall>u \<in> set us. j \<le> tpos u" "\<forall>u \<in> set us. tpos u \<le> i + Suc (length cs)"
      by auto
    ultimately show ?thesis using ih adv ne Some by (fastforce simp: ts)
  qed
qed simp

subsection \<open>The weight of a token list\<close>

text \<open>
  A token weighs one, and a string with interpolations weighs in addition the text of its
  expressions with the two braces around each: the parser lexes and parses these texts when
  it meets the token.
\<close>

definition part_weight :: "part \<Rightarrow> nat" where
  "part_weight p = (case p of PLit _ \<Rightarrow> 0 | PExpr e \<Rightarrow> length e + 2)"

definition val_weight :: "tokval \<Rightarrow> nat" where
  "val_weight v = (case v of VInterp ps \<Rightarrow> sum_list (map part_weight ps) | _ \<Rightarrow> 0)"

definition token_weight :: "token \<Rightarrow> nat" where
  "token_weight t = Suc (val_weight (tvalue t))"

definition tokens_weight :: "token list \<Rightarrow> nat" where
  "tokens_weight ts = sum_list (map token_weight ts)"

lemma part_weight_simps [simp]: "part_weight (PLit u) = 0" "part_weight (PExpr e) = length e + 2"
  by (simp_all add: part_weight_def)

lemma val_weight_simps [simp]:
  "val_weight (VInterp ps) = sum_list (map part_weight ps)"
  "val_weight (VText w) = 0" "val_weight (VBool b) = 0" "val_weight (VInt n s) = 0"
  "val_weight (VFloat f s) = 0" "val_weight (VChar c) = 0" "val_weight (VStr u) = 0"
  by (simp_all add: val_weight_def)

lemma tokens_weight_simps [simp]:
  "tokens_weight [] = 0" "tokens_weight (t # ts) = token_weight t + tokens_weight ts"
  "tokens_weight (ts @ us) = tokens_weight ts + tokens_weight us"
  by (simp_all add: tokens_weight_def)

lemma token_weight_pos [simp]: "0 < token_weight t"
  by (simp add: token_weight_def)

lemma length_le_weight: "length ts \<le> tokens_weight ts"
  by (induction ts) (auto simp: token_weight_def)

lemma scan_interpolation_expr_weight:
  "scan_interpolation_expr start depth quote acc i cs = Inr (e, j, r) \<Longrightarrow>
     length e + length r + 1 \<le> length acc + length cs"
proof (induction start depth quote acc i cs rule: scan_interpolation_expr.induct)
  case (2 start depth q acc i ch cs)
  show ?case
  proof (cases "ch = CHR 0x5C")
    case True
    with "2.prems" obtain d cs' where cs: "cs = d # cs'"
      by (cases cs) (simp_all add: scan_interpolation_expr.simps)
    with True "2.IH"(1) [OF True cs] "2.prems" show ?thesis
      by (simp add: scan_interpolation_expr.simps)
  next
    case False
    with "2.IH"(2) [OF False] "2.prems" show ?thesis by (simp add: scan_interpolation_expr.simps)
  qed
next
  case (3 start depth acc i ch cs)
  have "length (py_strip (rev acc)) \<le> length acc" using length_py_strip [of "rev acc"] by simp
  with "3.prems" "3.IH" show ?case
    by (simp add: scan_interpolation_expr.simps split: if_split_asm)
qed (simp add: scan_interpolation_expr.simps)

lemma scan_string_loop_weight:
  "scan_string_loop start i chars parts b cs = Inr (v, j, r) \<Longrightarrow>
     val_weight v + length r \<le> sum_list (map part_weight parts) + length cs"
proof (induction start i chars parts b cs rule: scan_string_loop.induct)
  case (2 start i chars parts b ch cs)
  note step = "2.prems" [unfolded scan_string_loop.simps]
  consider "ch = CHR 0x22" | (esc) "ch = CHR 0x5C" | (opn) "ch = CHR ''{''" | (cls) "ch = CHR ''}''"
    | (other) "ch \<notin> {CHR 0x22, CHR 0x5C, CHR ''{'', CHR ''}''}"
    by blast
  then show ?case
  proof cases
    case esc
    with step obtain cp k t where d: "decode_escape i CHR 0x22 (ch # cs) = Inr (cp, k, t)"
      and l: "scan_string_loop start k (cp # chars) parts b t = Inr (v, j, r)" by auto
    with esc "2.IH"(1) [OF _ esc d refl refl l] decode_escape_advances [OF d] show ?thesis
      by (simp add: advances_def)
  next
    case opn
    show ?thesis
    proof (cases "starts_with ''{'' cs")
      case True
      with opn step "2.IH"(2) show ?thesis by (cases cs) auto
    next
      case False
      with opn step obtain e k t where
        d: "scan_interpolation_expr (i + 1) 1 None [] (i + 1) cs = Inr (e, k, t)" by auto
      with opn False step "2.IH"(3) [OF _ _ opn False d refl refl]
        scan_interpolation_expr_weight [OF d] show ?thesis by (auto split: if_split_asm)
    qed
  next
    case cls
    with step "2.IH"(4) show ?thesis by (cases cs) (auto split: if_splits)
  qed (use step "2.IH"(5) in \<open>auto simp: sum_list_rev rev_map [symmetric] split: if_splits\<close>)
qed (simp add: scan_string_loop.simps)

lemma lex_step_weight:
  assumes "lex_step i ch cs = Inr (Some t, j, r)"
  shows "token_weight t + length r \<le> Suc (length cs)"
proof -
  have r: "length r < Suc (length cs)"
    using lex_step_advances [OF assms] by (simp add: advances_def)
  from assms show ?thesis
  proof (cases rule: lex_step_tokenE)
    case number
    with r lex_number_token(3) [OF number(2)] show ?thesis by (auto simp: token_weight_def)
  next
    case (str v)
    then have "val_weight v + length r \<le> length cs"
      using scan_string_loop_weight [of i "Suc i" "[]" "[]" False cs v j r] by (simp add: scan_string_def)
    with str show ?thesis by (simp add: token_weight_def)
  next
    case word
    with r lex_word_token(3) [OF word(3)] show ?thesis by (auto simp: token_weight_def)
  next
    case symbol
    with r lex_symbol_token(3) [OF symbol] show ?thesis by (auto simp: token_weight_def)
  qed (use r in \<open>auto simp: token_weight_def\<close>)
qed

lemma lex_from_weight: "lex_from i cs = Inr ts \<Longrightarrow> tokens_weight ts \<le> Suc (length cs)"
proof (induction i cs arbitrary: ts rule: lex_from.induct)
  case (2 i ch cs)
  from "2.prems" obtain t j r us where s: "lex_step i ch cs = Inr (t, j, r)"
    and f: "lex_from j r = Inr us" and ts: "ts = (case t of None \<Rightarrow> us | Some t' \<Rightarrow> t' # us)"
    by auto
  have "length r < Suc (length cs)" using lex_step_advances [OF s] by (simp add: advances_def)
  with "2.IH" [OF s refl refl f] s show ?case
    unfolding ts by (cases t) (auto dest: lex_step_weight)
qed (simp add: token_weight_def)

text \<open>The client-facing facts about \<^const>\<open>lex\<close>, from the ones about the loop.\<close>

lemma lex_eof_terminated: "lex source = Inr ts \<Longrightarrow> eof_terminated ts"
  unfolding lex_def by (rule lex_from_eof_terminated)

lemma lex_weight: "lex source = Inr ts \<Longrightarrow> tokens_weight ts \<le> Suc (length source)"
  unfolding lex_def by (rule lex_from_weight)

subsection \<open>Unicode scalar values\<close>

definition scalar :: "nat \<Rightarrow> bool" where
  "scalar n \<longleftrightarrow> n \<le> 0x10FFFF \<and> \<not> (0xD800 \<le> n \<and> n \<le> 0xDFFF)"

definition part_scalar :: "part \<Rightarrow> bool" where
  "part_scalar p = (case p of PLit u \<Rightarrow> list_all scalar u | PExpr e \<Rightarrow> True)"

lemma part_scalar_simps [simp]: "part_scalar (PLit u) = list_all scalar u" "part_scalar (PExpr e)"
  by (simp_all add: part_scalar_def)

fun val_scalar :: "tokval \<Rightarrow> bool" where
  "val_scalar (VStr u) = list_all scalar u"
| "val_scalar (VChar c) = scalar c"
| "val_scalar (VInterp ps) = list_all part_scalar ps"
| "val_scalar _ = True"

lemma scalar_code [simp]: "scalar (code c)"
  using nat_of_char_less_256 [of c] unfolding scalar_def by linarith

lemma scalar_numeral [simp]: "(numeral k :: nat) < 256 \<Longrightarrow> scalar (numeral k)"
  unfolding scalar_def by linarith

lemma decode_unicode_scalar: "decode_unicode i cs = Inr (cp, j, r) \<Longrightarrow> scalar cp"
  by (auto simp: decode_unicode_def scalar_def Let_def nat_le_iff le_nat_iff
      split: if_split_asm option.split_asm)

lemma decode_escape_scalar:
  assumes "decode_escape i quote cs = Inr (cp, j, r)"
  shows "scalar cp"
proof -
  obtain b ec t where cs: "cs = b # ec # t"
    using assms by (auto simp: decode_escape_def split: list.splits)
  from assms consider "cp \<in> {10, 9, 13, 92, 34, 39}" | "cp = code quote" | "cp = code ec"
    | "decode_unicode i (tl t) = Inr (cp, j, r)"
    unfolding cs by (auto simp: decode_escape_def split: if_split_asm)
  then show ?thesis by cases (auto dest: decode_unicode_scalar)
qed

lemma scan_string_loop_scalar:
  "scan_string_loop start i chars parts b cs = Inr (v, j, r) \<Longrightarrow>
     list_all scalar chars \<Longrightarrow> list_all part_scalar parts \<Longrightarrow> val_scalar v"
proof (induction start i chars parts b cs rule: scan_string_loop.induct)
  case (2 start i chars parts b ch cs)
  note step = "2.prems"(1) [unfolded scan_string_loop.simps]
  consider "ch = CHR 0x22" | (esc) "ch = CHR 0x5C" | (opn) "ch = CHR ''{''" | (cls) "ch = CHR ''}''"
    | (other) "ch \<notin> {CHR 0x22, CHR 0x5C, CHR ''{'', CHR ''}''}"
    by blast
  then show ?case
  proof cases
    case esc
    with step obtain cp k t where d: "decode_escape i CHR 0x22 (ch # cs) = Inr (cp, k, t)"
      and l: "scan_string_loop start k (cp # chars) parts b t = Inr (v, j, r)" by auto
    with esc "2.IH"(1) [OF _ esc d refl refl l] decode_escape_scalar [OF d] "2.prems"(2,3)
    show ?thesis by simp
  next
    case opn
    show ?thesis
    proof (cases "starts_with ''{'' cs")
      case True
      with opn step "2.IH"(2) "2.prems"(2,3) show ?thesis by simp
    next
      case False
      with opn step obtain e k t where
        d: "scan_interpolation_expr (i + 1) 1 None [] (i + 1) cs = Inr (e, k, t)" by auto
      with opn False step "2.IH"(3) [OF _ _ opn False d refl refl] "2.prems"(2,3)
      show ?thesis by (auto split: if_split_asm)
    qed
  next
    case cls
    with step "2.IH"(4) "2.prems"(2,3) show ?thesis by (auto split: if_splits)
  qed (use step "2.IH"(5) "2.prems"(2,3) in \<open>auto split: if_splits\<close>)
qed (simp add: scan_string_loop.simps)

lemma scan_char_scalar: "scan_char i cs = Inr (v, j, r) \<Longrightarrow> scalar v"
  by (drule scan_charD) (auto split: if_split_asm dest: decode_escape_scalar)

lemma lex_step_scalar:
  assumes "lex_step i ch cs = Inr (Some t, j, r)"
  shows "val_scalar (tvalue t)"
  using assms
proof (cases rule: lex_step_tokenE)
  case number
  with lex_number_token(3) [OF number(2)] show ?thesis by auto
next
  case (str v)
  then show ?thesis
    using scan_string_loop_scalar [of i "Suc i" "[]" "[]" False cs v j r] by (simp add: scan_string_def)
next
  case word
  with lex_word_token(3) [OF word(3)] show ?thesis by auto
next
  case symbol
  with lex_symbol_token(3) [OF symbol] show ?thesis by auto
qed (auto dest: scan_char_scalar)

lemma lex_from_scalar: "lex_from i cs = Inr ts \<Longrightarrow> t \<in> set ts \<Longrightarrow> val_scalar (tvalue t)"
proof (induction i cs arbitrary: ts rule: lex_from.induct)
  case (2 i ch cs)
  from "2.prems"(1) obtain u j r us where s: "lex_step i ch cs = Inr (u, j, r)"
    and f: "lex_from j r = Inr us" and ts: "ts = (case u of None \<Rightarrow> us | Some t' \<Rightarrow> t' # us)"
    by auto
  from "2.IH" [OF s refl refl f] s "2.prems"(2) show ?case
    unfolding ts by (cases u) (auto dest: lex_step_scalar)
qed simp

subsection \<open>Errors\<close>

definition lex_error :: "exn \<Rightarrow> bool" where
  "lex_error e \<longleftrightarrow> e = ValueError \<or> e = OverflowError \<or> (\<exists>m. e = SyntaxError m)"

lemma lex_error_simps [simp]: "lex_error ValueError" "lex_error OverflowError" "lex_error (SyntaxError m)" "lex_error (at_pos m i)"
  by (simp_all add: lex_error_def at_pos_def)

lemma at_pos_error: "at_pos m i = e \<Longrightarrow> lex_error e"
  by auto

lemma decode_unicode_error: "decode_unicode i cs = Inl e \<Longrightarrow> lex_error e"
  by (simp add: decode_unicode_def Let_def split: if_split_asm option.split_asm) (auto simp: at_pos_error)

lemma decode_escape_error:
  assumes "decode_escape i quote cs = Inl e"
  shows "lex_error e"
proof (cases "\<exists>b ec t. cs = b # ec # t")
  case True
  then obtain b ec t where cs: "cs = b # ec # t" by blast
  from assms have "decode_unicode i (tl t) = Inl e"
    unfolding decode_escape_def cs by (simp split: if_split_asm)
  then show ?thesis by (rule decode_unicode_error)
next
  case False
  with assms show ?thesis
    by (auto simp: decode_escape_def split: list.split_asm)
qed

lemma scan_interpolation_expr_error:
  "scan_interpolation_expr start depth quote acc i cs = Inl e \<Longrightarrow> lex_error e"
proof (induction start depth quote acc i cs rule: scan_interpolation_expr.induct)
  case (2 start depth q acc i ch cs)
  show ?case
  proof (cases "ch = CHR 0x5C")
    case True
    with "2.prems" "2.IH"(1) [OF True] show ?thesis
      by (cases cs) (auto simp: scan_interpolation_expr.simps)
  next
    case False
    with "2.IH"(2) [OF False] "2.prems" show ?thesis by (simp add: scan_interpolation_expr.simps)
  qed
next
  case (3 start depth acc i ch cs)
  from "3.prems" "3.IH" show ?case
    by (simp add: scan_interpolation_expr.simps split: if_split_asm) (simp_all add: at_pos_error)
qed (auto simp: scan_interpolation_expr.simps)

lemma scan_string_loop_error:
  "scan_string_loop start i chars parts b cs = Inl e \<Longrightarrow> lex_error e"
proof (induction start i chars parts b cs rule: scan_string_loop.induct)
  case (2 start i chars parts b ch cs)
  note step = "2.prems" [unfolded scan_string_loop.simps]
  consider "ch = CHR 0x22" | (esc) "ch = CHR 0x5C" | (opn) "ch = CHR ''{''" | (cls) "ch = CHR ''}''"
    | (other) "ch \<notin> {CHR 0x22, CHR 0x5C, CHR ''{'', CHR ''}''}"
    by blast
  then show ?case
  proof cases
    case esc
    show ?thesis
    proof (cases "decode_escape i CHR 0x22 (ch # cs)")
      case (Inl e')
      with esc step show ?thesis by (simp add: decode_escape_error)
    next
      case (Inr x)
      obtain cp k t where x: "x = (cp, k, t)" by (cases x) auto
      with esc step Inr "2.IH"(1) [OF _ esc Inr x [symmetric] refl] show ?thesis by simp
    qed
  next
    case opn
    show ?thesis
    proof (cases "starts_with ''{'' cs")
      case True
      with opn step "2.IH"(2) show ?thesis by simp
    next
      case False
      show ?thesis
      proof (cases "scan_interpolation_expr (i + 1) 1 None [] (i + 1) cs")
        case (Inl e')
        with opn False step show ?thesis by (simp add: scan_interpolation_expr_error)
      next
        case (Inr x)
        obtain a k t where x: "x = (a, k, t)" by (cases x) auto
        with opn False step Inr "2.IH"(3) [OF _ _ opn False Inr x [symmetric] refl] show ?thesis by simp
      qed
    qed
  next
    case cls
    with step "2.IH"(4) show ?thesis by (auto split: if_splits)
  qed (use step "2.IH"(5) in \<open>auto split: if_splits\<close>)
qed (auto simp: scan_string_loop.simps)

lemma lex_number_error: "lex_number i cs = Inl e \<Longrightarrow> lex_error e"
  by (cases "number_text cs") (auto simp: lex_number_def Let_def split: if_split_asm option.split_asm)

lemma lex_symbol_error: "lex_symbol i cs = Inl e \<Longrightarrow> lex_error e"
  by (auto simp: lex_symbol_def split: option.split_asm)

lemma scan_char_error:
  assumes "scan_char i cs = Inl e"
  shows "lex_error e"
proof (cases "tl cs")
  case Nil
  with assms show ?thesis by (auto simp: scan_char_def)
next
  case (Cons c t)
  let ?e = "if c = CHR 0x5C then decode_escape (i + 1) CHR 0x27 (c # t) else Inr (code c, i + 2, t)"
  show ?thesis
  proof (cases ?e)
    case (Inl e')
    then have "lex_error e'" by (simp add: decode_escape_error split: if_split_asm)
    with Inl Cons assms show ?thesis by (auto simp: scan_char_def split: if_split_asm)
  next
    case (Inr x)
    obtain w k r' where "x = (w, k, r')" by (cases x) auto
    with Inr Cons assms show ?thesis
      by (cases r') (auto simp: scan_char_def split: if_split_asm)
  qed
qed

lemma lex_step_error:
  assumes "lex_step i ch cs = Inl e"
  shows "lex_error e"
proof -
  from assms consider "lex_number i (ch # cs) = Inl e" | "scan_string i (ch # cs) = Inl e"
    | "scan_char i (ch # cs) = Inl e" | "lex_symbol i (ch # cs) = Inl e"
    unfolding lex_step_def
    by (simp add: rbind_eq_Inl split: if_split_asm prod.split_asm)
  then show ?thesis
    by cases (auto simp: scan_string_def
        dest: scan_string_loop_error lex_number_error lex_symbol_error scan_char_error)
qed

lemma lex_from_error: "lex_from i cs = Inl e \<Longrightarrow> lex_error e"
proof (induction i cs rule: lex_from.induct)
  case (2 i ch cs)
  then show ?case by (auto simp: rbind_eq_Inl dest: lex_step_error)
qed simp

subsection \<open>Properties\<close>

text \<open>
  C1: Whatever the source text, a successful \<open>lex\<close> returns the tokens of the text followed by
  exactly one \<open>EOF\<close>, which carries the length of the text; no other token is an \<open>EOF\<close>, the
  indices the tokens carry never decrease, and there are at most as many tokens as characters,
  plus one.
\<close>

theorem lex_shape:
  assumes "lex source = Inr ts"
  shows "tkind (last ts) = EOF \<and> tpos (last ts) = length source \<and> EOF \<notin> tkind ` set (butlast ts)
    \<and> sorted (map tpos ts) \<and> 0 < length ts \<and> length ts \<le> Suc (length source)"
  using lex_eof_terminated [OF assms] lex_from_positions [of 0 source ts] lex_weight [OF assms]
    length_le_weight [of ts] assms
  by (auto simp: eof_terminated_def lex_def)

lemmas lex_eval = lex_def lex_step_def lex_word_def lex_symbol_def lex_number_def number_text_def
  py_int10_def dec_val_def digit_val_def py_char_defs ident_char_def KEYWORDS_def OPS1_def
  OPS2_def OPS3_def Let_def

theorem lex_shape_witness:
  "lex ''x=1'' = Inr [Token IDENT (VText ''x'') 0, Token (Op EQ) (VText ''='') 1,
     Token INTEGER (VInt 1 None) 2, Token EOF (VText '''') 3] \<and>
   sorted (map tpos [Token IDENT (VText ''x'') 0, Token (Op EQ) (VText ''='') 1,
     Token INTEGER (VInt 1 None) 2, Token EOF (VText '''') 3])"
proof -
  have "lex ''x=1'' = Inr [Token IDENT (VText ''x'') 0, Token (Op EQ) (VText ''='') 1,
     Token INTEGER (VInt 1 None) 2, Token EOF (VText '''') 3]"
    by (simp add: lex_eval)
  from this lex_shape [OF this] show ?thesis by blast
qed

text \<open>
  C2: Every code point that \<open>lex\<close> puts into a string or character literal, from the text or from
  an escape, is a Unicode scalar value: at most 0x10FFFF and no surrogate.
\<close>

theorem lex_scalar:
  assumes "lex source = Inr ts" and "t \<in> set ts"
  shows "val_scalar (tvalue t)"
  using lex_from_scalar [of 0 source ts t] assms by (simp add: lex_def)

theorem lex_scalar_witness: "val_scalar (VChar 0x1F600)"
proof -
  let ?src = "CHR 0x27 # CHR 0x5C # ''u{1F600}'' @ [CHR 0x27]"
  have l: "lex ?src = Inr [Token CHAR_LIT (VChar 0x1F600) 11, Token EOF (VText '''') 11]"
    by (simp add: lex_def lex_step_def scan_char_def decode_escape_def decode_unicode_def py_int16_def
        hexval_def int_space_def py_char_defs Let_def)
  show ?thesis using lex_scalar [OF l, of "Token CHAR_LIT (VChar 0x1F600) 11"] by simp
qed

text \<open>
  C4: The only exceptions \<open>lex\<close> raises are \<open>SyntaxError\<close>, which reports a position, and
  Python's bare \<open>ValueError\<close> and \<open>OverflowError\<close>. These do happen: \<open>ValueError\<close> on a negative code point in an
  escape and on a superscript digit, which \<open>isdigit\<close> accepts and \<open>int\<close> does not, \<open>OverflowError\<close> on a
  code point below \<open>- 2 ^ 31\<close>, which \<open>chr\<close> cannot take: texts that are not reported as syntax errors.
\<close>

theorem lex_errors:
  "(\<forall>source e. lex source = Inl e \<longrightarrow> e = ValueError \<or> e = OverflowError \<or> (\<exists>m. e = SyntaxError m))
   \<and> lex (CHR 0x22 # CHR 0x5C # ''u{-80000001}'' @ [CHR 0x22]) = Inl OverflowError
   \<and> lex (CHR 0x22 # CHR 0x5C # ''u{-1}'' @ [CHR 0x22]) = Inl ValueError
   \<and> lex (''let x = '' @ [CHR 0xB2]) = Inl ValueError"
proof (intro conjI allI impI)
  show "e = ValueError \<or> e = OverflowError \<or> (\<exists>m. e = SyntaxError m)" if "lex source = Inl e" for source e
    using lex_from_error [of 0 source e] that by (simp add: lex_def lex_error_def)
  show "lex (CHR 0x22 # CHR 0x5C # ''u{-1}'' @ [CHR 0x22]) = Inl ValueError"
    "lex (CHR 0x22 # CHR 0x5C # ''u{-80000001}'' @ [CHR 0x22]) = Inl OverflowError"
    by (simp_all add: lex_def lex_step_def scan_string_def scan_string_loop.simps decode_escape_def
        decode_unicode_def py_int16_def hexval_def int_space_def py_char_defs Let_def)
  show "lex (''let x = '' @ [CHR 0xB2]) = Inl ValueError"
    by (simp add: lex_def lex_step_def lex_word_def lex_symbol_def lex_number_def number_text_def
        py_int10_def py_char_defs ident_char_def KEYWORDS_def OPS1_def OPS2_def OPS3_def Let_def)
qed

theorem lex_errors_witness:
  "lex [CHR 0x40] = Inl (SyntaxError (''Unexpected character '' @ [CHR 0x40] @ '' at position 0''))
   \<and> (SyntaxError (''Unexpected character '' @ [CHR 0x40] @ '' at position 0'') = ValueError
      \<or> SyntaxError (''Unexpected character '' @ [CHR 0x40] @ '' at position 0'') = OverflowError
      \<or> (\<exists>m. SyntaxError (''Unexpected character '' @ [CHR 0x40] @ '' at position 0'') = SyntaxError m))"
proof -
  have "lex [CHR 0x40] = Inl (SyntaxError (''Unexpected character '' @ [CHR 0x40] @ '' at position 0''))"
    by (simp add: lex_def lex_step_def lex_symbol_def at_pos_def show_nat.simps
        py_char_defs OPS1_def OPS2_def OPS3_def)
  with lex_errors show ?thesis by blast
qed

end
