(* ===== verification/LexRoundTrip.thy ===== *)
theory LexRoundTrip
  imports LexerProps
begin

text \<open>
  Writing tokens out and reading them back. \<open>render\<close> writes each token followed by a space;
  a character of a literal is written as its \<open>\u{...}\<close> escape. On every list of plain tokens
  (all but strings with interpolations) \<^const>\<open>lex\<close> returns the same kinds and values.
\<close>

subsection \<open>Hexadecimal text\<close>

definition hex_char :: "nat \<Rightarrow> char" where
  "hex_char d = char_of (if d < 10 then 48 + d else 87 + d)"

fun show_hex :: "nat \<Rightarrow> string" where
  "show_hex n = (if n < 16 then [hex_char n] else show_hex (n div 16) @ [hex_char (n mod 16)])"

declare show_hex.simps [simp del]

lemma code_hex_char: "d < 16 \<Longrightarrow> code (hex_char d) = (if d < 10 then 48 + d else 87 + d)"
  by (simp add: hex_char_def take_bit_eq_mod)

lemma hexval_hex_char [simp]: "d < 16 \<Longrightarrow> hexval (hex_char d) = Some d"
  by (auto simp: hexval_def ascii_digit_def code_hex_char)

definition hex_text :: "string \<Rightarrow> bool" where
  "hex_text s \<longleftrightarrow> s \<noteq> [] \<and> list_all (\<lambda>c. 48 \<le> code c \<and> code c \<le> 57 \<or> 97 \<le> code c \<and> code c \<le> 102) s"

lemma hex_text_show_hex: "hex_text (show_hex n)"
proof (induction n rule: show_hex.induct)
  case (1 n)
  have "hex_text [hex_char d]" if "d < 16" for d
    using that by (simp add: hex_text_def code_hex_char)
  with 1 show ?case
    by (cases "n < 16") (simp_all add: show_hex.simps [of n] hex_text_def)
qed

lemma hex_digits_append:
  "hex_text s \<Longrightarrow> hex_digits b acc (s @ t) =
     (case hex_digits True acc s of None \<Rightarrow> None | Some v \<Rightarrow> hex_digits False v t)"
proof (induction s arbitrary: b acc)
  case (Cons c s)
  then have c: "c \<noteq> CHR ''_''" by (auto simp: hex_text_def)
  obtain d where "hexval c = Some d"
    using Cons.prems by (auto simp: hex_text_def hexval_def ascii_digit_def)
  with c Cons show ?case
    by (cases s) (auto simp: hex_text_def)
qed (simp add: hex_text_def)

lemma hex_digits_show_hex: "hex_digits True 0 (show_hex n) = Some n"
proof (induction n rule: show_hex.induct)
  case (1 n)
  have ne: "hex_char d \<noteq> CHR ''_''" if "d < 16" for d
    using code_hex_char [OF that] that by (auto split: if_splits)
  show ?case
  proof (cases "n < 16")
    case True
    then show ?thesis by (simp add: show_hex.simps [of n] ne)
  next
    case False
    with 1 ne [of "n mod 16"] show ?thesis
      by (simp add: show_hex.simps [of n] hex_digits_append [OF hex_text_show_hex])
  qed
qed

lemma hex_text_no_space:
  assumes "hex_text s"
  shows "dropWhile int_space s = s" and "dropWhile int_space (rev s) = rev s"
proof -
  have "\<not> int_space c" if "c \<in> set s" for c
    using assms that by (auto simp: hex_text_def int_space_def list_all_iff)
  then show "dropWhile int_space s = s" "dropWhile int_space (rev s) = rev s"
    by (auto simp: dropWhile_eq_self_iff hd_rev)
qed

lemma py_int16_show_hex [simp]: "py_int16 (show_hex n) = Some (int n)"
proof -
  let ?s = "show_hex n"
  have h: "hex_text ?s" by (rule hex_text_show_hex)
  obtain c s where s: "?s = c # s" using h by (cases ?s) (auto simp: hex_text_def)
  have nd: "d \<notin> {CHR ''-'', CHR ''+'', CHR ''x'', CHR ''X''}" if "d \<in> set ?s" for d
    using h that by (auto simp: hex_text_def list_all_iff)
  have "c \<notin> {CHR ''-'', CHR ''+''}" "s = [] \<or> hd s \<notin> {CHR ''x'', CHR ''X''}"
    using nd [of c] nd [of "hd s"] by (cases s; auto simp: s)+
  then show ?thesis
    using hex_text_no_space [OF h] hex_digits_show_hex [of n]
    unfolding py_int16_def s by (cases s) (auto simp: Let_def)
qed

subsection \<open>Rendering\<close>

definition esc :: "nat \<Rightarrow> string" where
  "esc cp = CHR 0x5C # CHR ''u'' # CHR ''{'' # show_hex cp @ ''}''"

fun render_val :: "tokval \<Rightarrow> string" where
  "render_val (VInt n s) = show_nat n @ (case s of None \<Rightarrow> '''' | Some x \<Rightarrow> x)"
| "render_val (VFloat f s) = f @ (case s of None \<Rightarrow> '''' | Some x \<Rightarrow> x)"
| "render_val (VStr u) = CHR 0x22 # concat (map esc u) @ [CHR 0x22]"
| "render_val (VChar c) = CHR 0x27 # esc c @ [CHR 0x27]"
| "render_val (VBool b) = (if b then ''true'' else ''false'')"
| "render_val (VText w) = w"
| "render_val (VInterp ps) = ''''"

fun render :: "(tokkind \<times> tokval) list \<Rightarrow> string" where
  "render [] = ''''"
| "render ((k, v) # ts) = render_val v @ CHR '' '' # render ts"

definition ident_text :: "string \<Rightarrow> bool" where
  "ident_text w \<longleftrightarrow> w \<noteq> [] \<and> (py_isalpha (hd w) \<or> hd w = CHR ''_'') \<and> list_all ident_char w"

text \<open>The pairs of kind and value that \<^const>\<open>lex\<close> can produce, interpolations left out.\<close>

fun plain :: "tokkind \<Rightarrow> tokval \<Rightarrow> bool" where
  "plain k (VInt n s) = (k = INTEGER \<and> length (show_nat n) \<le> 4300
     \<and> (case s of None \<Rightarrow> True | Some x \<Rightarrow> x \<in> set INTEGER_SUFFIXES))"
| "plain k (VFloat f s) = (k = FLOAT \<and> f \<noteq> [] \<and> py_isdigit (hd f) \<and> number_text f = (f, True, True, '''')
     \<and> (case s of None \<Rightarrow> True | Some x \<Rightarrow> x \<in> set FLOAT_SUFFIXES))"
| "plain k (VStr u) = (k = STRING \<and> list_all scalar u)"
| "plain k (VChar c) = (k = CHAR_LIT \<and> scalar c)"
| "plain k (VBool b) = (k = BOOL)"
| "plain k (VText w) = (k = IDENT \<and> ident_text w \<and> map_of KEYWORDS w = None
     \<or> map_of KEYWORDS w = Some k \<and> k \<noteq> BOOL
     \<or> map_of (OPS1 @ OPS2 @ OPS3) w = Some k)"
| "plain k (VInterp ps) = False"

text \<open>One token is read back from its text when a space follows.\<close>

definition reads_back :: "tokkind \<Rightarrow> tokval \<Rightarrow> bool" where
  "reads_back k v \<longleftrightarrow> (\<exists>ch cs. render_val v = ch # cs \<and>
     (\<forall>i r. \<exists>p j. lex_step i ch (cs @ CHR '' '' # r) = Inr (Some (Token k v p), j, CHR '' '' # r)))"

lemma takeWhile_word: "list_all ident_char w \<Longrightarrow> takeWhile ident_char (w @ CHR '' '' # r) = w"
  by (induction w) (auto simp: ident_char_def py_char_defs)

lemma dropWhile_word: "list_all ident_char w \<Longrightarrow> dropWhile ident_char (w @ CHR '' '' # r) = CHR '' '' # r"
  by (induction w) (auto simp: ident_char_def py_char_defs)

lemma ident_start:
  "py_isalpha c \<or> c = CHR ''_'' \<Longrightarrow> \<not> py_isdigit c \<and> c \<notin> {CHR '' '', CHR ''#'', CHR 0x22, CHR 0x27}
     \<and> code c \<notin> {9, 10, 13} \<and> ident_char c"
  by (auto simp: ident_char_def py_char_defs)

lemma lex_step_word:
  assumes "ident_text (c # w)"
  shows "lex_step i c (w @ CHR '' '' # r) =
    Inr (Some (Token (case map_of KEYWORDS (c # w) of Some k \<Rightarrow> k | None \<Rightarrow> IDENT)
      (if map_of KEYWORDS (c # w) = Some BOOL then VBool (c # w = ''true'') else VText (c # w)) i),
      i + length (c # w), CHR '' '' # r)"
  using assms ident_start [of c] takeWhile_word [of "c # w" r] dropWhile_word [of "c # w" r]
  by (auto simp: ident_text_def lex_step_def lex_word_def Let_def split: option.splits)

lemma keyword_ident_text: "map_of KEYWORDS w = Some k \<Longrightarrow> ident_text w"
  by (erule map_of_list_all) (simp add: KEYWORDS_def ident_text_def ident_char_def py_char_defs)

lemma reads_back_ident: "ident_text w \<Longrightarrow> map_of KEYWORDS w = None \<Longrightarrow> reads_back IDENT (VText w)"
  by (cases w) (auto simp: reads_back_def lex_step_word, simp add: ident_text_def)

lemma reads_back_keyword:
  "map_of KEYWORDS w = Some k \<Longrightarrow> k \<noteq> BOOL \<Longrightarrow> reads_back k (VText w)"
  using keyword_ident_text [of w k]
  by (cases w) (auto simp: reads_back_def lex_step_word, simp add: ident_text_def)

lemma reads_back_bool: "reads_back BOOL (VBool b)"
proof -
  have "map_of KEYWORDS ''true'' = Some BOOL" "map_of KEYWORDS ''false'' = Some BOOL"
    by (simp_all add: KEYWORDS_def)
  then show ?thesis
    using keyword_ident_text [of "''true''"] keyword_ident_text [of "''false''"]
      lex_step_word [of "CHR ''t''" "''rue''"] lex_step_word [of "CHR ''f''" "''alse''"]
    by (cases b) (auto simp: reads_back_def)
qed

lemma dropWhile_stop: "list_all P xs \<Longrightarrow> \<not> P y \<Longrightarrow>
    takeWhile P (xs @ y # ys) = xs \<and> dropWhile P (xs @ y # ys) = y # ys"
  by (induction xs) auto

lemma dropWhile_stop_append: "list_all P xs \<Longrightarrow> zs \<noteq> [] \<Longrightarrow> \<not> P (hd zs) \<Longrightarrow>
    takeWhile P (xs @ zs) = xs \<and> dropWhile P (xs @ zs) = zs"
  by (cases zs) (auto simp: dropWhile_stop)

lemma suffix_text:
  "x \<in> set INTEGER_SUFFIXES \<Longrightarrow> x \<noteq> [] \<and> list_all ident_char x \<and> \<not> py_isdigit (hd x) \<and> hd x \<noteq> CHR ''.''"
  "x \<in> set FLOAT_SUFFIXES \<Longrightarrow> x \<noteq> [] \<and> list_all ident_char x \<and> \<not> py_isdigit (hd x) \<and> hd x \<noteq> CHR ''.''"
  by (auto simp: INTEGER_SUFFIXES_def FLOAT_SUFFIXES_def ident_char_def py_char_defs)

lemma lex_step_number:
  "py_isdigit c \<Longrightarrow> lex_number i (c # cs) = Inr (t, j, r) \<Longrightarrow> lex_step i c cs = Inr (Some t, j, r)"
  by (auto simp: lex_step_def py_char_defs)

lemma list_all_digits: "list_all py_isdigit (show_nat n)" "list_all ascii_digit (show_nat n)"
  using show_nat_digits [of n] by (auto simp: list_all_iff py_isdigit_def)

lemma reads_back_integer:
  assumes "length (show_nat n) \<le> 4300" and "case s of None \<Rightarrow> True | Some x \<Rightarrow> x \<in> set INTEGER_SUFFIXES"
  shows "reads_back INTEGER (VInt n s)"
proof -
  let ?x = "case s of None \<Rightarrow> '''' | Some x \<Rightarrow> x"
  obtain c cs where n: "show_nat n = c # cs" by (cases "show_nat n") auto
  have c: "py_isdigit c" using list_all_digits(1) [of n] n by simp
  have x: "list_all ident_char ?x" "?x \<noteq> [] \<Longrightarrow> ?x \<in> set INTEGER_SUFFIXES"
    "s = (if ?x = [] then None else Some ?x)"
    using assms(2) suffix_text(1) by (auto split: option.splits)
  {
    fix r :: string
    let ?z = "?x @ CHR '' '' # r"
    have z: "?z \<noteq> []" "\<not> py_isdigit (hd ?z)" "hd ?z \<noteq> CHR ''.''"
      using assms(2) suffix_text(1) by (auto simp: py_char_defs split: option.splits)
    then have "\<not> starts_with ''.'' ?z" by (cases ?z) auto
    then have "number_text (show_nat n @ ?z) = (show_nat n, False, False, ?z)"
      using dropWhile_stop_append [OF list_all_digits(1) z(1,2)] by (simp add: number_text_def Let_def)
    then have "lex_number i (show_nat n @ ?z) = Inr (Token INTEGER (VInt n s) i,
        i + length (show_nat n) + length ?x, CHR '' '' # r)" for i
      using x assms(1) takeWhile_word [OF x(1)] dropWhile_word [OF x(1)] list_all_digits(2) [of n]
      by (auto simp: lex_number_def Let_def py_int10_def)
    then have "\<exists>p j. lex_step i c (cs @ ?z) = Inr (Some (Token INTEGER (VInt n s) p), j, CHR '' '' # r)" for i
      using lex_step_number [OF c] unfolding n by fastforce
  }
  then show ?thesis by (auto simp: reads_back_def n)
qed

lemma number_text_stop:
  assumes "number_text f = (f, True, True, '''')" "z \<noteq> []" "\<not> py_isdigit (hd z)"
  shows "number_text (f @ z) = (f, True, True, z)"
proof -
  let ?ds = "takeWhile py_isdigit f" and ?r = "dropWhile py_isdigit f"
  have f: "f = ?ds @ ?r" by simp
  from assms(1) have dot: "starts_with ''.'' ?r" "\<not> starts_with ''..'' ?r"
    and e: "f = ?ds @ CHR ''.'' # takeWhile py_isdigit (tl ?r)" "takeWhile py_isdigit (tl ?r) \<noteq> []"
    by (auto simp: number_text_def Let_def split: if_split_asm)
  from dot(1) obtain t where t: "?r = CHR ''.'' # t" by (auto simp: starts_with_conv)
  have fe: "f = ?ds @ CHR ''.'' # t" using f t by simp
  have "f = ?ds @ CHR ''.'' # takeWhile py_isdigit t" using e(1) t by (metis list.sel(3))
  with fe have tw: "takeWhile py_isdigit t = t" by (metis append_same_eq list.inject same_append_eq)
  then have all: "list_all py_isdigit t" "t \<noteq> []"
    using e(2) t by (simp add: takeWhile_eq_all_conv list_all_iff) (use e(2) t in auto)
  have ds: "list_all py_isdigit ?ds" by (auto simp: list_all_iff dest: set_takeWhileD)
  have nd: "\<not> py_isdigit CHR ''.''" by (simp add: py_char_defs)
  have "number_text ((?ds @ CHR ''.'' # t) @ z) = (?ds @ CHR ''.'' # t, True, True, z)"
    using dropWhile_stop [OF ds nd, of "t @ z"] dropWhile_stop_append [OF all(1) assms(2,3)]
      all dot(2) t
    by (cases t) (auto simp: number_text_def Let_def)
  with fe show ?thesis by simp
qed

lemma reads_back_float:
  assumes "f \<noteq> []" "py_isdigit (hd f)" "number_text f = (f, True, True, '''')"
    and "case s of None \<Rightarrow> True | Some x \<Rightarrow> x \<in> set FLOAT_SUFFIXES"
  shows "reads_back FLOAT (VFloat f s)"
proof -
  let ?x = "case s of None \<Rightarrow> '''' | Some x \<Rightarrow> x"
  obtain c cs where f: "f = c # cs" using assms(1) by (cases f) auto
  have c: "py_isdigit c" using assms(2) f by simp
  have x: "list_all ident_char ?x" "?x \<noteq> [] \<Longrightarrow> ?x \<in> set FLOAT_SUFFIXES"
    "s = (if ?x = [] then None else Some ?x)"
    using assms(4) suffix_text(2) by (auto split: option.splits)
  {
    fix r :: string
    let ?z = "?x @ CHR '' '' # r"
    have z: "?z \<noteq> []" "\<not> py_isdigit (hd ?z)"
      using assms(4) suffix_text(2) by (auto simp: py_char_defs split: option.splits)
    have "lex_number i (f @ ?z) = Inr (Token FLOAT (VFloat f s) i,
        i + length f + length ?x, CHR '' '' # r)" for i
      using x takeWhile_word [OF x(1)] dropWhile_word [OF x(1)] number_text_stop [OF assms(3) z]
      by (auto simp: lex_number_def Let_def)
    then have "\<exists>p j. lex_step i c (cs @ ?z) = Inr (Some (Token FLOAT (VFloat f s) p), j, CHR '' '' # r)" for i
      using lex_step_number [OF c] unfolding f by fastforce
  }
  then show ?thesis by (auto simp: reads_back_def f)
qed

subsection \<open>Literals and operators\<close>

lemma show_hex_chars: "c \<in> set (show_hex n) \<Longrightarrow> c \<noteq> CHR ''}''"
  using hex_text_show_hex [of n] by (auto simp: hex_text_def list_all_iff)

lemma decode_unicode_show_hex:
  assumes "scalar n"
  shows "decode_unicode i (show_hex n @ CHR ''}'' # r) = Inr (n, i + 4 + length (show_hex n), r)"
proof -
  have d: "list_all (\<lambda>c. c \<noteq> CHR ''}'') (show_hex n)"
    using show_hex_chars by (auto simp: list_all_iff)
  have ne: "show_hex n \<noteq> []" using hex_text_show_hex by (auto simp: hex_text_def)
  from dropWhile_stop [OF d, of "CHR ''}''" r] ne assms show ?thesis
    by (auto simp: decode_unicode_def Let_def scalar_def)
qed

lemma decode_escape_esc:
  assumes "scalar n" "quote \<in> {CHR 0x22, CHR 0x27}"
  shows "decode_escape i quote (esc n @ r) = Inr (n, i + 4 + length (show_hex n), r)"
  using assms decode_unicode_show_hex [OF assms(1), of i r]
  by (auto simp: decode_escape_def esc_def)

lemma scan_string_esc:
  "list_all scalar u \<Longrightarrow>
     \<exists>j. scan_string_loop start i chars [] False (concat (map esc u) @ CHR 0x22 # r)
       = Inr (VStr (rev chars @ u), j, r)"
proof (induction u arbitrary: i chars)
  case Nil
  then show ?case by (simp add: scan_string_loop.simps)
next
  case (Cons n u)
  let ?s = "concat (map esc u) @ CHR 0x22 # r"
  obtain t where t: "esc n = CHR 0x5C # t" by (simp add: esc_def)
  have d: "decode_escape i CHR 0x22 (CHR 0x5C # t @ ?s) = Inr (n, i + 4 + length (show_hex n), ?s)"
    using decode_escape_esc [of n "CHR 0x22" i ?s] Cons.prems t by simp
  from Cons.IH [of "i + 4 + length (show_hex n)" "n # chars"] Cons.prems t d show ?case
    by (simp add: scan_string_loop.simps)
qed

lemma reads_back_string: "list_all scalar u \<Longrightarrow> reads_back STRING (VStr u)"
proof -
  assume u: "list_all scalar u"
  have "\<exists>p j. lex_step i CHR 0x22 ((concat (map esc u) @ [CHR 0x22]) @ CHR '' '' # r)
      = Inr (Some (Token STRING (VStr u) p), j, CHR '' '' # r)" for i r
    using scan_string_esc [OF u, of i "i + 1" "[]" "CHR '' '' # r"]
    by (auto simp: lex_step_def scan_string_def py_char_defs)
  then show ?thesis by (simp add: reads_back_def)
qed

lemma reads_back_char: "scalar c \<Longrightarrow> reads_back CHAR_LIT (VChar c)"
proof -
  assume c: "scalar c"
  obtain t where t: "esc c = CHR 0x5C # t" by (simp add: esc_def)
  have "\<exists>p j. lex_step i CHR 0x27 ((esc c @ [CHR 0x27]) @ CHR '' '' # r)
      = Inr (Some (Token CHAR_LIT (VChar c) p), j, CHR '' '' # r)" for i r
    using decode_escape_esc [OF c, of "CHR 0x27" "i + 1" "CHR 0x27 # CHR '' '' # r"]
    by (simp add: lex_step_def scan_char_def py_char_defs t)
  then show ?thesis by (simp add: reads_back_def)
qed

definition symbol_reads :: "string \<Rightarrow> tokkind \<Rightarrow> bool" where
  "symbol_reads w k \<longleftrightarrow> (\<exists>ch cs. w = ch # cs \<and>
     (\<forall>i r. lex_step i ch (cs @ CHR '' '' # r) = Inr (Some (Token k (VText w) i), i + length w, CHR '' '' # r)))"

lemma symbols_read:
  "list_all (\<lambda>(w, k). symbol_reads w k) OPS1"
  "list_all (\<lambda>(w, k). symbol_reads w k) OPS2"
  "list_all (\<lambda>(w, k). symbol_reads w k) OPS3"
  by (simp_all add: OPS1_def OPS2_def OPS3_def symbol_reads_def lex_step_def lex_symbol_def
      py_char_defs numeral_2_eq_2 numeral_3_eq_3)

lemma reads_back_symbol:
  assumes "map_of (OPS1 @ OPS2 @ OPS3) w = Some k"
  shows "reads_back k (VText w)"
proof -
  have "list_all (\<lambda>(w, k). symbol_reads w k) (OPS1 @ OPS2 @ OPS3)"
    using symbols_read by simp
  then have "symbol_reads w k"
    using map_of_SomeD [OF assms] by (auto simp: list_all_iff)
  then show ?thesis by (fastforce simp: symbol_reads_def reads_back_def)
qed

lemma plain_reads_back: "plain k v \<Longrightarrow> reads_back k v"
  by (cases v)
    (auto simp del: map_of_append intro: reads_back_integer reads_back_float reads_back_string reads_back_char reads_back_bool
      reads_back_ident reads_back_keyword reads_back_symbol)

lemma lex_from_render:
  "list_all (\<lambda>(k, v). plain k v) kvs \<Longrightarrow>
     \<exists>ts. lex_from i (render kvs) = Inr ts
       \<and> map (\<lambda>t. (tkind t, tvalue t)) ts = kvs @ [(EOF, VText '''')]"
proof (induction kvs arbitrary: i)
  case (Cons kv kvs)
  obtain k v where kv: "kv = (k, v)" by (cases kv)
  from Cons.prems kv have "reads_back k v" by (auto intro: plain_reads_back)
  then obtain ch cs p j where v: "render_val v = ch # cs"
    and s: "lex_step i ch (cs @ CHR '' '' # render kvs) = Inr (Some (Token k v p), j, CHR '' '' # render kvs)"
    unfolding reads_back_def by blast
  from Cons.IH [of "j + 1"] Cons.prems obtain ts where
    "lex_from (j + 1) (render kvs) = Inr ts" "map (\<lambda>t. (tkind t, tvalue t)) ts = kvs @ [(EOF, VText '''')]"
    by auto
  then show ?case by (simp add: kv v s lex_step_def [of j])
qed simp

text \<open>
  C3: Tokens written out are read back: for every list of plain tokens (identifiers that are no
  keyword, keywords, booleans, operators and separators, integers of at most 4300 digits and
  floats with any of their suffixes, string and character literals of any Unicode scalar
  values), each followed by a space, \<open>lex\<close> returns exactly these kinds and values, then
  \<open>EOF\<close>.
\<close>

theorem lex_render:
  assumes "list_all (\<lambda>(k, v). plain k v) kvs"
  shows "\<exists>ts. lex (render kvs) = Inr ts
    \<and> map (\<lambda>t. (tkind t, tvalue t)) ts = kvs @ [(EOF, VText '''')]"
  unfolding lex_def by (rule lex_from_render [OF assms])

theorem lex_render_witness:
  "\<exists>ts. lex (render [(Kw LET, VText ''let''), (IDENT, VText ''x''), (Op SHLEQ, VText ''<<=''),
      (INTEGER, VInt 7 (Some ''u8'')), (STRING, VStr [0x4E2D, 123])]) = Inr ts
    \<and> map (\<lambda>t. (tkind t, tvalue t)) ts = [(Kw LET, VText ''let''), (IDENT, VText ''x''), (Op SHLEQ, VText ''<<=''),
      (INTEGER, VInt 7 (Some ''u8'')), (STRING, VStr [0x4E2D, 123]), (EOF, VText '''')]"
proof -
  have "list_all (\<lambda>(k, v). plain k v) [(Kw LET, VText ''let''), (IDENT, VText ''x''),
      (Op SHLEQ, VText ''<<=''), (INTEGER, VInt 7 (Some ''u8'')), (STRING, VStr [0x4E2D, 123])]"
    by (simp add: KEYWORDS_def OPS1_def OPS2_def OPS3_def ident_text_def ident_char_def py_char_defs
        INTEGER_SUFFIXES_def scalar_def show_nat.simps)
  from lex_render [OF this] show ?thesis by simp
qed

end
