(* ===== verification/TypeRef.thy ===== *)
theory TypeRef
  imports Lexer
begin

text \<open>
  \<open>compiler/type_ref.py\<close>: structured type references, their canonical text
  (\<open>format_type_ref\<close>, \<open>type_key\<close>), the parser of that text, and the rewriting of names.
\<close>

subsection \<open>Type references\<close>

datatype tref =
    NamedType string
  | PointerType tref bool  \<comment> \<open>the flag is \<open>nullable\<close>\<close>
  | SliceType tref
  | ArrayTypeRef int tref
  | FunctionType "tref list" tref bool  \<comment> \<open>the flag is \<open>fallible\<close>\<close>
  | GenericType tref "tref list"

subsection \<open>Text helpers\<close>

text \<open>
  \<open>split_top_level\<close>: cut at the separators outside all brackets, strip the pieces, drop the
  empty ones. The two counters are the code's; \<open>cur\<close> is the current piece in reverse.
\<close>

fun split_top :: "char \<Rightarrow> int \<Rightarrow> int \<Rightarrow> string \<Rightarrow> string \<Rightarrow> string list" where
  "split_top sep square paren cur [] = [rev cur]"
| "split_top sep square paren cur (ch # cs) =
     (if ch = CHR ''['' then split_top sep (square + 1) paren (ch # cur) cs
      else if ch = CHR '']'' then split_top sep (square - 1) paren (ch # cur) cs
      else if ch = CHR ''('' then split_top sep square (paren + 1) (ch # cur) cs
      else if ch = CHR '')'' then split_top sep square (paren - 1) (ch # cur) cs
      else if ch = sep \<and> square = 0 \<and> paren = 0 then rev cur # split_top sep square paren [] cs
      else split_top sep square paren (ch # cur) cs)"

definition split_top_level :: "string \<Rightarrow> string list" where
  "split_top_level s = filter (\<lambda>p. p \<noteq> []) (map py_strip (split_top CHR '','' 0 0 [] s))"

text \<open>
  \<open>_find_matching\<close> from \<open>start\<close> on: the text is the one from there, the result the index of
  the closing bracket in that text.
\<close>

fun find_matching :: "char \<Rightarrow> char \<Rightarrow> int \<Rightarrow> string \<Rightarrow> nat option" where
  "find_matching opn cls depth [] = None"
| "find_matching opn cls depth (ch # cs) =
     (if ch = opn then map_option Suc (find_matching opn cls (depth + 1) cs)
      else if ch = cls then
        (if depth - 1 = 0 then Some 0 else map_option Suc (find_matching opn cls (depth - 1) cs))
      else map_option Suc (find_matching opn cls depth cs))"

lemma find_matching_less: "find_matching opn cls d s = Some i \<Longrightarrow> i < length s"
  by (induction opn cls d s arbitrary: i rule: find_matching.induct) (auto split: if_splits)

lemma split_top_length: "\<forall>p \<in> set (split_top sep sq pa cur s). length p \<le> length cur + length s"
proof (induction s arbitrary: sq pa cur)
  case (Cons ch s)
  have le: "\<forall>p \<in> set (split_top sep a b (ch # cur) s). length p \<le> length cur + length (ch # s)" for a b
    using Cons.IH [of a b "ch # cur"] by simp
  have "\<forall>p \<in> set (split_top sep sq pa [] s). length p \<le> length cur + length (ch # s)"
    using Cons.IH [of sq pa "[]"] by auto
  with le show ?case by (simp del: length_Cons)
qed simp

lemma split_top_level_length:
  assumes "p \<in> set (split_top_level s)"
  shows "length p \<le> length s"
proof -
  obtain q where "q \<in> set (split_top CHR '','' 0 0 [] s)" "p = py_strip q"
    using assms by (auto simp: split_top_level_def)
  then show ?thesis
    using split_top_length [of "CHR '',''" 0 0 "[]" s] length_py_strip [of q] by fastforce
qed

text \<open>\<open>int(s)\<close> on any text: spaces around, a sign, digits with single underscores between.\<close>

fun dec_digits :: "bool \<Rightarrow> nat \<Rightarrow> nat \<Rightarrow> string \<Rightarrow> nat option" where
  "dec_digits prev_underscore count acc [] = (if prev_underscore \<or> count > 4300 then None else Some acc)"
| "dec_digits prev_underscore count acc (c # cs) =
     (if c = CHR ''_'' then (if prev_underscore then None else dec_digits True count acc cs)
      else if ascii_digit c then dec_digits False (count + 1) (10 * acc + digit_val c) cs
      else None)"

definition py_int :: "string \<Rightarrow> int res" where
  "py_int s =
     (let t = rev (dropWhile int_space (rev (dropWhile int_space s)));
          neg = (case t of c # _ \<Rightarrow> c = CHR ''-'' | [] \<Rightarrow> False);
          u = (case t of c # r \<Rightarrow> if c = CHR ''-'' \<or> c = CHR ''+'' then r else t | [] \<Rightarrow> t)
      in case dec_digits True 0 0 u of
           None \<Rightarrow> Inl ValueError
         | Some n \<Rightarrow> Inr (if neg then - int n else int n))"

subsection \<open>Parsing\<close>

lemma strip_less:
  assumes "n < length (py_strip t)"
  shows "n < length t"
  using assms length_py_strip [of t] by simp

lemma starts_with_length: "starts_with p s \<Longrightarrow> length p \<le> length s"
  by (auto simp: starts_with_conv)

lemma fn_param_less:
  assumes "p \<in> set (if A = [] then [] else split_top_level A)" and "A = take i (drop 3 t)"
    and "starts_with ''fn('' t"
  shows "length p < length t"
proof -
  have "length p \<le> length A"
    using assms(1) by (auto intro: split_top_level_length split: if_splits)
  with assms(2) starts_with_length [OF assms(3)] show ?thesis by auto
qed

lemma fn_ret_less:
  assumes "starts_with ''fn('' t" and "r = py_strip (drop (Suc i) t)"
  shows "length (if b then py_strip (take n r) else r) < length t"
proof -
  have "length (py_strip (take n r)) \<le> length r"
    using length_py_strip [of "take n r"] by simp
  moreover have "length r < length t"
    using assms(2) length_py_strip [of "drop (Suc i) t"] starts_with_length [OF assms(1)] by simp
  ultimately show ?thesis by simp
qed

lemma type_arg_less:
  assumes "p \<in> set (split_top_level (take i (drop (Suc j) t)))" and "j < length t"
  shows "length p < length t"
  using split_top_level_length [OF assms(1)] assms(2) by auto

function parse_type_ref :: "string \<Rightarrow> tref res" where
  "parse_type_ref t0 =
     (let t = py_strip t0 in
      if starts_with ''?*'' t then rbind (parse_type_ref (drop 2 t)) (\<lambda>r. Inr (PointerType r True))
      else if starts_with ''*'' t then rbind (parse_type_ref (drop 1 t)) (\<lambda>r. Inr (PointerType r False))
      else if starts_with ''[]'' t then rbind (parse_type_ref (drop 2 t)) (\<lambda>r. Inr (SliceType r))
      else if starts_with ''['' t then
        (case find_char CHR '']'' t of
           None \<Rightarrow> Inl (TypeParseError (''invalid array type '' @ t))
         | Some close \<Rightarrow>
             rbind (py_int (take (close - 1) (drop 1 t))) (\<lambda>n.
             rbind (parse_type_ref (drop (close + 1) t)) (\<lambda>r. Inr (ArrayTypeRef n r))))
      else if starts_with ''fn('' t then
        (case find_matching CHR ''('' CHR '')'' 0 (drop 2 t) of
           None \<Rightarrow> Inl (TypeParseError (''unclosed ( in type '' @ t))
         | Some k \<Rightarrow>
             let close = k + 2 in
             if \<not> starts_with ''->'' (drop (close + 1) t)
             then Inl (TypeParseError (''invalid function type '' @ t))
             else
               let args_s = take (close - 3) (drop 3 t);
                   ret_s0 = py_strip (drop (close + 3) t);
                   fallible = ends_with '' err'' ret_s0;
                   ret_s = (if fallible then py_strip (take (length ret_s0 - 4) ret_s0) else ret_s0)
               in rbind (rmap parse_type_ref (if args_s = [] then [] else split_top_level args_s)) (\<lambda>ps.
                  rbind (parse_type_ref ret_s) (\<lambda>r. Inr (FunctionType ps r fallible))))
      else
        (case find_char CHR ''['' t of
           None \<Rightarrow> Inr (NamedType t)
         | Some lb \<Rightarrow>
             if ends_with '']'' t then
               (case find_matching CHR ''['' CHR '']'' 0 (drop lb t) of
                  None \<Rightarrow> Inl (TypeParseError (''unclosed [ in type '' @ t))
                | Some k \<Rightarrow>
                    let close = lb + k in
                    if close = length t - 1 then
                      rbind (parse_type_ref (take lb t)) (\<lambda>b.
                      rbind (rmap parse_type_ref (split_top_level (take (close - (lb + 1)) (drop (lb + 1) t))))
                        (\<lambda>as. Inr (GenericType b as)))
                    else Inr (NamedType t))
             else Inr (NamedType t)))"
  by pat_completeness auto
termination
  apply (relation "measure length")
  apply (simp_all only: wf_measure in_measure)
  subgoal by (rule strip_less) (auto simp: starts_with_conv)
  subgoal by (rule strip_less) (auto simp: starts_with_conv)
  subgoal by (rule strip_less) (auto simp: starts_with_conv)
  subgoal by (rule strip_less) (auto simp: starts_with_conv)
  subgoal by (rule strip_less) (rule fn_param_less [OF _ refl])
  subgoal for t0 t k
    by (rule strip_less, rule fn_ret_less [where i = "k + 4"]) simp_all
  subgoal by (rule strip_less) (auto dest: find_char_Some)
  subgoal by (rule strip_less, rule type_arg_less) (auto dest: find_char_Some)
  done

declare parse_type_ref.simps [simp del]

subsection \<open>Canonical and user text\<close>

fun format_type_ref :: "tref \<Rightarrow> string" where
  "format_type_ref (NamedType n) = n"
| "format_type_ref (PointerType r nullable) = (if nullable then ''?*'' else ''*'') @ format_type_ref r"
| "format_type_ref (SliceType r) = ''[]'' @ format_type_ref r"
| "format_type_ref (ArrayTypeRef n r) = ''['' @ show_int n @ '']'' @ format_type_ref r"
| "format_type_ref (FunctionType ps r fallible) =
     ''fn('' @ join '','' (map format_type_ref ps) @ '')->'' @ format_type_ref r
       @ (if fallible then '' err'' else [])"
| "format_type_ref (GenericType b as) =
     format_type_ref b @ ''['' @ join '','' (map format_type_ref as) @ '']''"

fun format_type_ref_user :: "tref \<Rightarrow> string" where
  "format_type_ref_user (NamedType n) = n"
| "format_type_ref_user (PointerType r nullable) =
     (if nullable then ''?*'' else ''*'') @ format_type_ref_user r"
| "format_type_ref_user (SliceType r) = ''[]'' @ format_type_ref_user r"
| "format_type_ref_user (ArrayTypeRef n r) = ''['' @ show_int n @ '']'' @ format_type_ref_user r"
| "format_type_ref_user (FunctionType ps r fallible) =
     ''fun('' @ join '', '' (map format_type_ref_user ps) @ '') '' @ format_type_ref_user r
       @ (if fallible then '' err'' else [])"
| "format_type_ref_user (GenericType b as) =
     format_type_ref_user b @ ''['' @ join '','' (map format_type_ref_user as) @ '']''"

text \<open>
  \<open>parse_type_ref\<close> is the identity on structured types, so the key of a structured type is its
  canonical text; the key of a text is the canonical text of what it parses to.
\<close>

definition type_key :: "tref \<Rightarrow> string" where
  "type_key r = format_type_ref r"

definition type_key_text :: "string \<Rightarrow> string res" where
  "type_key_text s = rbind (parse_type_ref s) (\<lambda>r. Inr (format_type_ref r))"

definition same_type :: "tref \<Rightarrow> tref \<Rightarrow> bool" where
  "same_type a b \<longleftrightarrow> type_key a = type_key b"

definition type_name :: "tref \<Rightarrow> string option" where
  "type_name r = (case r of NamedType n \<Rightarrow> Some n | _ \<Rightarrow> None)"

subsection \<open>Rewriting of names and the views of a type\<close>

text \<open>
  What the caller's \<open>fn\<close> gives for a name: a text or a structured type. \<open>repl != r.name\<close> is text
  comparison on a text, and comparison of keys on a structured type (\<open>TypeRefBase.__eq__\<close>, which
  answers false when the name does not parse as a type).
\<close>

datatype replacement = ReplText string | ReplType tref

definition eq_text :: "tref \<Rightarrow> string \<Rightarrow> bool res" where
  "eq_text r n =
     (case type_key_text n of
        Inl (TypeParseError m) \<Rightarrow> Inr False
      | Inl e \<Rightarrow> Inl e
      | Inr k \<Rightarrow> Inr (type_key r = k))"

definition rewrite_name :: "(string \<Rightarrow> replacement res) \<Rightarrow> string \<Rightarrow> tref res" where
  "rewrite_name fn n =
     rbind (fn n) (\<lambda>repl. case repl of
         ReplText s \<Rightarrow> if s = n then Inr (NamedType n) else parse_type_ref s
       | ReplType r \<Rightarrow> rbind (eq_text r n) (\<lambda>eq. Inr (if eq then NamedType n else r)))"

fun rewrite_type_ref :: "(string \<Rightarrow> replacement res) \<Rightarrow> tref \<Rightarrow> tref res" where
  "rewrite_type_ref fn (NamedType n) = rewrite_name fn n"
| "rewrite_type_ref fn (PointerType r nullable) =
     rbind (rewrite_type_ref fn r) (\<lambda>r'. Inr (PointerType r' nullable))"
| "rewrite_type_ref fn (SliceType r) = rbind (rewrite_type_ref fn r) (\<lambda>r'. Inr (SliceType r'))"
| "rewrite_type_ref fn (ArrayTypeRef n r) = rbind (rewrite_type_ref fn r) (\<lambda>r'. Inr (ArrayTypeRef n r'))"
| "rewrite_type_ref fn (FunctionType ps r fallible) =
     rbind (rmap (rewrite_type_ref fn) ps) (\<lambda>ps'.
     rbind (rewrite_type_ref fn r) (\<lambda>r'. Inr (FunctionType ps' r' fallible)))"
| "rewrite_type_ref fn (GenericType b as) =
     rbind (rewrite_type_ref fn b) (\<lambda>b'.
     rbind (rmap (rewrite_type_ref fn) as) (\<lambda>as'. Inr (GenericType b' as')))"

definition rewrite_type :: "(string \<Rightarrow> replacement res) \<Rightarrow> tref \<Rightarrow> string res" where
  "rewrite_type fn r = rbind (rewrite_type_ref fn r) (\<lambda>r'. Inr (format_type_ref r'))"

fun parse_type_app :: "tref \<Rightarrow> (string \<times> string list) option" where
  "parse_type_app (GenericType (NamedType n) as) = Some (n, map format_type_ref as)"
| "parse_type_app _ = None"

fun parse_fn_type :: "tref \<Rightarrow> (string list \<times> string) option" where
  "parse_fn_type (FunctionType ps r _) = Some (map format_type_ref ps, format_type_ref r)"
| "parse_fn_type _ = None"

fun is_fallible_fn_type :: "tref \<Rightarrow> bool" where
  "is_fallible_fn_type (FunctionType _ _ fallible) = fallible"
| "is_fallible_fn_type _ = False"

fun parse_slice_type :: "tref \<Rightarrow> string option" where
  "parse_slice_type (SliceType r) = Some (format_type_ref r)"
| "parse_slice_type _ = None"

fun parse_array_type :: "tref \<Rightarrow> (int \<times> string) option" where
  "parse_array_type (ArrayTypeRef n r) = Some (n, format_type_ref r)"
| "parse_array_type _ = None"

definition parse_map_type :: "tref \<Rightarrow> string list option" where
  "parse_map_type r =
     (case parse_type_app r of
        Some (b, as) \<Rightarrow> (if b = ''map'' then Some as else None)
      | None \<Rightarrow> None)"

fun as_pointer_type :: "tref \<Rightarrow> (tref \<times> bool) option" where
  "as_pointer_type (PointerType r nullable) = Some (r, nullable)"
| "as_pointer_type _ = None"

fun as_slice_type :: "tref \<Rightarrow> tref option" where
  "as_slice_type (SliceType r) = Some r"
| "as_slice_type _ = None"

fun as_array_type :: "tref \<Rightarrow> (int \<times> tref) option" where
  "as_array_type (ArrayTypeRef n r) = Some (n, r)"
| "as_array_type _ = None"

fun as_function_type :: "tref \<Rightarrow> (tref list \<times> tref \<times> bool) option" where
  "as_function_type (FunctionType ps r fallible) = Some (ps, r, fallible)"
| "as_function_type _ = None"

fun as_map_type :: "tref \<Rightarrow> (tref \<times> tref) option" where
  "as_map_type (GenericType (NamedType n) [k, v]) = (if n = ''map'' then Some (k, v) else None)"
| "as_map_type _ = None"

end
