(* ===== verification/TypeRefProps.thy ===== *)
theory TypeRefProps
  imports TypeRef
begin

text \<open>
  The canonical text of a type reads back as that type. The proof is a small calculus of
  bracket-balanced text: \<open>neutral\<close> text passes through the comma splitter unchanged at any
  depth, \<open>inner\<close> text only inside a bracket, \<open>skips\<close> text is passed over by the search for a
  closing bracket.
\<close>

subsection \<open>Balanced text\<close>

definition neutral :: "string \<Rightarrow> bool" where
  "neutral s \<longleftrightarrow> (\<forall>sq pa cur rest. 0 \<le> sq \<longrightarrow> 0 \<le> pa \<longrightarrow>
     split_top CHR '','' sq pa cur (s @ rest) = split_top CHR '','' sq pa (rev s @ cur) rest)"

definition inner :: "string \<Rightarrow> bool" where
  "inner s \<longleftrightarrow> (\<forall>sq pa cur rest. 0 \<le> sq \<longrightarrow> 0 \<le> pa \<longrightarrow> 0 < sq + pa \<longrightarrow>
     split_top CHR '','' sq pa cur (s @ rest) = split_top CHR '','' sq pa (rev s @ cur) rest)"

definition skips :: "char \<Rightarrow> char \<Rightarrow> string \<Rightarrow> bool" where
  "skips opn cls s \<longleftrightarrow> (\<forall>d rest. 1 \<le> d \<longrightarrow>
     find_matching opn cls d (s @ rest) = map_option (\<lambda>i. length s + i) (find_matching opn cls d rest))"

definition balanced :: "string \<Rightarrow> bool" where
  "balanced s \<longleftrightarrow> skips CHR ''['' CHR '']'' s \<and> skips CHR ''('' CHR '')'' s"

definition bracket :: "char \<Rightarrow> bool" where
  "bracket c \<longleftrightarrow> c \<in> {CHR ''['', CHR '']'', CHR ''('', CHR '')''}"

lemma neutral_Nil [simp]: "neutral []" and inner_Nil [simp]: "inner []"
  by (simp_all add: neutral_def inner_def)

lemma neutral_append: "neutral s \<Longrightarrow> neutral t \<Longrightarrow> neutral (s @ t)"
  by (simp add: neutral_def)

lemma inner_append: "inner s \<Longrightarrow> inner t \<Longrightarrow> inner (s @ t)"
  by (simp add: inner_def)

lemma neutral_inner: "neutral s \<Longrightarrow> inner s"
  by (simp add: neutral_def inner_def)

lemma neutral_char: "\<not> bracket c \<Longrightarrow> c \<noteq> CHR '','' \<Longrightarrow> neutral [c]"
  by (simp add: neutral_def bracket_def)

lemma inner_char: "\<not> bracket c \<Longrightarrow> inner [c]"
  by (auto simp: inner_def bracket_def)

lemma neutral_square: "inner s \<Longrightarrow> neutral (CHR ''['' # s @ '']'')"
  by (simp add: neutral_def inner_def)

lemma neutral_paren: "inner s \<Longrightarrow> neutral (CHR ''('' # s @ '')'')"
  by (simp add: neutral_def inner_def)

lemma skips_Nil [simp]: "skips opn cls []"
  by (simp add: skips_def option.map_ident)

lemma skips_append: "skips opn cls s \<Longrightarrow> skips opn cls t \<Longrightarrow> skips opn cls (s @ t)"
  by (simp add: skips_def option.map_comp o_def add.assoc)

lemma skips_char: "c \<noteq> opn \<Longrightarrow> c \<noteq> cls \<Longrightarrow> skips opn cls [c]"
  by (simp add: skips_def)

lemma skips_wrap:
  assumes "skips opn cls s" and "opn \<noteq> cls"
  shows "skips opn cls (opn # s @ [cls])"
  using assms by (auto simp: skips_def option.map_comp o_def)

lemma balanced_Nil [simp]: "balanced []"
  by (simp add: balanced_def)

lemma balanced_append: "balanced s \<Longrightarrow> balanced t \<Longrightarrow> balanced (s @ t)"
  by (simp add: balanced_def skips_append)

lemma balanced_char: "\<not> bracket c \<Longrightarrow> balanced [c]"
  by (simp add: balanced_def bracket_def skips_char)

lemma balanced_square: "balanced s \<Longrightarrow> balanced (CHR ''['' # s @ '']'')"
  using skips_append [OF skips_append [of _ _ "[CHR ''['']" s] skips_char, of _ _ "CHR '']''"]
  by (auto simp: balanced_def skips_wrap skips_char)

lemma balanced_paren: "balanced s \<Longrightarrow> balanced (CHR ''('' # s @ '')'')"
  using skips_append [OF skips_append [of _ _ "[CHR ''('']" s] skips_char, of _ _ "CHR '')''"]
  by (auto simp: balanced_def skips_wrap skips_char)

lemma find_matching_wrap:
  assumes "skips opn cls s" and "opn \<noteq> cls"
  shows "find_matching opn cls 0 (opn # s @ cls # rest) = Some (Suc (length s))"
  using assms by (simp add: skips_def)

lemma neutral_chars: "(\<forall>c \<in> set s. \<not> bracket c \<and> c \<noteq> CHR '','') \<Longrightarrow> neutral s"
proof (induction s)
  case (Cons c s)
  then show ?case using neutral_append [OF neutral_char [of c], of s] by simp
qed simp

lemma balanced_chars: "(\<forall>c \<in> set s. \<not> bracket c) \<Longrightarrow> balanced s"
proof (induction s)
  case (Cons c s)
  then show ?case using balanced_append [OF balanced_char [of c], of s] by simp
qed simp

lemma inner_join: "(\<forall>s \<in> set ss. neutral s) \<Longrightarrow> inner (join '','' ss)"
proof (induction "'',''" ss rule: join.induct)
  case (3 x y ys)
  have "inner ('','' @ join '','' (y # ys))"
    by (rule inner_append) (use 3 in \<open>simp_all add: inner_char bracket_def\<close>)
  with 3 show ?case by (simp add: inner_append neutral_inner)
qed (simp_all add: neutral_inner)

lemma balanced_join: "(\<forall>s \<in> set ss. balanced s) \<Longrightarrow> balanced (join '','' ss)"
proof (induction "'',''" ss rule: join.induct)
  case (3 x y ys)
  have "balanced ('','' @ join '','' (y # ys))"
    by (rule balanced_append) (use 3 in \<open>simp_all add: balanced_char bracket_def\<close>)
  with 3 show ?case by (simp add: balanced_append)
qed simp_all

lemma split_top_join:
  "ss \<noteq> [] \<Longrightarrow> \<forall>s \<in> set ss. neutral s \<Longrightarrow> split_top CHR '','' 0 0 [] (join '','' ss) = ss"
proof (induction "'',''" ss rule: join.induct)
  case (2 x)
  then have "split_top CHR '','' 0 0 [] (x @ []) = split_top CHR '','' 0 0 (rev x @ []) []"
    unfolding neutral_def by (metis list.set_intros(1) order_refl)
  then show ?case by simp
next
  case (3 x y ys)
  then have "split_top CHR '','' 0 0 [] (x @ '','' @ join '','' (y # ys)) =
      split_top CHR '','' 0 0 (rev x @ []) ('','' @ join '','' (y # ys))"
    unfolding neutral_def by (metis list.set_intros(1) order_refl)
  with 3 show ?case by simp
qed simp

subsection \<open>Well-formed types and their text\<close>

text \<open>
  Names are identifiers with dots; array lengths stay within the decimal conversion limit of
  the interpreter; a generic type has a name for base; and the result of an infallible function
  type does not itself end in \<open>err\<close>, the one place where the canonical text is ambiguous.
\<close>

definition name_char :: "char \<Rightarrow> bool" where
  "name_char c \<longleftrightarrow> ident_char c \<or> c = CHR ''.''"

definition type_name_ok :: "string \<Rightarrow> bool" where
  "type_name_ok n \<longleftrightarrow> n \<noteq> [] \<and> (\<forall>c \<in> set n. name_char c)"

fun ends_err :: "tref \<Rightarrow> bool" where
  "ends_err (PointerType r _) = ends_err r"
| "ends_err (SliceType r) = ends_err r"
| "ends_err (ArrayTypeRef _ r) = ends_err r"
| "ends_err (FunctionType _ r fallible) = (fallible \<or> ends_err r)"
| "ends_err _ = False"

fun wf_tref :: "tref \<Rightarrow> bool" where
  "wf_tref (NamedType n) = type_name_ok n"
| "wf_tref (PointerType r _) = wf_tref r"
| "wf_tref (SliceType r) = wf_tref r"
| "wf_tref (ArrayTypeRef n r) = (length (show_int n) \<le> 4300 \<and> wf_tref r)"
| "wf_tref (FunctionType ps r fallible) =
     ((\<forall>p \<in> set ps. wf_tref p) \<and> wf_tref r \<and> (fallible \<or> \<not> ends_err r))"
| "wf_tref (GenericType (NamedType n) as) = (type_name_ok n \<and> (\<forall>a \<in> set as. wf_tref a))"
| "wf_tref (GenericType _ _) = False"

lemma name_char_facts:
  assumes "name_char c"
  shows "\<not> bracket c" "c \<noteq> CHR '',''" "\<not> py_isspace c" "c \<noteq> CHR ''?''" "c \<noteq> CHR ''*''"
  using assms by (auto simp: name_char_def ident_char_def bracket_def py_char_defs)

definition solid :: "string \<Rightarrow> bool" where
  "solid s \<longleftrightarrow> s \<noteq> [] \<and> \<not> py_isspace (hd s) \<and> \<not> py_isspace (last s)"

lemma solid_strip: "solid s \<Longrightarrow> py_strip s = s"
  by (simp add: solid_def py_strip_id)

lemma solid_prefix: "solid s \<Longrightarrow> \<not> py_isspace c \<Longrightarrow> solid (c # p @ s)"
  by (simp add: solid_def)

lemma solid_ends: "\<not> py_isspace c \<Longrightarrow> \<not> py_isspace d \<Longrightarrow> solid (c # p @ [d])"
  by (simp add: solid_def)

lemma punct_facts [simp]:
  "\<not> py_isspace CHR ''[''" "\<not> py_isspace CHR '']''" "\<not> py_isspace CHR ''?''" "\<not> py_isspace CHR ''*''"
  "\<not> py_isspace CHR ''f''" "\<not> py_isspace CHR ''r''"
  "\<not> bracket CHR ''?''" "\<not> bracket CHR ''*''" "\<not> bracket CHR ''f''" "\<not> bracket CHR ''n''"
  "\<not> bracket CHR ''-''" "\<not> bracket CHR ''>''" "\<not> bracket CHR '' ''" "\<not> bracket CHR ''e''"
  "\<not> bracket CHR ''r''"
  by (simp_all add: py_isspace_def bracket_def)

definition textual :: "string \<Rightarrow> bool" where
  "textual s \<longleftrightarrow> neutral s \<and> balanced s \<and> solid s"

lemma show_int_chars: "c \<in> set (show_int n) \<Longrightarrow> ascii_digit c \<or> c = CHR ''-''"
  using show_nat_digits by (auto simp: show_int_def split: if_splits)

lemma digit_not_bracket: "ascii_digit c \<Longrightarrow> \<not> bracket c \<and> c \<noteq> CHR '','' \<and> \<not> py_isspace c"
  by (auto simp: bracket_def py_char_defs)

definition plain_text :: "string \<Rightarrow> bool" where
  "plain_text p \<longleftrightarrow> (\<forall>c \<in> set p. \<not> bracket c \<and> c \<noteq> CHR '','')"

lemma plain_text_neutral: "plain_text p \<Longrightarrow> neutral p"
  unfolding plain_text_def by (rule neutral_chars)

lemma plain_text_balanced: "plain_text p \<Longrightarrow> balanced p"
  by (rule balanced_chars) (simp add: plain_text_def)

lemma plain_text_eval [simp]:
  "plain_text []" "plain_text ''?*''" "plain_text ''*''" "plain_text ''fn''" "plain_text ''->''"
  "plain_text '' err''"
  by (simp_all add: plain_text_def)

lemma plain_text_show_int: "plain_text (show_int n)"
  unfolding plain_text_def
proof
  fix c assume "c \<in> set (show_int n)"
  then show "\<not> bracket c \<and> c \<noteq> CHR '',''"
    using show_int_chars [of c n] digit_not_bracket [of c] by (auto simp: bracket_def)
qed

lemma plain_text_name: "type_name_ok n \<Longrightarrow> plain_text n"
  using name_char_facts(1,2) unfolding plain_text_def type_name_ok_def by blast

lemma textual_name:
  assumes "type_name_ok n"
  shows "textual n"
proof -
  have "solid n"
    using assms name_char_facts(3) by (auto simp: type_name_ok_def solid_def)
  then show ?thesis
    using plain_text_name [OF assms] by (simp add: textual_def plain_text_neutral plain_text_balanced)
qed

lemma solid_append: "solid s \<Longrightarrow> p = [] \<or> \<not> py_isspace (hd p) \<Longrightarrow> solid (p @ s)"
  by (cases p) (auto simp: solid_def)

lemma textual_prefix:
  assumes "textual s" and "plain_text p" and "p = [] \<or> \<not> py_isspace (hd p)"
  shows "textual (p @ s)"
  using assms unfolding textual_def
  by (intro conjI neutral_append balanced_append solid_append)
    (auto intro: plain_text_neutral plain_text_balanced)

lemma textual_squares:
  assumes "textual s" and "plain_text p"
  shows "textual (CHR ''['' # p @ CHR '']'' # s)"
proof -
  have "neutral ((CHR ''['' # p @ '']'') @ s)"
    using assms unfolding textual_def
    by (intro neutral_append neutral_square neutral_inner) (auto intro: plain_text_neutral)
  moreover have "balanced ((CHR ''['' # p @ '']'') @ s)"
    using assms unfolding textual_def
    by (intro balanced_append balanced_square) (auto intro: plain_text_balanced)
  ultimately show ?thesis
    using solid_prefix [of s "CHR ''[''" "p @ '']''"] assms by (simp add: textual_def)
qed

lemma textual_generic:
  assumes "textual s" and "\<forall>a \<in> set as. textual a"
  shows "textual (s @ CHR ''['' # join '','' as @ '']'')"
proof -
  have "neutral (s @ CHR ''['' # join '','' as @ '']'')"
    using assms unfolding textual_def by (intro neutral_append neutral_square inner_join) simp_all
  moreover have "balanced (s @ CHR ''['' # join '','' as @ '']'')"
    using assms unfolding textual_def by (intro balanced_append balanced_square balanced_join) simp_all
  ultimately show ?thesis using assms by (simp add: textual_def solid_def)
qed

lemma textual_function:
  assumes "\<forall>p \<in> set ps. textual p" and "textual s" and "sfx = [] \<or> sfx = '' err''"
  shows "textual (''fn('' @ join '','' ps @ '')->'' @ s @ sfx)"
proof -
  have sfx: "plain_text sfx" using assms(3) by auto
  have n: "neutral (''fn'' @ (CHR ''('' # join '','' ps @ '')'') @ ''->'' @ s @ sfx)"
    by (intro neutral_append neutral_paren inner_join)
      (use assms sfx in \<open>auto simp: textual_def intro: plain_text_neutral\<close>)
  have b: "balanced (''fn'' @ (CHR ''('' # join '','' ps @ '')'') @ ''->'' @ s @ sfx)"
    by (intro balanced_append balanced_paren balanced_join)
      (use assms sfx in \<open>auto simp: textual_def intro: plain_text_balanced\<close>)
  have "solid (''fn('' @ join '','' ps @ '')->'' @ s @ sfx)"
    using assms by (auto simp: textual_def solid_def)
  with n b show ?thesis by (simp add: textual_def)
qed

lemma textual_format: "wf_tref r \<Longrightarrow> textual (format_type_ref r)"
proof (induction r rule: wf_tref.induct)
  case (2 r b)
  then show ?case using textual_prefix [of "format_type_ref r" "''?*''"] textual_prefix [of "format_type_ref r" "''*''"]
    by simp
next
  case (3 r)
  then show ?case using textual_squares [of "format_type_ref r" "[]"] by simp
next
  case (4 n r)
  then show ?case using textual_squares [OF _ plain_text_show_int] by simp
next
  case (5 ps r f)
  then show ?case
    using textual_function [of "map format_type_ref ps" "format_type_ref r" "if f then '' err'' else []"]
    by simp
next
  case (6 n as)
  then show ?case using textual_generic [OF textual_name [of n], of "map format_type_ref as"] by simp
qed (simp_all add: textual_name)

subsection \<open>The suffix \<open>err\<close>\<close>

lemma ends_with_err_append:
  assumes "p \<noteq> []" and "last p \<notin> set '' err''"
  shows "ends_with '' err'' (p @ s) = ends_with '' err'' s"
proof
  assume "ends_with '' err'' (p @ s)"
  then obtain t where t: "p @ s = t @ '' err''" by (auto simp: ends_with_conv)
  then consider us where "p = t @ us" "us @ s = '' err''" | us where "p @ us = t" "s = us @ '' err''"
    by (auto simp: append_eq_append_conv2)
  then show "ends_with '' err'' s"
  proof cases
    case (1 us)
    then have "us = []"
      using assms by (metis UnCI last_appendR last_in_set set_append)
    with 1 show ?thesis by (simp add: ends_with_conv)
  qed (auto simp: ends_with_conv)
qed (auto simp: ends_with_conv)

lemma ends_with_err_last: "ends_with '' err'' s \<Longrightarrow> last s = CHR ''r''"
  by (auto simp: ends_with_conv)

lemma ends_err_iff: "wf_tref r \<Longrightarrow> ends_with '' err'' (format_type_ref r) = ends_err r"
proof (induction r rule: wf_tref.induct)
  case (1 n)
  then have "CHR '' '' \<notin> set n"
    by (auto simp: type_name_ok_def name_char_def ident_char_def py_char_defs)
  then show ?case by (auto simp: ends_with_conv)
next
  case (4 n r)
  then show ?case
    using ends_with_err_append [of "CHR ''['' # show_int n @ '']''" "format_type_ref r"] by simp
next
  case (5 ps r f)
  then show ?case
    using ends_with_err_append [of "''fn('' @ join '','' (map format_type_ref ps) @ '')->''" "format_type_ref r"]
      ends_with_conv [of "'' err''"]
    by (cases f) simp_all
next
  case (6 n as)
  show ?case using ends_with_err_last [of "n @ CHR ''['' # join '','' (map format_type_ref as) @ '']''"]
    by auto
qed (simp_all add: ends_with_err_append [of "''?*''", simplified] ends_with_err_append [of "''*''", simplified]
      ends_with_err_append [of "''[]''", simplified])

subsection \<open>Reading each form\<close>

lemma dec_digits_digits:
  "\<forall>c \<in> set s. ascii_digit c \<Longrightarrow> dec_digits b k a s =
     (if b \<and> s = [] \<or> k + length s > 4300 then None else Some (foldl (\<lambda>n c. 10 * n + digit_val c) a s))"
proof (induction s arbitrary: b k a)
  case (Cons c s)
  moreover from Cons.prems have "c \<noteq> CHR ''_''" by (auto simp: py_char_defs)
  ultimately show ?case by simp
qed simp

lemma int_space_strip: "(\<forall>c \<in> set s. \<not> int_space c) \<Longrightarrow> dropWhile int_space s = s"
  by (cases s) simp_all

lemma py_int_show_int:
  assumes "length (show_int n) \<le> 4300"
  shows "py_int (show_int n) = Inr n"
proof -
  have ns: "\<forall>c \<in> set (show_int n). \<not> int_space c"
    using show_int_chars by (fastforce simp: int_space_def py_char_defs)
  have head: "show_nat k = c # r \<Longrightarrow> c \<noteq> CHR ''-'' \<and> c \<noteq> CHR ''+''" for k c r
    using show_nat_digits [of k] by (auto simp: py_char_defs)
  have val: "length (show_nat k) \<le> 4300 \<Longrightarrow> dec_digits True 0 0 (show_nat k) = Some k" for k
    using dec_val_show_nat [of k] by (simp add: dec_digits_digits show_nat_digits dec_val_def)
  show ?thesis
  proof (cases "n < 0")
    case True
    with assms val [of "nat (- n)"] ns show ?thesis
      by (simp add: py_int_def int_space_strip show_int_def)
  next
    case False
    obtain c r where "show_nat (nat n) = c # r"
      using show_nat_nonempty [of "nat n"] by (cases "show_nat (nat n)") auto
    with False assms val [of "nat n"] ns head [of "nat n" c r] show ?thesis
      by (simp add: py_int_def int_space_strip show_int_def)
  qed
qed

lemma solid_Cons_strip: "solid s \<Longrightarrow> \<not> py_isspace c \<Longrightarrow> py_strip (c # p @ s) = c # p @ s"
  by (rule solid_strip, rule solid_prefix)

lemma name_without:
  assumes "type_name_ok n" and "bracket c \<or> c = CHR ''?'' \<or> c = CHR ''*''"
  shows "c \<notin> set n"
proof
  assume "c \<in> set n"
  with assms(1) have "name_char c" by (simp add: type_name_ok_def)
  from name_char_facts [OF this] assms(2) show False by auto
qed

lemma name_without_eval:
  assumes "type_name_ok n"
  shows "CHR ''['' \<notin> set n" "CHR ''('' \<notin> set n" "CHR ''?'' \<notin> set n" "CHR ''*'' \<notin> set n"
  by (rule name_without [OF assms], simp add: bracket_def)+

lemma read_name:
  assumes "type_name_ok n"
  shows "parse_type_ref n = Inr (NamedType n)"
proof -
  have strip: "py_strip n = n" using textual_name [OF assms] by (simp add: textual_def solid_strip)
  note brk = name_without_eval [OF assms]
  from brk have sw: "\<not> starts_with ''?*'' n" "\<not> starts_with ''*'' n" "\<not> starts_with ''[]'' n"
      "\<not> starts_with ''['' n" "\<not> starts_with ''fn('' n"
    by (auto simp: starts_with_conv)
  from brk(1) have "find_char CHR ''['' n = None" by (simp add: find_char_None)
  with sw show ?thesis by (simp add: parse_type_ref.simps [of n] strip)
qed

lemma read_pointer:
  assumes "solid s"
  shows "parse_type_ref ((if b then ''?*'' else ''*'') @ s) =
    rbind (parse_type_ref s) (\<lambda>r. Inr (PointerType r b))"
  using solid_Cons_strip [OF assms, of "CHR ''?''" "''*''"] solid_Cons_strip [OF assms, of "CHR ''*''" "[]"]
  by (simp add: parse_type_ref.simps [of "_ # _"])

lemma read_slice:
  assumes "solid s"
  shows "parse_type_ref (''[]'' @ s) = rbind (parse_type_ref s) (\<lambda>r. Inr (SliceType r))"
  using solid_Cons_strip [OF assms, of "CHR ''[''" "'']''"]
  by (simp add: parse_type_ref.simps [of "_ # _"])

lemma read_array:
  assumes "solid s" and len: "length (show_int n) \<le> 4300"
  shows "parse_type_ref (''['' @ show_int n @ '']'' @ s) =
    rbind (parse_type_ref s) (\<lambda>r. Inr (ArrayTypeRef n r))"
proof -
  obtain c d where cd: "show_int n = c # d"
    by (cases "show_int n") (auto simp: show_int_def split: if_splits)
  have "CHR '']'' \<notin> set (show_int n)"
    using plain_text_show_int [of n] by (auto simp: plain_text_def bracket_def)
  then have find: "find_char CHR '']'' (show_int n @ CHR '']'' # s) = Some (length (show_int n))"
    and "c \<noteq> CHR '']''"
    using cd by (simp add: find_char_append, auto)
  then show ?thesis
    using solid_Cons_strip [OF assms(1), of "CHR ''[''" "show_int n @ '']''"] cd
      py_int_show_int [OF len]
    by (simp add: parse_type_ref.simps [of "_ # _"])
qed

lemma split_top_level_join:
  assumes "\<forall>s \<in> set ss. textual s"
  shows "split_top_level (join '','' ss) = ss"
proof (cases ss)
  case Nil
  then show ?thesis by (simp add: split_top_level_def py_strip_def py_lstrip_def py_rstrip_def)
next
  case Cons
  with assms have "split_top CHR '','' 0 0 [] (join '','' ss) = ss"
    by (intro split_top_join) (auto simp: textual_def)
  moreover have "map py_strip ss = ss" and "filter (\<lambda>p. p \<noteq> []) ss = ss"
    using assms by (auto simp: textual_def solid_strip solid_def map_idI filter_id_conv)
  ultimately show ?thesis by (simp add: split_top_level_def)
qed

lemma join_nonempty: "join '','' ss = [] \<Longrightarrow> \<forall>s \<in> set ss. s \<noteq> [] \<Longrightarrow> ss = []"
  by (cases "('','', ss)" rule: join.cases) auto

lemma read_generic:
  assumes n: "type_name_ok n" and as: "\<forall>a \<in> set as. textual a"
  shows "parse_type_ref (n @ ''['' @ join '','' as @ '']'') =
    rbind (rmap parse_type_ref as) (\<lambda>as'. Inr (GenericType (NamedType n) as'))"
proof -
  let ?t = "n @ ''['' @ join '','' as @ '']''"
  have tx: "textual ?t" using textual_generic [OF textual_name [OF n] as] by simp
  then have strip: "py_strip ?t = ?t" by (simp add: textual_def solid_strip)
  note brk = name_without_eval [OF n]
  obtain c m where cm: "n = c # m" using n by (cases n) (auto simp: type_name_ok_def)
  have fn: "\<not> starts_with ''fn('' ?t"
  proof (cases m)
    case (Cons d k)
    with brk(2) cm show ?thesis by (cases k) simp_all
  qed (simp add: cm)
  have sw: "\<not> starts_with ''?*'' ?t" "\<not> starts_with ''*'' ?t" "\<not> starts_with ''[]'' ?t"
      "\<not> starts_with ''['' ?t"
    using brk by (auto simp: cm)
  have find: "find_char CHR ''['' ?t = Some (length n)"
    using brk(1) by (simp add: find_char_append)
  have "skips CHR ''['' CHR '']'' (join '','' as)"
    using balanced_join [of as] as by (auto simp: textual_def balanced_def)
  then have close: "find_matching CHR ''['' CHR '']'' 0 (drop (length n) ?t) = Some (Suc (length (join '','' as)))"
    using find_matching_wrap [of "CHR ''[''" "CHR '']''" "join '','' as" "[]"] by simp
  have ends: "ends_with '']'' ?t" by (simp add: ends_with_def)
  have parts: "take (length n) ?t = n" "length n + Suc (length (join '','' as)) = length ?t - 1"
      "take (length ?t - 1 - (length n + 1)) (drop (length n + 1) ?t) = join '','' as"
    by simp_all
  show ?thesis
    by (simp only: parse_type_ref.simps [of ?t] strip sw fn find ends close parts Let_def if_True
        if_False option.case read_name [OF n] split_top_level_join [OF as] rbind_simps
        simp_thms)
qed

lemma read_function:
  assumes ps: "\<forall>p \<in> set ps. textual p" and s: "textual s"
    and sfx: "sfx = (if fallible then '' err'' else [])"
    and amb: "\<not> fallible \<Longrightarrow> \<not> ends_with '' err'' s"
  shows "parse_type_ref (''fn('' @ join '','' ps @ '')->'' @ s @ sfx) =
    rbind (rmap parse_type_ref ps) (\<lambda>ps'. rbind (parse_type_ref s) (\<lambda>r. Inr (FunctionType ps' r fallible)))"
proof -
  let ?t = "''fn('' @ join '','' ps @ '')->'' @ s @ sfx"
  have "textual ?t" using textual_function [OF ps s] sfx by simp
  then have strip: "py_strip ?t = ?t" by (simp add: textual_def solid_strip)
  have "skips CHR ''('' CHR '')'' (join '','' ps)"
    using balanced_join [of ps] ps by (auto simp: textual_def balanced_def)
  then have close: "find_matching CHR ''('' CHR '')'' 0 (drop 2 ?t) = Some (Suc (length (join '','' ps)))"
    using find_matching_wrap [of "CHR ''(''" "CHR '')''" "join '','' ps" "''->'' @ s @ sfx"] by simp
  have sols: "py_strip s = s" "py_strip (s @ sfx) = s @ sfx"
    using s sfx by (auto simp: textual_def solid_strip solid_def)
  have fal: "ends_with '' err'' (s @ sfx) = fallible"
    using sfx amb by (auto simp: ends_with_conv)
  have params: "(if join '','' ps = [] then [] else split_top_level (join '','' ps)) = ps"
    using split_top_level_join [OF ps] join_nonempty [of ps] ps by (auto simp: textual_def solid_def)
  have parts: "take (Suc (length (join '','' ps)) + 2 - 3) (drop 3 ?t) = join '','' ps"
      "drop (Suc (length (join '','' ps)) + 2 + 1) ?t = ''->'' @ s @ sfx"
      "drop (Suc (length (join '','' ps)) + 2 + 3) ?t = s @ sfx"
    by (simp_all add: numeral_eq_Suc)
  have ret: "(if fallible then py_strip (take (length (s @ sfx) - 4) (s @ sfx)) else s @ sfx) = s"
    using sfx sols by simp
  have sw: "\<not> starts_with ''?*'' ?t" "\<not> starts_with ''*'' ?t" "\<not> starts_with ''[]'' ?t"
      "\<not> starts_with ''['' ?t" "starts_with ''fn('' ?t" "starts_with ''->'' (''->'' @ s @ sfx)"
    by simp_all
  show ?thesis
    by (simp only: parse_type_ref.simps [of ?t] strip sw close parts sols fal params ret Let_def if_False
        if_True option.case not_True_eq_False)
qed

lemma type_round_trip: "wf_tref r \<Longrightarrow> parse_type_ref (format_type_ref r) = Inr r"
proof (induction r rule: wf_tref.induct)
  case (1 n)
  then show ?case by (simp add: read_name)
next
  case (2 r b)
  then have "solid (format_type_ref r)" using textual_format by (simp add: textual_def)
  with 2 show ?case using read_pointer [of "format_type_ref r" b] by simp
next
  case (3 r)
  then have "solid (format_type_ref r)" using textual_format by (simp add: textual_def)
  with 3 show ?case using read_slice [of "format_type_ref r"] by simp
next
  case (4 n r)
  then have "solid (format_type_ref r)" using textual_format by (simp add: textual_def)
  with 4 show ?case using read_array [of "format_type_ref r" n] by simp
next
  case (5 ps r f)
  let ?ps = "map format_type_ref ps"
  have "rmap parse_type_ref ?ps = Inr (map id ps)"
    unfolding rmap_comp by (rule rmap_map_Inr) (use 5 in simp)
  moreover have "\<forall>p \<in> set ?ps. textual p" and "textual (format_type_ref r)"
    and "\<not> f \<Longrightarrow> \<not> ends_with '' err'' (format_type_ref r)"
    using 5 by (simp_all add: textual_format ends_err_iff)
  ultimately show ?case
    using read_function [of ?ps "format_type_ref r" _ f] 5 by simp
next
  case (6 n as)
  let ?as = "map format_type_ref as"
  have "rmap parse_type_ref ?as = Inr (map id as)"
    unfolding rmap_comp by (rule rmap_map_Inr) (use 6 in simp)
  moreover have "\<forall>p \<in> set ?as. textual p" using 6 by (simp add: textual_format)
  ultimately show ?case
    using read_generic [of n ?as] 6 by simp
qed simp_all

subsection \<open>Only two exceptions\<close>

definition type_exn :: "'a res \<Rightarrow> bool" where
  "type_exn m \<longleftrightarrow> (\<forall>e. m = Inl e \<longrightarrow> (\<exists>msg. e = TypeParseError msg) \<or> e = ValueError)"

lemma type_exn_intros:
  "type_exn (Inr x)" "type_exn (Inl (TypeParseError msg))" "type_exn (Inl ValueError)"
  "type_exn m \<Longrightarrow> (\<And>x. type_exn (f x)) \<Longrightarrow> type_exn (rbind m f)"
  "(b \<Longrightarrow> type_exn m) \<Longrightarrow> (\<not> b \<Longrightarrow> type_exn m') \<Longrightarrow> type_exn (if b then m else m')"
  "(v = None \<Longrightarrow> type_exn m) \<Longrightarrow> (\<And>x. v = Some x \<Longrightarrow> type_exn (g x)) \<Longrightarrow>
     type_exn (case v of None \<Rightarrow> m | Some x \<Rightarrow> g x)"
  by (auto simp: type_exn_def rbind_eq_Inl split: option.split)

lemma type_exn_rmap: "(\<And>x. x \<in> set xs \<Longrightarrow> type_exn (f x)) \<Longrightarrow> type_exn (rmap f xs)"
  using rmap_Inl unfolding type_exn_def by fastforce

lemma type_exn_py_int: "type_exn (py_int s)"
  by (auto simp: type_exn_def py_int_def Let_def split: option.splits)

lemma parse_type_ref_exn: "type_exn (parse_type_ref s)"
proof (induction s rule: length_induct)
  case (1 t0)
  have IH: "type_exn (parse_type_ref s)" if "length s < length (py_strip t0)" for s
    using 1 that strip_less by blast
  show ?case
    apply (subst parse_type_ref.simps)
    apply (simp only: Let_def)
    apply (intro type_exn_intros type_exn_rmap type_exn_py_int IH)
    subgoal by (auto simp: starts_with_conv)
    subgoal by (auto simp: starts_with_conv)
    subgoal by (auto simp: starts_with_conv)
    subgoal by (auto simp: starts_with_conv)
    subgoal by (rule fn_param_less [OF _ refl])
    subgoal for k by (rule fn_ret_less [where i = "k + 4"]) simp_all
    subgoal by (auto dest: find_char_Some)
    subgoal by (rule type_arg_less) (auto dest: find_char_Some)
    done
qed

subsection \<open>The properties\<close>

text \<open>A key that is a plain name is the key of a named type.\<close>

lemma key_not_name: "(\<forall>n. t \<noteq> NamedType n) \<Longrightarrow> \<not> type_name_ok (type_key t)"
  by (cases t) (auto simp: type_name_ok_def type_key_def name_char_def ident_char_def py_char_defs)

text \<open>
  C5: reading the canonical text of a well-formed type gives that type back, so the string keys
  the compiler passes between its phases lose nothing.
\<close>

theorem type_text:
  "wf_tref r \<Longrightarrow> parse_type_ref (format_type_ref r) = Inr r"
  by (rule type_round_trip)

lemma type_text_witness:
  "parse_type_ref (format_type_ref
     (FunctionType [PointerType (NamedType ''Node'') True, ArrayTypeRef 4 (NamedType ''i32'')]
        (GenericType (NamedType ''Box'') [SliceType (NamedType ''u8''), NamedType ''str'']) True))
   = Inr (FunctionType [PointerType (NamedType ''Node'') True, ArrayTypeRef 4 (NamedType ''i32'')]
        (GenericType (NamedType ''Box'') [SliceType (NamedType ''u8''), NamedType ''str'']) True)"
  by (rule type_text) (simp add: type_name_ok_def name_char_def ident_char_def py_char_defs show_int_def
      show_nat.simps)

text \<open>
  C6: on well-formed types, equality of keys (the equality the type checker uses everywhere) is
  equality of types.
\<close>

theorem type_identity:
  assumes "wf_tref a" and "wf_tref b"
  shows "same_type a b \<longleftrightarrow> a = b"
proof
  assume "same_type a b"
  then have "parse_type_ref (format_type_ref a) = parse_type_ref (format_type_ref b)"
    by (simp add: same_type_def type_key_def)
  then show "a = b" using assms by (simp add: type_round_trip)
qed (simp add: same_type_def)

lemma type_identity_witness:
  "\<not> same_type (PointerType (NamedType ''T'') False) (PointerType (NamedType ''T'') True)"
  using type_identity [of "PointerType (NamedType ''T'') False" "PointerType (NamedType ''T'') True"]
  by (simp add: type_name_ok_def name_char_def ident_char_def py_char_defs)

text \<open>
  the key is ambiguous on function types whose result is itself a fallible function: the
  fallible function returning an infallible one and the infallible function returning a fallible
  one have the same key, they count as the same type, and reading the key back gives the first.
\<close>

theorem type_key_ambiguous:
  "let inner_err = FunctionType [] (FunctionType [] (NamedType ''i32'') True) False;
       outer_err = FunctionType [] (FunctionType [] (NamedType ''i32'') False) True
   in same_type inner_err outer_err \<and> inner_err \<noteq> outer_err
     \<and> is_fallible_fn_type inner_err \<noteq> is_fallible_fn_type outer_err
     \<and> parse_type_ref (type_key inner_err) = Inr outer_err"
proof -
  have "parse_type_ref (format_type_ref (FunctionType [] (FunctionType [] (NamedType ''i32'') False) True))
      = Inr (FunctionType [] (FunctionType [] (NamedType ''i32'') False) True)"
    by (rule type_round_trip)
      (simp add: type_name_ok_def name_char_def ident_char_def py_char_defs)
  then show ?thesis by (simp add: Let_def same_type_def type_key_def)
qed

text \<open>
  \<open>parse_type_ref\<close> fails only with \<open>TypeParseError\<close> or, on an array length that is not a
  number, with the \<open>ValueError\<close> of \<open>int\<close>; and the second escapes the handler of
  \<open>TypeRefBase.__eq__\<close>.
\<close>

theorem parse_type_ref_errors:
  "(\<forall>e. parse_type_ref s = Inl e \<longrightarrow> (\<exists>m. e = TypeParseError m) \<or> e = ValueError)
   \<and> eq_text r ''[n]i32'' = Inl ValueError"
proof -
  have "parse_type_ref ''[n]i32'' = Inl ValueError"
    by (simp add: parse_type_ref.simps py_strip_def py_lstrip_def py_rstrip_def py_isspace_def py_int_def
        int_space_def ascii_digit_def)
  then have "eq_text r ''[n]i32'' = Inl ValueError"
    by (simp add: eq_text_def type_key_text_def)
  with parse_type_ref_exn [of s] show ?thesis by (simp add: type_exn_def)
qed

lemma parse_type_ref_errors_witness:
  "\<exists>e. parse_type_ref ''fn(i32'' = Inl e \<and> ((\<exists>m. e = TypeParseError m) \<or> e = ValueError)"
proof -
  have e: "parse_type_ref ''fn(i32'' = Inl (TypeParseError ''unclosed ( in type fn(i32'')"
    by (simp add: parse_type_ref.simps py_strip_def py_lstrip_def py_rstrip_def py_isspace_def)
  from conjunct1 [OF parse_type_ref_errors, rule_format, OF e] e show ?thesis by blast
qed

end
