(* ===== verification/Ast.thy ===== *)
theory Ast
  imports TypeRef
begin

text \<open>
  \<open>compiler/ast.py\<close>: the syntax tree. One constructor per node class, with the arguments of
  \<open>__init__\<close> in its order; an optional argument is an option. A node class the parser gives a
  source range starts with its \<open>span\<close> (absent when the attribute was never set). The fields that
  the constructors initialise to \<open>None\<close>, \<open>[]\<close> or \<open>False\<close> and that only later phases write
  (\<open>type\<close>, \<open>fallible\<close>, \<open>captures\<close>, overload data) are results of those phases and not part of the
  parsed tree.
\<close>

type_synonym span = "(nat \<times> nat) option"

datatype 'n param = Param (pname: string) (ptype: "tref option") (pdefault: "'n option")

datatype 'n block = Block (statements: "'n list")

text \<open>
  \<open>fields\<close>, \<open>arms\<close> and \<open>entries\<close> are the code's lists of pairs; a missing pattern is \<open>else\<close>. The
  set \<open>embedded_fields\<close> and the dict \<open>type_param_constraints\<close> are lists in insertion order.
\<close>

datatype (plugins only: size code) node =
    ImportDecl span string
  | VariableDeclaration span string node "tref option"
  | ExpressionStatement node
  | Assignment node node string
  | Update node string
  | ForCondition node "node block"
  | Break span
  | ForIn string "string option" "node option" "node block" "node option" "node option"
  | StructDecl string "(string \<times> tref) list" "string list" "(string \<times> string) list" "string list"
  | IfaceDecl string "(string \<times> node param list \<times> tref \<times> bool) list" "tref list"
  | TypeAlias span string tref
  | ExternBlock span "tokval option" "node list"
  | EnumDecl string "string list"
  | EnumRef string string
  | StructLiteral span string "(string \<times> node) list" bool
  | FieldAccess node string
  | ArrayLiteral span nat tref "node list"
  | SliceLiteral span "tref option" "node list"
  | MapLiteral span "tref option" "(node \<times> node) list"
  | IndexAccess node node "tref list option"
  | SliceExpr node node "node option"
  | ErrReturn span node
  | Defer span "node block"
  | SpawnStmt span node
  | TryStatement span node "node block" "string option" "string option" "node block option"
  | FunctionDeclaration string "node param list" "tref option" "node block" "string option"
      "tref option" bool "string list" "(string \<times> string) list" bool "tokval option" bool "tokval option"
  | FunctionExpr span "node param list" "tref option" "node block" bool bool
  | GenericFunctionValue string "tref list"
  | Return span "node option"
  | FallibleOp span node string
  | ErrorHandlerExpr span node string "node block"
  | ErrorMatchExpr span node string "(node option \<times> node) list"
  | IfExpr span node "node block" "node block option"
  | BlockExpr span "node block"
  | MatchExpr span node "(node option \<times> node) list"
  | StringLiteral span ustr
  | InterpolatedString span "node list"
  | RuneLiteral span nat
  | IntegerLiteral span nat "string option"
  | FloatLiteral span string "string option"
  | BoolLiteral span bool
  | NilLiteral span
  | MagicConst span string
  | BinaryOp node string node
  | UnaryOp string node
  | FunctionCall span string "node list" "tref list"
  | SizeOfType span tref
  | MethodCall span node string "node list"
  | Identifier span string "tref list"

text \<open>\<open>getattr(node, "span", ...)\<close>: the range, when the parser set one.\<close>

fun span_of :: "node \<Rightarrow> span" where
  "span_of (ImportDecl sp _) = sp"
| "span_of (VariableDeclaration sp _ _ _) = sp"
| "span_of (Break sp) = sp"
| "span_of (TypeAlias sp _ _) = sp"
| "span_of (ExternBlock sp _ _) = sp"
| "span_of (StructLiteral sp _ _ _) = sp"
| "span_of (ArrayLiteral sp _ _ _) = sp"
| "span_of (SliceLiteral sp _ _) = sp"
| "span_of (MapLiteral sp _ _) = sp"
| "span_of (ErrReturn sp _) = sp"
| "span_of (Defer sp _) = sp"
| "span_of (SpawnStmt sp _) = sp"
| "span_of (TryStatement sp _ _ _ _ _) = sp"
| "span_of (FunctionExpr sp _ _ _ _ _) = sp"
| "span_of (Return sp _) = sp"
| "span_of (FallibleOp sp _ _) = sp"
| "span_of (ErrorHandlerExpr sp _ _ _) = sp"
| "span_of (ErrorMatchExpr sp _ _ _) = sp"
| "span_of (IfExpr sp _ _ _) = sp"
| "span_of (BlockExpr sp _) = sp"
| "span_of (MatchExpr sp _ _) = sp"
| "span_of (StringLiteral sp _) = sp"
| "span_of (InterpolatedString sp _) = sp"
| "span_of (RuneLiteral sp _) = sp"
| "span_of (IntegerLiteral sp _ _) = sp"
| "span_of (FloatLiteral sp _ _) = sp"
| "span_of (BoolLiteral sp _) = sp"
| "span_of (NilLiteral sp) = sp"
| "span_of (MagicConst sp _) = sp"
| "span_of (FunctionCall sp _ _ _) = sp"
| "span_of (SizeOfType sp _) = sp"
| "span_of (MethodCall sp _ _ _) = sp"
| "span_of (Identifier sp _ _) = sp"
| "span_of _ = None"

end
