(* ===== verification/Parser.thy ===== *)
theory Parser
  imports Ast LexerProps
begin

text \<open>
  \<open>compiler/parser.py\<close>: the recursive descent parser. A parsing method is a function of the
  parser's fixed data (the tokens and the imported modules) and of \<open>self.pos\<close>, which it returns
  moved. Each method of the class is one definition here; the methods that call each other in a
  cycle go through the record \<open>procs\<close> of recursive calls, which \<open>knot\<close> closes with a fuel. The
  while loops use the same fuel. \<open>ParserProps\<close> shows that the fuel \<open>parse\<close> starts with is
  never used up. In the texts of \<open>ParseError\<close> the quotation of the offending token is left out.
\<close>

subsection \<open>The cursor\<close>

record penv =
  ptokens :: "token list"
  imported_modules :: "string list"

type_synonym 'a parser = "penv \<Rightarrow> nat \<Rightarrow> ('a \<times> nat) res"

definition preturn :: "'a \<Rightarrow> 'a parser" where
  "preturn x = (\<lambda>env pos. Inr (x, pos))"

definition pfail :: "exn \<Rightarrow> 'a parser" where
  "pfail e = (\<lambda>env pos. Inl e)"

definition pbind :: "'a parser \<Rightarrow> ('a \<Rightarrow> 'b parser) \<Rightarrow> 'b parser" where
  "pbind m f = (\<lambda>env pos. rbind (m env pos) (\<lambda>(x, p). f x env p))"

definition pthen :: "'a parser \<Rightarrow> 'b parser \<Rightarrow> 'b parser" where
  "pthen m k = pbind m (\<lambda>_. k)"

definition perror :: "string \<Rightarrow> 'a parser" where
  "perror msg = pfail (ParseError msg)"

definition peek :: "token parser" where
  "peek = (\<lambda>env pos. if pos < length (ptokens env) then Inr (ptokens env ! pos, pos) else Inl IndexError)"

definition advance :: "token parser" where
  "advance =
     (\<lambda>env pos. if pos < length (ptokens env) then Inr (ptokens env ! pos, Suc pos) else Inl IndexError)"

definition expect :: "tokkind \<Rightarrow> token parser" where
  "expect k = pbind peek (\<lambda>t. if tkind t \<noteq> k then perror ''Expected'' else advance)"

text \<open>\<open>match\<close>.\<close>

definition pmatch :: "tokkind \<Rightarrow> bool parser" where
  "pmatch k = pbind peek (\<lambda>t. if tkind t = k then pthen advance (preturn True) else preturn False)"

text \<open>\<open>if self.peek().kind == k: a else: b\<close>, and the same for a set of kinds.\<close>

definition when_kinds :: "tokkind list \<Rightarrow> 'a parser \<Rightarrow> 'a parser \<Rightarrow> 'a parser" where
  "when_kinds ks a b = pbind peek (\<lambda>t. if tkind t \<in> set ks then a else b)"

abbreviation when_kind :: "tokkind \<Rightarrow> 'a parser \<Rightarrow> 'a parser \<Rightarrow> 'a parser" where
  "when_kind k \<equiv> when_kinds [k]"

text \<open>A test of the kinds of the tokens ahead, as \<open>self.tokens[self.pos + 1]\<close> with its bounds check.\<close>

definition when_ahead :: "(tokkind list \<Rightarrow> bool) \<Rightarrow> 'a parser \<Rightarrow> 'a parser \<Rightarrow> 'a parser" where
  "when_ahead c a b =
     (\<lambda>env pos. if c (map tkind (drop pos (ptokens env))) then a env pos else b env pos)"

definition nth_kind :: "nat \<Rightarrow> tokkind \<Rightarrow> tokkind list \<Rightarrow> bool" where
  "nth_kind i k ks \<longleftrightarrow> i < length ks \<and> ks ! i = k"

text \<open>The value of a token, by the shape the lexer gives it.\<close>

definition text_value :: "token \<Rightarrow> string parser" where
  "text_value t = (case tvalue t of VText s \<Rightarrow> preturn s | _ \<Rightarrow> pfail AttributeError)"

definition int_value :: "token \<Rightarrow> (nat \<times> string option) parser" where
  "int_value t = (case tvalue t of VInt n s \<Rightarrow> preturn (n, s) | _ \<Rightarrow> pfail AttributeError)"

definition expect_text :: "tokkind \<Rightarrow> string parser" where
  "expect_text k = pbind (expect k) text_value"

definition advance_text :: "string parser" where
  "advance_text = pbind advance text_value"

text \<open>\<open>self.tokens[self.pos - 1].pos\<close> and \<open>span\<close>.\<close>

definition end_pos :: "nat parser" where
  "end_pos = (\<lambda>env pos. Inr (tpos (if pos = 0 then last (ptokens env) else ptokens env ! (pos - 1)), pos))"

definition spanned :: "nat \<Rightarrow> (span \<Rightarrow> 'a) \<Rightarrow> 'a parser" where
  "spanned start mk = pbind end_pos (\<lambda>e. preturn (mk (Some (start, e))))"

text \<open>\<open>try: m except ParseError: None\<close>, with the position put back in either case.\<close>

definition lookahead :: "'a parser \<Rightarrow> ('a \<times> tokkind) option parser" where
  "lookahead m = (\<lambda>env pos.
     case pbind m (\<lambda>x. pbind peek (\<lambda>t. preturn (x, tkind t))) env pos of
       Inr (r, _) \<Rightarrow> Inr (Some r, pos)
     | Inl (ParseError _) \<Rightarrow> Inr (None, pos)
     | Inl e \<Rightarrow> Inl e)"

text \<open>Parse and forget the move: \<open>save = self.pos; ...; self.pos = save\<close>.\<close>

definition rewound :: "'a parser \<Rightarrow> 'a parser" where
  "rewound m = (\<lambda>env pos. rbind (m env pos) (\<lambda>(x, _). Inr (x, pos)))"

subsection \<open>Recursive calls and loops\<close>

record procs =
  p_fuel :: nat
  p_type :: "tref parser"
  p_expr :: "node parser"
  p_unary :: "node parser"
  p_primary :: "node parser"
  p_stmt :: "node parser"

text \<open>\<open>_parse_comma_list\<close>.\<close>

primrec comma_loop :: "nat \<Rightarrow> tokkind \<Rightarrow> 'a parser \<Rightarrow> 'a list parser" where
  "comma_loop 0 e item = pfail OutOfFuel"
| "comma_loop (Suc n) e item =
     pbind item (\<lambda>x.
       when_kind COMMA
         (pthen advance
            (when_kind e (preturn [x]) (pbind (comma_loop n e item) (\<lambda>xs. preturn (x # xs)))))
         (preturn [x]))"

definition comma_list :: "procs \<Rightarrow> tokkind \<Rightarrow> 'a parser \<Rightarrow> 'a list parser" where
  "comma_list P e item = when_kind e (preturn []) (comma_loop (p_fuel P) e item)"

text \<open>\<open>while self.peek().kind not in ks: items.append(item())\<close>.\<close>

primrec until_loop :: "nat \<Rightarrow> tokkind list \<Rightarrow> 'a parser \<Rightarrow> 'a list parser" where
  "until_loop 0 ks item = pfail OutOfFuel"
| "until_loop (Suc n) ks item =
     when_kinds ks (preturn []) (pbind item (\<lambda>x. pbind (until_loop n ks item) (\<lambda>xs. preturn (x # xs))))"

text \<open>\<open>while self.peek().kind in ks: op = ...; right = operand(); left = BinaryOp(left, op, right)\<close>.\<close>

primrec binary_loop :: "nat \<Rightarrow> tokkind list \<Rightarrow> node parser \<Rightarrow> node \<Rightarrow> node parser" where
  "binary_loop 0 ks operand left = pfail OutOfFuel"
| "binary_loop (Suc n) ks operand left =
     when_kinds ks
       (pbind advance_text (\<lambda>op.
        pbind operand (\<lambda>right. binary_loop n ks operand (BinaryOp left op right))))
       (preturn left)"

definition binary :: "procs \<Rightarrow> tokkind list \<Rightarrow> node parser \<Rightarrow> node parser" where
  "binary P ks operand = pbind operand (binary_loop (p_fuel P) ks operand)"

subsection \<open>Types and parameters\<close>

text \<open>The \<open>[\<close> and \<open>INTEGER ]\<close> that type and literal share: the length, if there is one.\<close>

definition parse_array_length :: "nat option parser" where
  "parse_array_length =
     pbind (when_kind RBRACKET (preturn None)
              (pbind (expect INTEGER) (\<lambda>t. pbind (int_value t) (\<lambda>(len, suffix).
                 if suffix \<noteq> None then perror ''array length literal cannot have a type suffix''
                 else preturn (Some len)))))
       (\<lambda>len. pthen (expect RBRACKET) (preturn len))"

definition parse_type_arg_list :: "procs \<Rightarrow> tref list parser" where
  "parse_type_arg_list P =
     pthen (expect LBRACKET)
       (pbind (comma_list P RBRACKET (p_type P)) (\<lambda>args. pthen (expect RBRACKET) (preturn args)))"

text \<open>\<open>name\<close> or \<open>module.name\<close>.\<close>

definition parse_dotted :: "string \<Rightarrow> string parser" where
  "parse_dotted name =
     when_kind DOT
       (pthen advance (pbind (expect_text IDENT) (\<lambda>member. preturn (name @ ''.'' @ member))))
       (preturn name)"

definition parse_type :: "procs \<Rightarrow> tref parser" where
  "parse_type P =
     when_kind (Op QUESTION)
       (pthen advance (pthen (expect (Op STAR)) (pbind (p_type P) (\<lambda>r. preturn (PointerType r True)))))
     (when_kind (Kw FUN)
       (pthen advance (pthen (expect LPAREN)
          (pbind (comma_list P RPAREN (p_type P)) (\<lambda>params.
           pthen (expect RPAREN)
             (pbind (p_type P) (\<lambda>r. pbind (pmatch (Kw ERR)) (\<lambda>fallible.
              preturn (FunctionType params r fallible))))))))
     (when_kind (Op STAR)
       (pthen advance (pbind (p_type P) (\<lambda>r. preturn (PointerType r False))))
     (when_kind LBRACKET
       (pthen advance (pbind parse_array_length (\<lambda>len. pbind (p_type P) (\<lambda>elem.
          preturn (case len of None \<Rightarrow> SliceType elem | Some n \<Rightarrow> ArrayTypeRef (int n) elem)))))
       (pbind (expect_text IDENT) (\<lambda>first. pbind (parse_dotted first) (\<lambda>name.
          when_kind LBRACKET
            (pbind (parse_type_arg_list P) (\<lambda>args. preturn (GenericType (NamedType name) args)))
            (preturn (NamedType name))))))))"

text \<open>\<open>_parse_type_params\<close>; the constraints are those of \<open>compiler/constraints.py\<close>.\<close>

definition KNOWN_CONSTRAINTS :: "string list" where
  "KNOWN_CONSTRAINTS = [''any'', ''types.Eq'', ''types.Ord'', ''types.Hash'', ''types.Zero'']"

definition parse_type_param :: "(string \<times> string) parser" where
  "parse_type_param =
     pbind (expect_text IDENT) (\<lambda>name.
     pbind (when_kind IDENT
              (pbind advance_text (\<lambda>first. pbind (parse_dotted first) (\<lambda>c.
                 if c \<notin> set KNOWN_CONSTRAINTS then perror ''unknown generic constraint'' else preturn c)))
              (preturn ''any''))
       (\<lambda>c. preturn (name, c)))"

definition parse_type_params :: "procs \<Rightarrow> (string list \<times> (string \<times> string) list) parser" where
  "parse_type_params P =
     when_kind LBRACKET
       (pthen advance
          (pbind (comma_list P RBRACKET parse_type_param) (\<lambda>ps.
           pthen (expect RBRACKET)
             (preturn (map fst ps, foldl (\<lambda>d (name, c). dict_set name c d) [] ps)))))
       (preturn ([], []))"

definition parse_param :: "procs \<Rightarrow> bool \<Rightarrow> node param parser" where
  "parse_param P allow_default =
     pbind (expect_text IDENT) (\<lambda>name.
     pbind (when_kind COLON (pthen advance (pbind (parse_type P) (\<lambda>r. preturn (Some r))))
              (when_kind (Op EQ) (preturn None)
                 (perror ''parameter type is required unless a default value is provided''))) (\<lambda>ty.
     pbind (when_kind (Op EQ)
              (if \<not> allow_default then perror ''default parameters are not supported here''
               else pthen advance (pbind (p_expr P) (\<lambda>e. preturn (Some e))))
              (preturn None)) (\<lambda>dflt.
     if ty = None \<and> dflt = None
     then perror ''parameter type is required unless a default value is provided''
     else preturn (Param name ty dflt))))"

definition parse_param_list :: "procs \<Rightarrow> bool \<Rightarrow> node param list parser" where
  "parse_param_list P allow_default =
     comma_list P RPAREN
       (if allow_default then parse_param P True
        else when_kinds [DOT, DOTDOT] (perror ''extern v1 does not support varargs'') (parse_param P False))"

text \<open>\<open>(params)\<close>, then \<open>: type\<close> and \<open>err\<close> if they are there.\<close>

definition parse_signature ::
  "procs \<Rightarrow> bool \<Rightarrow> (node param list \<times> tref option \<times> bool) parser" where
  "parse_signature P allow_default =
     pthen (expect LPAREN)
       (pbind (parse_param_list P allow_default) (\<lambda>params.
        pthen (expect RPAREN)
          (pbind (when_kind COLON (pthen advance (pbind (parse_type P) (\<lambda>r. preturn (Some r))))
                    (preturn None)) (\<lambda>ret.
           pbind (pmatch (Kw ERR)) (\<lambda>fallible. preturn (params, ret, fallible))))))"

subsection \<open>Blocks and functions\<close>

definition parse_block :: "procs \<Rightarrow> node block parser" where
  "parse_block P =
     pthen (expect LBRACE)
       (pbind (until_loop (p_fuel P) [RBRACE, EOF] (p_stmt P)) (\<lambda>stmts.
        pthen (expect RBRACE) (preturn (Block stmts))))"

text \<open>Whether \<open>return_type_explicit\<close> holds is whether the type is there.\<close>

definition parse_function :: "procs \<Rightarrow> node parser" where
  "parse_function P =
     pthen advance
       (pbind (when_kind LPAREN
                 (pthen advance
                    (pbind (expect_text IDENT) (\<lambda>rname.
                     pthen (expect (Op STAR))
                       (pbind (parse_type P) (\<lambda>rtype.
                        pthen (expect RPAREN) (preturn (Some (rname, PointerType rtype False))))))))
                 (preturn None)) (\<lambda>receiver.
        pbind (expect_text IDENT) (\<lambda>name.
        pbind (parse_type_params P) (\<lambda>(type_params, constraints).
        pbind (parse_signature P True) (\<lambda>(params, ret, fallible).
        pbind (parse_block P) (\<lambda>body.
        pthen (pmatch SEMI)
          (preturn (FunctionDeclaration name params ret body (map_option fst receiver)
             (map_option snd receiver) (ret \<noteq> None) type_params constraints fallible None False None))))))))"

definition parse_function_signature_only :: "procs \<Rightarrow> tokval option \<Rightarrow> node parser" where
  "parse_function_signature_only P lib =
     pthen advance
       (when_kind LPAREN (perror ''extern methods are not supported'')
          (pbind (expect_text IDENT) (\<lambda>name.
           pbind (parse_type_params P) (\<lambda>(type_params, constraints).
           if type_params \<noteq> [] then perror ''generic extern functions are not supported''
           else
             pbind (parse_signature P False) (\<lambda>(params, ret, fallible).
             pbind (when_kind (Op EQ)
                      (pthen advance (pbind (expect STRING) (\<lambda>t. preturn (Some (tvalue t)))))
                      (preturn None)) (\<lambda>symbol.
             when_kind LBRACE (perror ''extern function bodies are not supported'')
               (preturn (FunctionDeclaration name params ret (Block []) None None (ret \<noteq> None)
                  [] [] fallible symbol True lib))))))))"

definition parse_function_expr :: "procs \<Rightarrow> nat \<Rightarrow> node parser" where
  "parse_function_expr P start =
     pbind (parse_signature P False) (\<lambda>(params, ret, fallible).
     pbind (parse_block P) (\<lambda>body.
     spanned start (\<lambda>sp. FunctionExpr sp params ret body (ret \<noteq> None) fallible)))"

subsection \<open>Statements that are also expressions\<close>

definition parse_return :: "procs \<Rightarrow> node parser" where
  "parse_return P =
     pbind advance (\<lambda>start.
     pbind (when_kinds [SEMI, RBRACE] (preturn None) (pbind (p_expr P) (\<lambda>e. preturn (Some e)))) (\<lambda>e.
     pbind (spanned (tpos start) (\<lambda>sp. Return sp e)) (\<lambda>stmt.
     pthen (pmatch SEMI) (preturn stmt))))"

definition parse_err_return :: "procs \<Rightarrow> node parser" where
  "parse_err_return P =
     pbind advance (\<lambda>start.
     pbind (p_expr P) (\<lambda>e.
     pthen (pmatch SEMI) (spanned (tpos start) (\<lambda>sp. ErrReturn sp e))))"

subsection \<open>Lists of expressions\<close>

definition parse_call_args :: "procs \<Rightarrow> node list parser" where
  "parse_call_args P = comma_list P RPAREN (p_expr P)"

definition parse_struct_literal_fields :: "procs \<Rightarrow> (string \<times> node) list parser" where
  "parse_struct_literal_fields P =
     comma_list P RBRACE
       (pbind (expect_text IDENT) (\<lambda>fname.
        pthen (expect COLON) (pbind (p_expr P) (\<lambda>e. preturn (fname, e)))))"

definition parse_map_literal_entries :: "procs \<Rightarrow> (node \<times> node) list parser" where
  "parse_map_literal_entries P =
     comma_list P RBRACE
       (pbind (p_expr P) (\<lambda>key.
        pthen (expect COLON) (pbind (p_expr P) (\<lambda>e. preturn (key, e)))))"

definition parse_match_arm :: "procs \<Rightarrow> (node option \<times> node) parser" where
  "parse_match_arm P =
     pbind (when_kind (Kw ELSE) (pthen advance (preturn None))
              (pbind (p_expr P) (\<lambda>e. preturn (Some e)))) (\<lambda>pattern.
     pthen (expect ARROW)
       (pbind (p_expr P) (\<lambda>body. pthen (pmatch SEMI) (preturn (pattern, body)))))"

definition parse_match_arms :: "procs \<Rightarrow> (node option \<times> node) list parser" where
  "parse_match_arms P =
     pthen (expect LBRACE)
       (pbind (until_loop (p_fuel P) [RBRACE] (parse_match_arm P)) (\<lambda>arms.
        pthen (expect RBRACE) (preturn arms)))"

subsection \<open>Primary expressions\<close>

text \<open>
  \<open>_token_after_matching_bracket\<close> and \<open>_matching_bracket_contains\<close> scan the tokens from the
  position on. The first gives the token after the bracket that closes the first one, or the
  closing bracket itself at the very end, or the first token when nothing closes it.
\<close>

fun after_bracket :: "int \<Rightarrow> tokkind list \<Rightarrow> tokkind option" where
  "after_bracket depth [] = None"
| "after_bracket depth (k # ks) =
     (if k = LBRACKET then after_bracket (depth + 1) ks
      else if k = RBRACKET then
        (if depth - 1 = 0 then Some (case ks of k' # _ \<Rightarrow> k' | [] \<Rightarrow> k) else after_bracket (depth - 1) ks)
      else after_bracket depth ks)"

definition token_after_matching_bracket :: "tokkind list \<Rightarrow> tokkind option" where
  "token_after_matching_bracket ks =
     (case after_bracket 0 ks of
        Some k \<Rightarrow> Some k
      | None \<Rightarrow> (case ks of k # _ \<Rightarrow> Some k | [] \<Rightarrow> None))"

fun matching_bracket_contains :: "tokkind \<Rightarrow> int \<Rightarrow> tokkind list \<Rightarrow> bool" where
  "matching_bracket_contains target depth [] = False"
| "matching_bracket_contains target depth (k # ks) =
     (if k = LBRACKET then matching_bracket_contains target (depth + 1) ks
      else if k = RBRACKET then
        (depth - 1 \<noteq> 0 \<and> matching_bracket_contains target (depth - 1) ks)
      else if depth = 1 \<and> k = target then True
      else matching_bracket_contains target depth ks)"

definition parse_if :: "procs \<Rightarrow> node parser" where
  "parse_if P =
     pbind advance (\<lambda>start.
     pbind (p_expr P) (\<lambda>condition.
     pbind (parse_block P) (\<lambda>then_block.
     pbind (when_kind (Kw ELSE)
              (pthen advance
                 (when_kind (Kw IF)
                    (pbind (p_primary P) (\<lambda>e. preturn (Some (Block [ExpressionStatement e]))))
                    (pbind (parse_block P) (\<lambda>b. preturn (Some b)))))
              (preturn None)) (\<lambda>else_block.
     spanned (tpos start) (\<lambda>sp. IfExpr sp condition then_block else_block)))))"

definition parse_match :: "procs \<Rightarrow> node parser" where
  "parse_match P =
     pbind advance (\<lambda>start.
     pbind (p_expr P) (\<lambda>scrutinee.
     pbind (parse_match_arms P) (\<lambda>arms.
     spanned (tpos start) (\<lambda>sp. MatchExpr sp scrutinee arms))))"

text \<open>
  \<open>_parse_interpolated_parts\<close>: an expression part is lexed and parsed by a parser of its own,
  with the same imported modules.
\<close>

definition parse_part :: "procs \<Rightarrow> string list \<Rightarrow> part \<Rightarrow> node res" where
  "parse_part P imports part =
     (case part of
        PLit s \<Rightarrow> Inr (StringLiteral None s)
      | PExpr s \<Rightarrow>
          rbind (lex s) (\<lambda>ts.
          rbind (pbind (p_expr P) (\<lambda>e. pthen (expect EOF) (preturn e))
                   \<lparr>ptokens = ts, imported_modules = imports\<rparr> 0)
            (\<lambda>(e, _). Inr e)))"

definition parse_interpolated_parts :: "procs \<Rightarrow> part list \<Rightarrow> node list parser" where
  "parse_interpolated_parts P raw_parts =
     (\<lambda>env pos. rbind (rmap (parse_part P (imported_modules env)) raw_parts) (\<lambda>ns. Inr (ns, pos)))"

definition parse_literal :: "procs \<Rightarrow> node parser" where
  "parse_literal P =
     pbind advance (\<lambda>t.
       case tvalue t of
         VInterp parts \<Rightarrow>
           pbind (parse_interpolated_parts P parts) (\<lambda>ns.
           spanned (tpos t) (\<lambda>sp. InterpolatedString sp ns))
       | VStr s \<Rightarrow> spanned (tpos t) (\<lambda>sp. StringLiteral sp s)
       | VInt n suffix \<Rightarrow> spanned (tpos t) (\<lambda>sp. IntegerLiteral sp n suffix)
       | VFloat digits suffix \<Rightarrow> spanned (tpos t) (\<lambda>sp. FloatLiteral sp digits suffix)
       | VBool b \<Rightarrow> spanned (tpos t) (\<lambda>sp. BoolLiteral sp b)
       | VChar c \<Rightarrow> spanned (tpos t) (\<lambda>sp. RuneLiteral sp c)
       | VText s \<Rightarrow> pfail AttributeError)"

text \<open>The name of a generic instance: the canonical text of the type.\<close>

definition generic_name :: "string \<Rightarrow> tref list \<Rightarrow> string" where
  "generic_name name args = format_type_ref (GenericType (NamedType name) args)"

definition parse_new :: "procs \<Rightarrow> node parser" where
  "parse_new P =
     pthen advance
       (pbind (expect_text IDENT) (\<lambda>first. pbind (parse_dotted first) (\<lambda>qname.
        pbind (when_kind LBRACKET
                 (pbind (parse_type_arg_list P) (\<lambda>args. preturn (generic_name qname args)))
                 (preturn qname)) (\<lambda>name.
        pthen (expect LBRACE)
          (pbind (parse_struct_literal_fields P) (\<lambda>fields.
           pthen (expect RBRACE) (preturn (StructLiteral None name fields True))))))))"

definition parse_bracket_literal :: "procs \<Rightarrow> node parser" where
  "parse_bracket_literal P =
     pbind advance (\<lambda>start.
     pbind parse_array_length (\<lambda>len.
     pbind (if len = None
            then when_kind LBRACE (preturn None) (pbind (parse_type P) (\<lambda>r. preturn (Some r)))
            else pbind (parse_type P) (\<lambda>r. preturn (Some r))) (\<lambda>elem_type.
     pthen (expect LBRACE)
       (pbind (comma_list P RBRACE (p_expr P)) (\<lambda>elements.
        pthen (expect RBRACE)
          (spanned (tpos start) (\<lambda>sp.
             case (len, elem_type) of
               (Some n, Some r) \<Rightarrow> ArrayLiteral sp n r elements
             | _ \<Rightarrow> SliceLiteral sp elem_type elements)))))))"

definition MAGIC_CONSTS :: "string list" where
  "MAGIC_CONSTS = [''__FILE__'', ''__LINE__'', ''__COL__'', ''__FUNC__'', ''__MODULE__'']"

text \<open>\<open>{ fields }\<close> of a struct literal, from the brace on.\<close>

definition parse_braced_fields :: "procs \<Rightarrow> nat \<Rightarrow> string \<Rightarrow> node parser" where
  "parse_braced_fields P start name =
     pthen advance
       (pbind (parse_struct_literal_fields P) (\<lambda>fields.
        pthen (expect RBRACE) (spanned start (\<lambda>sp. StructLiteral sp name fields False))))"

definition parse_enum_ref :: "string \<Rightarrow> node parser" where
  "parse_enum_ref name =
     pthen advance (pbind (expect_text IDENT) (\<lambda>variant. preturn (EnumRef name variant)))"

text \<open>
  The look past \<open>{\<close> that separates a struct literal from a block: \<open>}\<close> or \<open>IDENT :\<close> comes next.
\<close>

definition struct_literal_ahead :: "bool parser" where
  "struct_literal_ahead =
     rewound (pthen advance
       (when_kind RBRACE (preturn True)
          (when_kind IDENT (pthen advance (when_kind COLON (preturn True) (preturn False)))
             (preturn False))))"

definition parse_name_tail :: "procs \<Rightarrow> nat \<Rightarrow> string \<Rightarrow> node parser" where
  "parse_name_tail P start name =
     when_kind LBRACE
       (pbind struct_literal_ahead (\<lambda>is_struct.
          if is_struct then parse_braced_fields P start name
          else spanned start (\<lambda>sp. Identifier sp name [])))
       (spanned start (\<lambda>sp. Identifier sp name []))"

text \<open>
  \<open>name[...]\<close> before \<open>(\<close> or \<open>{\<close>: a generic call, a generic struct literal, or neither; in the last
  case the brackets are left to the postfix loop.
\<close>

definition parse_generic_name :: "procs \<Rightarrow> nat \<Rightarrow> string \<Rightarrow> node parser" where
  "parse_generic_name P start name = (\<lambda>env save.
     pbind (parse_type_arg_list P) (\<lambda>type_args.
       when_kind LPAREN
         (pthen advance
            (pbind (parse_call_args P) (\<lambda>args.
             pthen (expect RPAREN) (spanned start (\<lambda>sp. FunctionCall sp name args type_args)))))
         (when_kind LBRACE
            (pbind struct_literal_ahead (\<lambda>is_struct.
               if is_struct then parse_name_tail P start (generic_name name type_args)
               else (\<lambda>env _. parse_name_tail P start name env save)))
            (\<lambda>env _. parse_name_tail P start name env save))) env save)"

definition parse_name :: "procs \<Rightarrow> node parser" where
  "parse_name P =
     pbind advance (\<lambda>t. pbind (text_value t) (\<lambda>name. let start = tpos t in
       if name \<in> set MAGIC_CONSTS then spanned start (\<lambda>sp. MagicConst sp name)
       else
         when_ahead (\<lambda>ks. name = ''map'' \<and> nth_kind 0 LBRACKET ks
                       \<and> token_after_matching_bracket ks = Some LBRACE)
           (pbind (parse_type_arg_list P) (\<lambda>type_args.
            pthen (expect LBRACE)
              (pbind (parse_map_literal_entries P) (\<lambda>entries.
               pthen (expect RBRACE)
                 (spanned start (\<lambda>sp. MapLiteral sp (Some (GenericType (NamedType ''map'') type_args)) entries))))))
         (when_ahead (\<lambda>ks. name = ''map'' \<and> nth_kind 0 LBRACE ks)
           (pthen advance
              (when_kind RBRACE
                 (perror ''map literal: cannot infer key/value types from empty literal; use map[K,V]{}'')
                 (pbind (parse_map_literal_entries P) (\<lambda>entries.
                  pthen (expect RBRACE) (spanned start (\<lambda>sp. MapLiteral sp None entries))))))
         (when_ahead (\<lambda>ks. nth_kind 0 DOT ks \<and> nth_kind 1 IDENT ks
                       \<and> (nth_kind 2 COLONCOLON ks \<or> nth_kind 2 LBRACE ks))
           (pthen advance
              (pbind (expect_text IDENT) (\<lambda>member. let qname = name @ ''.'' @ member in
               when_kind COLONCOLON (parse_enum_ref qname)
                 (when_kind LBRACE (parse_braced_fields P start qname)
                    (spanned start (\<lambda>sp. Identifier sp qname []))))))
         (when_kind COLONCOLON (parse_enum_ref name)
         (when_ahead (\<lambda>ks. nth_kind 0 LBRACKET ks
                       \<and> (token_after_matching_bracket ks = Some LPAREN
                          \<or> token_after_matching_bracket ks = Some LBRACE))
           (parse_generic_name P start name)
           (parse_name_tail P start name)))))))"

definition parse_primary :: "procs \<Rightarrow> node parser" where
  "parse_primary P =
     pbind peek (\<lambda>t.
       if tkind t = Kw IF then parse_if P
       else if tkind t = Kw MATCH then parse_match P
       else if tkind t = Kw RET then parse_return P
       else if tkind t = Kw ERR then parse_err_return P
       else if tkind t = LBRACE then pbind (parse_block P) (\<lambda>b. spanned (tpos t) (\<lambda>sp. BlockExpr sp b))
       else if tkind t \<in> {STRING, INTEGER, FLOAT, BOOL, CHAR_LIT} then parse_literal P
       else if tkind t = Kw NIL then pthen advance (spanned (tpos t) NilLiteral)
       else if tkind t = Kw FUN then pthen advance (parse_function_expr P (tpos t))
       else if tkind t = Kw NEW then parse_new P
       else if tkind t = IDENT then parse_name P
       else if tkind t = LBRACKET then parse_bracket_literal P
       else if tkind t = LPAREN then
         pthen advance (pbind (p_expr P) (\<lambda>e. pthen (expect RPAREN) (preturn e)))
       else perror ''Unexpected token'')"

subsection \<open>Postfix expressions\<close>

definition span_start :: "node \<Rightarrow> token \<Rightarrow> nat" where
  "span_start e t = (case span_of e of Some (a, _) \<Rightarrow> a | None \<Rightarrow> tpos t)"

text \<open>\<open>expr.span = (start, end)\<close>, only when the callee has a range itself.\<close>

definition spanned_from :: "span \<Rightarrow> (span \<Rightarrow> 'a) \<Rightarrow> 'a parser" where
  "spanned_from sp mk = (case sp of None \<Rightarrow> preturn (mk None) | Some (a, _) \<Rightarrow> spanned a mk)"

definition postfix_call :: "procs \<Rightarrow> node \<Rightarrow> node parser" where
  "postfix_call P expr =
     pthen advance
       (case expr of
          Identifier sp name gen_args \<Rightarrow>
            if name = ''size_of'' then
              pbind (parse_type P) (\<lambda>r. pthen (expect RPAREN) (spanned_from sp (\<lambda>sp'. SizeOfType sp' r)))
            else
              pbind (parse_call_args P) (\<lambda>args.
              pthen (expect RPAREN) (spanned_from sp (\<lambda>sp'. FunctionCall sp' name args gen_args)))
        | _ \<Rightarrow>
            pbind (parse_call_args P) (\<lambda>args. pthen (expect RPAREN)
              (perror ''Only named functions and closure variables can be called'')))"

definition index_or_slice :: "procs \<Rightarrow> node \<Rightarrow> tref list option \<Rightarrow> node parser" where
  "index_or_slice P expr type_args =
     pthen advance
       (pbind (p_expr P) (\<lambda>first.
        when_kind COLON
          (pthen advance
             (pbind (when_kind RBRACKET (preturn None) (pbind (p_expr P) (\<lambda>e. preturn (Some e)))) (\<lambda>last_e.
              pthen (expect RBRACKET) (preturn (SliceExpr expr first last_e)))))
          (pthen (expect RBRACKET) (preturn (IndexAccess expr first type_args)))))"

definition postfix_bracket :: "procs \<Rightarrow> node \<Rightarrow> node parser" where
  "postfix_bracket P expr =
     (case expr of
        Identifier sp name gen_args \<Rightarrow>
          pbind (lookahead (parse_type_arg_list P)) (\<lambda>found.
            case found of
              Some (type_args, k) \<Rightarrow>
                if k = LPAREN then
                  pthen (parse_type_arg_list P) (preturn (Identifier sp name type_args))
                else
                  when_ahead (\<lambda>ks. matching_bracket_contains COMMA 0 ks)
                    (pthen (parse_type_arg_list P) (preturn (GenericFunctionValue name type_args)))
                    (index_or_slice P expr (Some type_args))
            | None \<Rightarrow> index_or_slice P expr None)
      | _ \<Rightarrow> index_or_slice P expr None)"

fun imported_name :: "string list \<Rightarrow> node \<Rightarrow> string option" where
  "imported_name imports (Identifier _ name _) = (if name \<in> set imports then Some name else None)"
| "imported_name imports _ = None"

definition pimports :: "string list parser" where
  "pimports = (\<lambda>env pos. Inr (imported_modules env, pos))"

definition postfix_generic_member :: "procs \<Rightarrow> string \<Rightarrow> node parser" where
  "postfix_generic_member P qname =
     pbind (parse_type_arg_list P) (\<lambda>type_args.
     when_kind LPAREN
       (pthen advance
          (pbind (parse_call_args P) (\<lambda>args.
           pthen (expect RPAREN) (preturn (FunctionCall None qname args type_args)))))
       (when_kind LBRACE
          (pthen advance
             (pbind (parse_struct_literal_fields P) (\<lambda>fields.
              pthen (expect RBRACE)
                (preturn (StructLiteral None (generic_name qname type_args) fields False)))))
          (preturn (GenericFunctionValue qname type_args))))"

definition postfix_dot :: "procs \<Rightarrow> node \<Rightarrow> node parser" where
  "postfix_dot P expr =
     pbind advance (\<lambda>t. let start = span_start expr t in
     pbind (expect_text IDENT) (\<lambda>field.
     pbind pimports (\<lambda>imports.
     when_ahead (\<lambda>ks. nth_kind 0 LBRACKET ks \<and> imported_name imports expr \<noteq> None
                   \<and> 1 < length ks \<and> \<not> nth_kind 1 INTEGER ks)
       (postfix_generic_member P (case imported_name imports expr of Some m \<Rightarrow> m @ ''.'' @ field | None \<Rightarrow> field))
     (when_kind LPAREN
       (pthen advance
          (pbind (parse_call_args P) (\<lambda>args.
           pthen (expect RPAREN)
             (spanned start (\<lambda>sp.
                case imported_name imports expr of
                  Some m \<Rightarrow> FunctionCall sp (m @ ''.'' @ field) args []
                | None \<Rightarrow> MethodCall sp expr field args)))))
       (preturn (FieldAccess expr field))))))"

definition postfix_step :: "procs \<Rightarrow> node \<Rightarrow> node option parser" where
  "postfix_step P expr =
     pbind peek (\<lambda>t. let start = span_start expr t; again = (\<lambda>m. pbind m (\<lambda>e. preturn (Some e))) in
       if tkind t = LPAREN then again (postfix_call P expr)
       else if tkind t = LBRACKET then again (postfix_bracket P expr)
       else if tkind t = DOT then again (postfix_dot P expr)
       else if tkind t = Op QUESTIONQUESTION then
         again (pthen advance (spanned start (\<lambda>sp. FallibleOp sp expr ''??'')))
       else if tkind t = Op NOTNOT then
         again (pthen advance (spanned start (\<lambda>sp. FallibleOp sp expr ''!!'')))
       else
         when_ahead (\<lambda>ks. nth_kind 0 (Kw ERR) ks \<and> nth_kind 1 (Op QUESTION) ks)
           (again (pthen advance (pthen advance
              (pbind (expect_text IDENT) (\<lambda>error_name.
               pbind (parse_block P) (\<lambda>handler.
               spanned start (\<lambda>sp. ErrorHandlerExpr sp expr error_name handler)))))))
         (when_ahead (\<lambda>ks. nth_kind 0 (Kw MATCH) ks \<and> nth_kind 1 (Op QUESTION) ks)
           (again (pthen advance (pthen advance
              (pbind (expect_text IDENT) (\<lambda>error_name.
               pbind (parse_match_arms P) (\<lambda>arms.
               spanned start (\<lambda>sp. ErrorMatchExpr sp expr error_name arms)))))))
           (preturn None)))"

primrec postfix_loop :: "nat \<Rightarrow> procs \<Rightarrow> node \<Rightarrow> node parser" where
  "postfix_loop 0 P expr = pfail OutOfFuel"
| "postfix_loop (Suc n) P expr =
     pbind (postfix_step P expr) (\<lambda>next_expr.
       case next_expr of Some e \<Rightarrow> postfix_loop n P e | None \<Rightarrow> preturn expr)"

definition parse_postfix :: "procs \<Rightarrow> node parser" where
  "parse_postfix P = pbind (parse_primary P) (postfix_loop (p_fuel P) P)"

subsection \<open>The precedence chain\<close>

definition parse_unary :: "procs \<Rightarrow> node parser" where
  "parse_unary P =
     when_kinds [Op NOT, Op TILDE, Op MINUS]
       (pbind advance_text (\<lambda>op. pbind (p_unary P) (\<lambda>operand. preturn (UnaryOp op operand))))
       (parse_postfix P)"

definition parse_multiplicative :: "procs \<Rightarrow> node parser" where
  "parse_multiplicative P =
     binary P [Op STAR, Op SLASH, Op PERCENT, Op SHL, Op SHR, Op AMP] (parse_unary P)"

definition parse_additive :: "procs \<Rightarrow> node parser" where
  "parse_additive P = binary P [Op PLUS, Op MINUS, Op PIPE, Op CARET] (parse_multiplicative P)"

definition parse_comparison :: "procs \<Rightarrow> node parser" where
  "parse_comparison P = binary P [Op GT, Op LT, Op GE, Op LE, Op EQEQ, Op NE] (parse_additive P)"

definition parse_logic_and :: "procs \<Rightarrow> node parser" where
  "parse_logic_and P = binary P [Op AND] (parse_comparison P)"

definition parse_logic_or :: "procs \<Rightarrow> node parser" where
  "parse_logic_or P = binary P [Op OR] (parse_logic_and P)"

definition parse_expression :: "procs \<Rightarrow> node parser" where
  "parse_expression P = parse_logic_or P"

subsection \<open>Statements\<close>

definition parse_let :: "procs \<Rightarrow> node parser" where
  "parse_let P =
     pbind advance (\<lambda>start.
     pbind (expect_text IDENT) (\<lambda>name.
     pbind (when_kind COLON (pthen advance (pbind (parse_type P) (\<lambda>r. preturn (Some r)))) (preturn None)) (\<lambda>annotation.
     pthen (expect (Op EQ))
       (pbind (p_expr P) (\<lambda>init.
        pbind (spanned (tpos start) (\<lambda>sp. VariableDeclaration sp name init annotation)) (\<lambda>stmt.
        pthen (pmatch SEMI) (preturn stmt)))))))"

definition parse_type_alias :: "procs \<Rightarrow> node parser" where
  "parse_type_alias P =
     pbind advance (\<lambda>start.
     pbind (expect_text IDENT) (\<lambda>name.
     pthen (expect (Op EQ))
       (pbind (parse_type P) (\<lambda>target.
        pbind (spanned (tpos start) (\<lambda>sp. TypeAlias sp name target)) (\<lambda>stmt.
        pthen (pmatch SEMI) (preturn stmt))))))"

definition parse_import :: "node parser" where
  "parse_import =
     pbind advance (\<lambda>start.
     pbind (expect_text IDENT) (\<lambda>name.
     when_kind DOT (perror ''import v1 only supports one-level module names'')
       (when_kind LBRACE (perror ''selective import is not supported in import v1'')
          (pbind (spanned (tpos start) (\<lambda>sp. ImportDecl sp name)) (\<lambda>stmt.
           pthen (pmatch SEMI) (preturn stmt))))))"

definition parse_extern_item :: "procs \<Rightarrow> tokval option \<Rightarrow> node parser" where
  "parse_extern_item P lib =
     when_kind EOF (perror ''unterminated extern block'')
       (when_kind (Kw FUN)
          (pbind (parse_function_signature_only P lib) (\<lambda>f. pthen (pmatch SEMI) (preturn f)))
          (perror ''extern block only allows function declarations''))"

definition parse_extern_block :: "procs \<Rightarrow> node parser" where
  "parse_extern_block P =
     pbind advance (\<lambda>start.
     pbind (when_kind STRING (pbind advance (\<lambda>t. preturn (Some (tvalue t)))) (preturn None)) (\<lambda>lib.
     pthen (expect LBRACE)
       (pbind (until_loop (p_fuel P) [RBRACE] (parse_extern_item P lib)) (\<lambda>funcs.
        pthen (expect RBRACE)
          (pthen (pmatch SEMI) (spanned (tpos start) (\<lambda>sp. ExternBlock sp lib funcs)))))))"

definition parse_defer :: "procs \<Rightarrow> node parser" where
  "parse_defer P =
     pbind advance (\<lambda>start. pbind (parse_block P) (\<lambda>body. spanned (tpos start) (\<lambda>sp. Defer sp body)))"

definition parse_spawn :: "procs \<Rightarrow> node parser" where
  "parse_spawn P =
     pbind advance (\<lambda>start.
     when_kind (Kw FUN)
       (pbind advance (\<lambda>func_start.
        pbind (parse_function_expr P (tpos func_start)) (\<lambda>func.
        pthen (pmatch SEMI) (spanned (tpos start) (\<lambda>sp. SpawnStmt sp func)))))
       (perror ''spawn must be followed by a function expression''))"

definition parse_try :: "procs \<Rightarrow> node parser" where
  "parse_try P =
     pbind advance (\<lambda>start.
     pbind (when_ahead (\<lambda>ks. nth_kind 0 IDENT ks \<and> nth_kind 1 (Op EQ) ks)
              (pbind advance_text (\<lambda>n. pthen advance (preturn (Some n))))
              (preturn None)) (\<lambda>success_name.
     pbind (p_expr P) (\<lambda>call.
     pbind (parse_block P) (\<lambda>success_block.
     pbind (when_kind (Kw ELSE)
              (pthen advance
                 (pbind (expect_text IDENT) (\<lambda>error_name.
                  pbind (parse_block P) (\<lambda>error_block. preturn (Some (error_name, error_block))))))
              (preturn None)) (\<lambda>handler.
     pthen (pmatch SEMI)
       (spanned (tpos start) (\<lambda>sp. TryStatement sp call success_block success_name
          (map_option fst handler) (map_option snd handler))))))))"

definition parse_for_condition :: "procs \<Rightarrow> node parser" where
  "parse_for_condition P =
     pbind (p_expr P) (\<lambda>condition.
     pbind (parse_block P) (\<lambda>body.
     pthen (pmatch SEMI) (preturn (ForCondition condition body))))"

text \<open>The code takes the identifier first and goes back when neither \<open>,\<close> nor \<open>in\<close> follows.\<close>

definition parse_for :: "procs \<Rightarrow> node parser" where
  "parse_for P =
     pthen advance
       (when_kind IDENT
          (pbind (rewound (pthen advance (pbind peek (\<lambda>t. preturn (tkind t))))) (\<lambda>k.
           if k = COMMA then
             pbind (expect_text IDENT) (\<lambda>idx. pthen advance
               (pbind (expect_text IDENT) (\<lambda>val.
                pthen (expect (Kw IN))
                  (pbind (p_expr P) (\<lambda>iterable.
                   pbind (parse_block P) (\<lambda>body.
                   preturn (ForIn idx (Some val) (Some iterable) body None None)))))))
           else if k = Kw IN then
             pbind (expect_text IDENT) (\<lambda>idx. pthen advance
               (pbind (p_expr P) (\<lambda>start.
                pthen (expect DOTDOT)
                  (pbind (p_expr P) (\<lambda>end_e.
                   pbind (parse_block P) (\<lambda>body.
                   preturn (ForIn idx None None body (Some start) (Some end_e))))))))
           else parse_for_condition P))
          (parse_for_condition P))"

text \<open>
  \<open>isinstance(name_or_type, NamedType)\<close> and the last part of a dotted name.
\<close>

definition last_part :: "string \<Rightarrow> string" where
  "last_part s = rev (takeWhile (\<lambda>c. c \<noteq> CHR ''.'') (rev s))"

definition parse_struct_field :: "procs \<Rightarrow> (string \<times> tref \<times> bool) parser" where
  "parse_struct_field P =
     pbind (parse_type P) (\<lambda>name_or_type.
     when_kind COLON
       (pthen advance
          (case name_or_type of
             NamedType n \<Rightarrow> pbind (parse_type P) (\<lambda>r. preturn (n, r, False))
           | _ \<Rightarrow> perror ''field name must be an identifier''))
       (case name_or_type of
          NamedType n \<Rightarrow> preturn (last_part n, name_or_type, True)
        | _ \<Rightarrow> perror ''embedded struct field must be a named type''))"

definition parse_struct :: "procs \<Rightarrow> node parser" where
  "parse_struct P =
     pthen advance
       (pbind (expect_text IDENT) (\<lambda>name.
        pbind (parse_type_params P) (\<lambda>(type_params, constraints).
        pthen (expect LBRACE)
          (pbind (comma_list P RBRACE (parse_struct_field P)) (\<lambda>fs.
           pthen (expect RBRACE)
             (pthen (pmatch SEMI)
                (preturn (StructDecl name (map (\<lambda>(n, r, _). (n, r)) fs) type_params constraints
                   (remdups (map fst (filter (\<lambda>(_, _, e). e) fs)))))))))))"

definition parse_iface_method :: "procs \<Rightarrow> (string \<times> node param list \<times> tref \<times> bool) parser" where
  "parse_iface_method P =
     pthen advance
       (when_kind LPAREN (perror ''iface methods cannot have receivers'')
          (pbind (expect_text IDENT) (\<lambda>mname.
           pbind (parse_signature P False) (\<lambda>(params, ret, fallible).
           when_kind LBRACE (perror ''iface method declarations cannot have bodies'')
             (pthen (pmatch SEMI)
                (preturn (mname, params, (case ret of Some r \<Rightarrow> r | None \<Rightarrow> NamedType ''void''), fallible)))))))"

text \<open>One entry of an interface: a method (\<open>Inl\<close>) or an embedded interface (\<open>Inr\<close>).\<close>

definition parse_iface_item ::
  "procs \<Rightarrow> ((string \<times> node param list \<times> tref \<times> bool) + tref) parser" where
  "parse_iface_item P =
     when_kind EOF (perror ''unterminated iface declaration'')
       (when_kind (Kw FUN)
          (pbind (parse_iface_method P) (\<lambda>m. preturn (Inl m)))
          (pbind (parse_type P) (\<lambda>r. pthen (pmatch SEMI) (preturn (Inr r)))))"

definition parse_iface :: "procs \<Rightarrow> node parser" where
  "parse_iface P =
     pthen advance
       (pbind (expect_text IDENT) (\<lambda>name.
        pthen (expect LBRACE)
          (pbind (until_loop (p_fuel P) [RBRACE] (parse_iface_item P)) (\<lambda>items.
           pthen (expect RBRACE)
             (pthen (pmatch SEMI)
                (preturn (IfaceDecl name [m. Inl m \<leftarrow> items] [r. Inr r \<leftarrow> items])))))))"

definition parse_enum :: "procs \<Rightarrow> node parser" where
  "parse_enum P =
     pthen advance
       (pbind (expect_text IDENT) (\<lambda>name.
        pthen (expect LBRACE)
          (pbind (comma_list P RBRACE (expect_text IDENT)) (\<lambda>variants.
           pthen (expect RBRACE) (pthen (pmatch SEMI) (preturn (EnumDecl name variants)))))))"

definition assign_ops :: "tokkind list" where
  "assign_ops = [Op EQ, Op PLUSEQ, Op MINUSEQ, Op STAREQ, Op SLASHEQ, Op PERCENTEQ, Op AMPEQ, Op PIPEEQ,
     Op CARETEQ, Op SHLEQ, Op SHREQ]"

definition parse_ident_stmt :: "procs \<Rightarrow> node parser" where
  "parse_ident_stmt P =
     pbind (parse_expression P) (\<lambda>e.
     pbind (when_kinds assign_ops
              (pbind advance_text (\<lambda>op. pbind (p_expr P) (\<lambda>rhs. preturn (Assignment e rhs op))))
              (when_kinds [Op PLUSPLUS, Op MINUSMINUS]
                 (pbind advance_text (\<lambda>op. preturn (Update e op)))
                 (preturn (ExpressionStatement e)))) (\<lambda>stmt.
     pthen (pmatch SEMI) (preturn stmt)))"

definition parse_expression_statement :: "procs \<Rightarrow> node parser" where
  "parse_expression_statement P =
     pbind (parse_expression P) (\<lambda>e. pthen (pmatch SEMI) (preturn (ExpressionStatement e)))"

text \<open>\<open>_is_function_declaration_start\<close>, on the kinds from the current token on.\<close>

definition is_function_declaration_start :: "tokkind list \<Rightarrow> bool" where
  "is_function_declaration_start ks \<longleftrightarrow>
     nth_kind 0 (Kw FUN) ks \<and>
     (nth_kind 1 IDENT ks \<or>
      nth_kind 1 LPAREN ks \<and> nth_kind 2 IDENT ks \<and> nth_kind 3 (Op STAR) ks \<and> nth_kind 4 IDENT ks)"

definition parse_statement :: "procs \<Rightarrow> node parser" where
  "parse_statement P =
     pbind peek (\<lambda>t.
       if tkind t = Kw IMPORT then perror ''import is only allowed at top level''
       else if tkind t = Kw EXTERN then perror ''extern is only allowed at top level''
       else if tkind t = Kw LET then parse_let P
       else if tkind t = Kw IF then parse_expression_statement P
       else
         when_ahead is_function_declaration_start (parse_function P)
           (if tkind t = Kw RET then parse_return P
            else if tkind t = Kw STRUCT then parse_struct P
            else if tkind t = Kw ENUM then parse_enum P
            else if tkind t = Kw IFACE then perror ''iface is only allowed at top level''
            else if tkind t = Kw FOR then parse_for P
            else if tkind t = Kw ERR then parse_err_return P
            else if tkind t = Kw TRY then parse_try P
            else if tkind t = Kw DEFER then parse_defer P
            else if tkind t = Kw SPAWN then parse_spawn P
            else if tkind t = Kw TYPE_KW then perror ''type alias is only allowed at top level''
            else if tkind t = Kw BREAK then
              pthen advance (pthen (pmatch SEMI) (spanned (tpos t) Break))
            else if tkind t = IDENT then parse_ident_stmt P
            else parse_expression_statement P))"

subsection \<open>The program\<close>

text \<open>\<open>knot n\<close>: the recursive calls, at most \<open>n\<close> deep.\<close>

primrec knot :: "nat \<Rightarrow> procs" where
  "knot 0 =
     \<lparr>p_fuel = 0, p_type = pfail OutOfFuel, p_expr = pfail OutOfFuel, p_unary = pfail OutOfFuel,
      p_primary = pfail OutOfFuel, p_stmt = pfail OutOfFuel\<rparr>"
| "knot (Suc n) =
     (let P = knot n in
      \<lparr>p_fuel = Suc n, p_type = parse_type P, p_expr = parse_expression P, p_unary = parse_unary P,
       p_primary = parse_primary P, p_stmt = parse_statement P\<rparr>)"

definition parse_top_item :: "procs \<Rightarrow> node parser" where
  "parse_top_item P =
     pbind peek (\<lambda>t.
       if tkind t = Kw IMPORT then parse_import
       else if tkind t = Kw TYPE_KW then parse_type_alias P
       else if tkind t = Kw EXTERN then parse_extern_block P
       else if tkind t = Kw IFACE then parse_iface P
       else parse_statement P)"

definition parse_program :: "procs \<Rightarrow> node list parser" where
  "parse_program P = until_loop (p_fuel P) [EOF] (parse_top_item P)"

text \<open>\<open>_scan_imports\<close>: every identifier right after an \<open>import\<close>.\<close>

fun scan_imports :: "token list \<Rightarrow> string list" where
  "scan_imports (t # u # ts) =
     (if tkind t = Kw IMPORT \<and> tkind u = IDENT
      then (case tvalue u of VText s \<Rightarrow> List.insert s (scan_imports (u # ts)) | _ \<Rightarrow> scan_imports (u # ts))
      else scan_imports (u # ts))"
| "scan_imports ts = []"

text \<open>
  Each recursive call follows at least one token, and the tokens of an interpolated string are
  fewer than the characters it was lexed from, so the weight of the tokens bounds the depth.
\<close>

definition parse_fuel :: "token list \<Rightarrow> nat" where
  "parse_fuel ts = Suc (tokens_weight ts)"

text \<open>\<open>parse\<close>, with the imported modules when the caller gives some.\<close>

definition parse :: "token list \<Rightarrow> string list \<Rightarrow> node list res" where
  "parse ts imports =
     rbind (parse_program (knot (parse_fuel ts))
              \<lparr>ptokens = ts, imported_modules = (if imports = [] then scan_imports ts else imports)\<rparr> 0)
       (\<lambda>(stmts, _). Inr stmts)"

end
