(* ===== verification/ParserProps.thy ===== *)
theory ParserProps
  imports Parser
begin

text \<open>
  The parser on the tokens of any text: it returns, it stays inside the token list, and every
  exception is one of the syntax of the language. \<open>spec Q n k m\<close> says this of a parsing method
  \<open>m\<close>: from a position where \<open>Q\<close> holds of the kinds ahead and the weight of the rest is at most
  \<open>n\<close>, it either raises such an exception or moves on by at least \<open>k\<close> tokens, not past the end.
\<close>

subsection \<open>Tokens and their values\<close>

fun token_ok :: "token \<Rightarrow> bool" where
  "token_ok t = (case tvalue t of
     VInt _ _ \<Rightarrow> tkind t = INTEGER
   | VFloat _ _ \<Rightarrow> tkind t = FLOAT
   | VStr _ \<Rightarrow> tkind t = STRING
   | VInterp _ \<Rightarrow> tkind t = STRING
   | VChar _ \<Rightarrow> tkind t = CHAR_LIT
   | VBool _ \<Rightarrow> tkind t = BOOL
   | VText _ \<Rightarrow> tkind t \<notin> {INTEGER, FLOAT, STRING, CHAR_LIT, BOOL})"

definition string_value :: "tokval \<Rightarrow> bool" where
  "string_value v \<longleftrightarrow> (case v of VStr _ \<Rightarrow> True | VInterp _ \<Rightarrow> True | _ \<Rightarrow> False)"

lemma scan_string_loop_value:
  "scan_string_loop start i chars parts b cs = Inr (v, j, r) \<Longrightarrow> string_value v"
proof (induction start i chars parts b cs rule: scan_string_loop.induct)
  case (2 start i chars parts b ch cs)
  note step = "2.prems"(1) [unfolded scan_string_loop.simps]
  consider (quote) "ch = CHR 0x22" | (esc) "ch = CHR 0x5C" | (opn) "ch = CHR ''{''" | (cls) "ch = CHR ''}''"
    | (other) "ch \<notin> {CHR 0x22, CHR 0x5C, CHR ''{'', CHR ''}''}"
    by blast
  then show ?case
  proof cases
    case quote
    with step show ?thesis by (auto simp: string_value_def split: if_split_asm)
  next
    case esc
    with step obtain cp k t where d: "decode_escape i CHR 0x22 (ch # cs) = Inr (cp, k, t)"
      and l: "scan_string_loop start k (cp # chars) parts b t = Inr (v, j, r)" by auto
    with esc "2.IH"(1) [OF _ esc d refl refl l] show ?thesis by simp
  next
    case opn
    show ?thesis
    proof (cases "starts_with ''{'' cs")
      case True
      with opn step "2.IH"(2) show ?thesis by simp
    next
      case False
      with opn step obtain e k t where
        d: "scan_interpolation_expr (i + 1) 1 None [] (i + 1) cs = Inr (e, k, t)" by auto
      with opn False step "2.IH"(3) [OF _ _ opn False d refl refl] show ?thesis
        by (auto split: if_split_asm)
    qed
  next
    case cls
    with step "2.IH"(4) show ?thesis by (auto split: if_splits)
  qed (use step "2.IH"(5) in \<open>auto split: if_splits\<close>)
qed (simp add: scan_string_loop.simps)

lemma symbol_not_bool:
  "map_of OPS3 w = Some k \<Longrightarrow> k \<noteq> BOOL" "map_of OPS2 w = Some k \<Longrightarrow> k \<noteq> BOOL"
  "map_of OPS1 w = Some k \<Longrightarrow> k \<noteq> BOOL"
  by (erule map_of_list_all_val, simp add: OPS3_def OPS2_def OPS1_def)+

lemma lex_step_token_ok:
  assumes "lex_step i ch cs = Inr (Some t, j, r)"
  shows "token_ok t"
  using assms
proof (cases rule: lex_step_tokenE)
  case number
  then show ?thesis
    by (auto simp: lex_number_def Let_def rbind_eq_Inl split: prod.splits if_split_asm option.split_asm)
next
  case (str v)
  then have "string_value v" by (auto simp: scan_string_def intro: scan_string_loop_value)
  with str show ?thesis by (cases v) (simp_all add: string_value_def)
next
  case (char v)
  then show ?thesis by simp
next
  case word
  then show ?thesis
    using lex_word_token(1) [OF word(3)] table_kinds(1) [of "takeWhile ident_char (ch # cs)"]
    by (auto simp: lex_word_def Let_def split: if_split_asm option.split_asm)
next
  case symbol
  then show ?thesis
    using lex_symbol_token(1) [OF symbol] symbol_not_bool [of "take 3 (ch # cs)"]
      symbol_not_bool [of "take 2 (ch # cs)"] symbol_not_bool [of "take 1 (ch # cs)"]
    by (auto simp: lex_symbol_def simp del: take_Suc_Cons split: option.split_asm)
qed

lemma lex_token_ok: "lex source = Inr ts \<Longrightarrow> t \<in> set ts \<Longrightarrow> token_ok t"
proof -
  have "lex_from i cs = Inr ts \<Longrightarrow> \<forall>t \<in> set ts. token_ok t" for i cs
  proof (induction i cs arbitrary: ts rule: lex_from.induct)
    case (2 i ch cs)
    from "2.prems" obtain t j r us where s: "lex_step i ch cs = Inr (t, j, r)"
      and f: "lex_from j r = Inr us" and ts: "ts = (case t of None \<Rightarrow> us | Some t' \<Rightarrow> t' # us)"
      by auto
    from "2.IH" [OF s refl refl f] s show ?case
      unfolding ts by (cases t) (simp_all add: lex_step_token_ok del: token_ok.simps)
  qed simp
  then show "lex source = Inr ts \<Longrightarrow> t \<in> set ts \<Longrightarrow> token_ok t" by (simp add: lex_def)
qed

declare token_ok.simps [simp del]

subsection \<open>Specifications of parsing methods\<close>

definition parse_exn :: "exn \<Rightarrow> bool" where
  "parse_exn e \<longleftrightarrow> (case e of ParseError _ \<Rightarrow> True | SyntaxError _ \<Rightarrow> True | ValueError \<Rightarrow> True | OverflowError \<Rightarrow> True | _ \<Rightarrow> False)"

lemma parse_exn_simps [simp]:
  "parse_exn (ParseError m)" "parse_exn (SyntaxError m)" "parse_exn ValueError" "parse_exn OverflowError"
  "\<not> parse_exn IndexError" "\<not> parse_exn OutOfFuel" "\<not> parse_exn AttributeError"
  by (simp_all add: parse_exn_def)

definition good_env :: "penv \<Rightarrow> bool" where
  "good_env env \<longleftrightarrow> eof_terminated (ptokens env) \<and> (\<forall>t \<in> set (ptokens env). token_ok t)"

definition kinds :: "penv \<Rightarrow> nat \<Rightarrow> tokkind list" where
  "kinds env pos = map tkind (drop pos (ptokens env))"

definition room :: "penv \<Rightarrow> nat \<Rightarrow> nat" where
  "room env pos = tokens_weight (drop pos (ptokens env))"

definition spec :: "(tokkind list \<Rightarrow> bool) \<Rightarrow> nat \<Rightarrow> nat \<Rightarrow> 'a parser \<Rightarrow> bool" where
  "spec Q n k m \<longleftrightarrow> (\<forall>env pos. good_env env \<longrightarrow> pos < length (ptokens env) \<longrightarrow> Q (kinds env pos) \<longrightarrow>
     room env pos \<le> n \<longrightarrow>
     (case m env pos of
        Inl e \<Rightarrow> parse_exn e
      | Inr (x, p) \<Rightarrow> pos + k \<le> p \<and> p < length (ptokens env)))"

abbreviation anywhere :: "tokkind list \<Rightarrow> bool" where
  "anywhere \<equiv> \<lambda>_. True"

lemma specD:
  assumes "spec Q n k m" and "good_env env" and "pos < length (ptokens env)" and "Q (kinds env pos)"
    and "room env pos \<le> n"
  shows "(\<exists>e. m env pos = Inl e \<and> parse_exn e)
    \<or> (\<exists>x p. m env pos = Inr (x, p) \<and> pos + k \<le> p \<and> p < length (ptokens env))"
proof -
  have "case m env pos of Inl e \<Rightarrow> parse_exn e
    | Inr (x, p) \<Rightarrow> pos + k \<le> p \<and> p < length (ptokens env)"
    using assms by (simp add: spec_def)
  then show ?thesis by (cases "m env pos") auto
qed

lemma specI:
  assumes "\<And>env pos. good_env env \<Longrightarrow> pos < length (ptokens env) \<Longrightarrow> Q (kinds env pos) \<Longrightarrow> room env pos \<le> n \<Longrightarrow>
    (\<exists>e. m env pos = Inl e \<and> parse_exn e)
    \<or> (\<exists>x p. m env pos = Inr (x, p) \<and> pos + k \<le> p \<and> p < length (ptokens env))"
  shows "spec Q n k m"
  unfolding spec_def
proof (intro allI impI)
  fix env pos
  assume "good_env env" "pos < length (ptokens env)" "Q (kinds env pos)" "room env pos \<le> n"
  from assms [OF this] show "case m env pos of Inl e \<Rightarrow> parse_exn e
    | Inr (x, p) \<Rightarrow> pos + k \<le> p \<and> p < length (ptokens env)"
    by auto
qed

lemma room_drop:
  assumes "pos + k \<le> p" and "p \<le> length (ptokens env)"
  shows "room env p + k \<le> room env pos"
proof -
  let ?xs = "drop pos (ptokens env)"
  have "k \<le> length (take (p - pos) ?xs)" using assms by simp
  then have "k \<le> tokens_weight (take (p - pos) ?xs)"
    using length_le_weight le_trans by blast
  moreover have "?xs = take (p - pos) ?xs @ drop p (ptokens env)"
    using assms(1) by (metis append_take_drop_id drop_drop le_add_diff_inverse2 add_leD1)
  then have "tokens_weight ?xs = tokens_weight (take (p - pos) ?xs) + tokens_weight (drop p (ptokens env))"
    by (metis tokens_weight_simps(3))
  ultimately show ?thesis by (simp add: room_def)
qed

lemma spec_mono:
  assumes "spec Q n k m" and "n' \<le> n" and "k' \<le> k" and "\<And>ks. Q' ks \<Longrightarrow> Q ks"
  shows "spec Q' n' k' m"
proof (rule specI)
  fix env pos
  assume "good_env env" "pos < length (ptokens env)" "Q' (kinds env pos)" "room env pos \<le> n'"
  with specD [OF assms(1), of env pos] assms(2-4)
  show "(\<exists>e. m env pos = Inl e \<and> parse_exn e)
    \<or> (\<exists>x p. m env pos = Inr (x, p) \<and> pos + k' \<le> p \<and> p < length (ptokens env))"
    by fastforce
qed

lemma spec_bind:
  assumes m: "spec Q n j m" and f: "\<And>x. spec anywhere (n - j) (k - j) (f x)"
  shows "spec Q n k (pbind m f)"
proof (rule specI)
  fix env pos
  assume pre: "good_env env" "pos < length (ptokens env)" "Q (kinds env pos)" "room env pos \<le> n"
  from specD [OF m pre] consider (err) e where "m env pos = Inl e" "parse_exn e"
    | (ok) x p where "m env pos = Inr (x, p)" "pos + j \<le> p" "p < length (ptokens env)" by auto
  then show "(\<exists>e. pbind m f env pos = Inl e \<and> parse_exn e)
    \<or> (\<exists>y q. pbind m f env pos = Inr (y, q) \<and> pos + k \<le> q \<and> q < length (ptokens env))"
  proof cases
    case err
    then show ?thesis by (simp add: pbind_def)
  next
    case ok
    have "room env p \<le> n - j" using room_drop [of pos j p env] ok(2,3) pre(4) by simp
    from specD [OF f pre(1) ok(3) _ this, of x] ok show ?thesis
      by (auto simp: pbind_def)
  qed
qed

lemma nth_drop_hd: "pos < length xs \<Longrightarrow> drop pos xs = xs ! pos # drop (Suc pos) xs"
  by (simp add: Cons_nth_drop_Suc)

lemma kinds_Cons:
  "pos < length (ptokens env) \<Longrightarrow> kinds env pos = tkind (ptokens env ! pos) # kinds env (Suc pos)"
  by (simp add: kinds_def nth_drop_hd)

lemma good_env_not_last:
  assumes "good_env env" and "pos < length (ptokens env)" and "tkind (ptokens env ! pos) \<noteq> EOF"
  shows "Suc pos < length (ptokens env)"
proof (rule ccontr)
  assume "\<not> ?thesis"
  with assms(2) have "Suc pos = length (ptokens env)" by simp
  then have "ptokens env ! pos = last (ptokens env)"
    by (metis diff_Suc_1 last_conv_nth length_0_conv nat.distinct(1))
  with assms(1,3) show False by (auto simp: good_env_def eof_terminated_def)
qed

lemma spec_advance_bind:
  assumes Q: "\<And>ks. Q ks \<Longrightarrow> hd ks \<noteq> EOF"
    and f: "\<And>t. token_ok t \<Longrightarrow> spec (\<lambda>ks. Q (tkind t # ks)) (n - 1) (k - 1) (f t)"
  shows "spec Q n k (pbind advance f)"
proof (rule specI)
  fix env pos
  assume pre: "good_env env" "pos < length (ptokens env)" "Q (kinds env pos)" "room env pos \<le> n"
  let ?t = "ptokens env ! pos"
  have t: "tkind ?t \<noteq> EOF" using Q [OF pre(3)] kinds_Cons [OF pre(2)] by simp
  have s: "Suc pos < length (ptokens env)" by (rule good_env_not_last [OF pre(1,2) t])
  have r: "room env (Suc pos) \<le> n - 1" using room_drop [of pos 1 "Suc pos" env] pre(2,4) by simp
  have "token_ok ?t" using pre(1,2) by (simp add: good_env_def)
  from specD [OF f [OF this] pre(1) s _ r] pre(3) kinds_Cons [OF pre(2)]
  show "(\<exists>e. pbind advance f env pos = Inl e \<and> parse_exn e)
    \<or> (\<exists>x p. pbind advance f env pos = Inr (x, p) \<and> pos + k \<le> p \<and> p < length (ptokens env))"
    using pre(2) by (auto simp: pbind_def advance_def)
qed

lemma spec_peek_bind:
  assumes f: "\<And>t. token_ok t \<Longrightarrow> spec (\<lambda>ks. Q ks \<and> hd ks = tkind t) n k (f t)"
  shows "spec Q n k (pbind peek f)"
proof (rule specI)
  fix env pos
  assume pre: "good_env env" "pos < length (ptokens env)" "Q (kinds env pos)" "room env pos \<le> n"
  have "token_ok (ptokens env ! pos)" using pre(1,2) by (simp add: good_env_def)
  from specD [OF f [OF this] pre(1,2) _ pre(4)] pre(3) kinds_Cons [OF pre(2)]
  show "(\<exists>e. pbind peek f env pos = Inl e \<and> parse_exn e)
    \<or> (\<exists>x p. pbind peek f env pos = Inr (x, p) \<and> pos + k \<le> p \<and> p < length (ptokens env))"
    using pre(2) by (auto simp: pbind_def peek_def)
qed

text \<open>The rules for the primitives and the control flow of the methods.\<close>

lemma spec_return: "k = 0 \<Longrightarrow> spec Q n k (preturn x)"
  by (rule specI) (simp add: preturn_def)

lemma spec_error: "spec Q n k (perror msg)"
  by (rule specI) (simp add: perror_def pfail_def)

lemma spec_if: "(b \<Longrightarrow> spec Q n k m) \<Longrightarrow> (\<not> b \<Longrightarrow> spec Q n k m') \<Longrightarrow> spec Q n k (if b then m else m')"
  by simp

lemma spec_prod: "(\<And>a b. x = (a, b) \<Longrightarrow> spec Q n k (f a b)) \<Longrightarrow> spec Q n k (case x of (a, b) \<Rightarrow> f a b)"
  by (cases x) simp

lemma spec_option:
  "(v = None \<Longrightarrow> spec Q n k m) \<Longrightarrow> (\<And>x. v = Some x \<Longrightarrow> spec Q n k (f x)) \<Longrightarrow>
     spec Q n k (case v of None \<Rightarrow> m | Some x \<Rightarrow> f x)"
  by (cases v) simp_all

lemma spec_when_kinds:
  assumes "spec (\<lambda>ks. Q ks \<and> hd ks \<in> set K) n k a" and "spec (\<lambda>ks. Q ks \<and> hd ks \<notin> set K) n k b"
  shows "spec Q n k (when_kinds K a b)"
  unfolding when_kinds_def
proof (rule spec_peek_bind)
  fix t
  show "spec (\<lambda>ks. Q ks \<and> hd ks = tkind t) n k (if tkind t \<in> set K then a else b)"
    by (auto intro: spec_mono [OF assms(1)] spec_mono [OF assms(2)])
qed

lemma spec_when_ahead:
  assumes a: "spec (\<lambda>ks. Q ks \<and> c ks) n k a" and b: "spec (\<lambda>ks. Q ks \<and> \<not> c ks) n k b"
  shows "spec Q n k (when_ahead c a b)"
proof (rule specI)
  fix env pos
  assume pre: "good_env env" "pos < length (ptokens env)" "Q (kinds env pos)" "room env pos \<le> n"
  show "(\<exists>e. when_ahead c a b env pos = Inl e \<and> parse_exn e)
    \<or> (\<exists>x p. when_ahead c a b env pos = Inr (x, p) \<and> pos + k \<le> p \<and> p < length (ptokens env))"
    using specD [OF a pre(1,2) _ pre(4)] specD [OF b pre(1,2) _ pre(4)] pre(3)
    by (auto simp: when_ahead_def kinds_def)
qed

lemma spec_bind0: "spec Q n 0 m \<Longrightarrow> (\<And>x. spec anywhere n k (f x)) \<Longrightarrow> spec Q n k (pbind m f)"
  by (rule spec_bind [where j = 0]) simp_all

lemma spec_bind1:
  "spec Q n 1 m \<Longrightarrow> (\<And>x. spec anywhere (n - 1) (k - 1) (f x)) \<Longrightarrow> spec Q n k (pbind m f)"
  by (rule spec_bind)

lemma spec_then0: "spec Q n 0 m \<Longrightarrow> spec anywhere n k m' \<Longrightarrow> spec Q n k (pthen m m')"
  unfolding pthen_def by (rule spec_bind0)

lemma spec_then1: "spec Q n 1 m \<Longrightarrow> spec anywhere (n - 1) (k - 1) m' \<Longrightarrow> spec Q n k (pthen m m')"
  unfolding pthen_def by (rule spec_bind1)

lemma spec_advance_then:
  assumes "\<And>ks. Q ks \<Longrightarrow> hd ks \<noteq> EOF" and "spec (\<lambda>ks. \<exists>k0. Q (k0 # ks)) (n - 1) (k - 1) m"
  shows "spec Q n k (pthen advance m)"
  unfolding pthen_def by (rule spec_advance_bind [OF assms(1)]) (auto intro: spec_mono [OF assms(2)])

lemma spec_expect_bind:
  assumes "K \<noteq> EOF"
    and f: "\<And>t. token_ok t \<Longrightarrow> tkind t = K \<Longrightarrow> spec (\<lambda>ks. Q (K # ks)) (n - 1) (k - 1) (f t)"
  shows "spec Q n k (pbind (expect K) f)"
proof -
  have "pbind (expect K) f = pbind peek (\<lambda>t. if tkind t \<noteq> K then perror ''Expected'' else pbind advance f)"
    by (rule ext)+ (simp add: expect_def pbind_def peek_def perror_def pfail_def)
  moreover have "spec Q n k \<dots>"
  proof (rule spec_peek_bind)
    fix t
    have "spec (\<lambda>ks. Q ks \<and> hd ks = K) n k (pbind advance f)"
    proof (rule spec_advance_bind)
      fix u
      assume u: "token_ok u"
      show "spec (\<lambda>ks. Q (tkind u # ks) \<and> hd (tkind u # ks) = K) (n - 1) (k - 1) (f u)"
      proof (cases "tkind u = K")
        case True
        from f [OF u True] show ?thesis by (rule spec_mono) (simp_all add: True)
      qed (simp add: spec_def)
    qed (use assms(1) in auto)
    then show "spec (\<lambda>ks. Q ks \<and> hd ks = tkind t) n k
        (if tkind t \<noteq> K then perror ''Expected'' else pbind advance f)"
      by (auto simp: spec_error)
  qed
  ultimately show ?thesis by simp
qed

lemma spec_expect_then:
  "K \<noteq> EOF \<Longrightarrow> spec (\<lambda>ks. Q (K # ks)) (n - 1) (k - 1) m \<Longrightarrow> spec Q n k (pthen (expect K) m)"
  unfolding pthen_def by (rule spec_expect_bind)

definition text_kind :: "tokkind \<Rightarrow> bool" where
  "text_kind K \<longleftrightarrow> K \<notin> {INTEGER, FLOAT, STRING, CHAR_LIT, BOOL}"

lemma text_valueE:
  assumes "token_ok t" and "text_kind (tkind t)"
  obtains s where "tvalue t = VText s" "text_value t = preturn s"
  using assms by (cases "tvalue t") (auto simp: token_ok.simps text_kind_def text_value_def)

lemma pbind_assoc: "pbind (pbind m f) g = pbind m (\<lambda>x. pbind (f x) g)"
proof (intro ext)
  fix env pos
  show "pbind (pbind m f) g env pos = pbind m (\<lambda>x. pbind (f x) g) env pos"
    by (cases "m env pos") (auto simp: pbind_def)
qed

lemma pbind_return: "pbind (preturn x) f = f x"
  by (rule ext)+ (simp add: pbind_def preturn_def)

lemma spec_expect_text_bind:
  assumes "text_kind K" and "K \<noteq> EOF" and f: "\<And>s. spec (\<lambda>ks. Q (K # ks)) (n - 1) (k - 1) (f s)"
  shows "spec Q n k (pbind (expect_text K) f)"
  unfolding expect_text_def pbind_assoc
proof (rule spec_expect_bind [OF assms(2)])
  fix t
  assume "token_ok t" "tkind t = K"
  with assms(1) obtain s where "text_value t = preturn s" by (auto elim: text_valueE)
  then show "spec (\<lambda>ks. Q (K # ks)) (n - 1) (k - 1) (pbind (text_value t) f)"
    by (simp only: pbind_return f)
qed

lemma spec_advance_text_bind:
  assumes Q: "\<And>ks. Q ks \<Longrightarrow> hd ks \<noteq> EOF \<and> text_kind (hd ks)"
    and f: "\<And>s. spec (\<lambda>ks. \<exists>k0. Q (k0 # ks)) (n - 1) (k - 1) (f s)"
  shows "spec Q n k (pbind advance_text f)"
  unfolding advance_text_def pbind_assoc
proof (rule spec_advance_bind)
  fix t
  assume t: "token_ok t"
  show "spec (\<lambda>ks. Q (tkind t # ks)) (n - 1) (k - 1) (pbind (text_value t) f)"
  proof (cases "text_kind (tkind t)")
    case True
    with t obtain s where "text_value t = preturn s" by (auto elim: text_valueE)
    then show ?thesis by (auto simp: pbind_return intro: spec_mono [OF f])
  next
    case False
    then have "\<not> Q (tkind t # ks)" for ks using Q [of "tkind t # ks"] by auto
    then show ?thesis by (simp add: spec_def)
  qed
qed (use Q in auto)

lemma spec_match: "K \<noteq> EOF \<Longrightarrow> spec Q n 0 (pmatch K)"
  unfolding pmatch_def
  by (rule spec_peek_bind, rule spec_if, rule spec_advance_then) (auto intro: spec_return)

lemma spec_spanned: "k = 0 \<Longrightarrow> spec Q n k (spanned start mk)"
  by (rule specI) (simp add: spanned_def pbind_def end_pos_def preturn_def)

lemma spec_rewound_bind:
  assumes m: "spec Q n j m" and f: "\<And>x. spec Q n k (f x)"
  shows "spec Q n k (pbind (rewound m) f)"
proof (rule specI)
  fix env pos
  assume pre: "good_env env" "pos < length (ptokens env)" "Q (kinds env pos)" "room env pos \<le> n"
  show "(\<exists>e. pbind (rewound m) f env pos = Inl e \<and> parse_exn e)
    \<or> (\<exists>x p. pbind (rewound m) f env pos = Inr (x, p) \<and> pos + k \<le> p \<and> p < length (ptokens env))"
  proof (cases "m env pos")
    case (Inl e)
    with specD [OF m pre] show ?thesis by (simp add: pbind_def rewound_def)
  next
    case (Inr r)
    with specD [OF f pre, of "fst r"] show ?thesis by (cases r) (auto simp: pbind_def rewound_def)
  qed
qed

lemma spec_lookahead_bind:
  assumes m: "spec Q n j m" and f: "\<And>x. spec Q n k (f x)"
  shows "spec Q n k (pbind (lookahead m) f)"
proof (rule specI)
  fix env pos
  assume pre: "good_env env" "pos < length (ptokens env)" "Q (kinds env pos)" "room env pos \<le> n"
  have "spec Q n j (pbind m (\<lambda>x. pbind peek (\<lambda>t. preturn (x, tkind t))))"
    by (rule spec_bind [OF m], rule spec_peek_bind, rule spec_return) simp
  from specD [OF this pre] have "(\<exists>x. lookahead m env pos = Inr (x, pos))
      \<or> (\<exists>e. lookahead m env pos = Inl e \<and> parse_exn e)"
    by (auto simp: lookahead_def split: exn.split)
  then show "(\<exists>e. pbind (lookahead m) f env pos = Inl e \<and> parse_exn e)
    \<or> (\<exists>x p. pbind (lookahead m) f env pos = Inr (x, p) \<and> pos + k \<le> p \<and> p < length (ptokens env))"
  proof
    assume "\<exists>x. lookahead m env pos = Inr (x, pos)"
    then obtain x where "lookahead m env pos = Inr (x, pos)" by blast
    with specD [OF f pre, of x] show ?thesis by (auto simp: pbind_def)
  qed (auto simp: pbind_def)
qed

lemma spec_zero: "spec Q 0 k m"
proof -
  have "0 < room env pos" if "pos < length (ptokens env)" for env pos
    using that length_le_weight [of "drop pos (ptokens env)"] unfolding room_def by simp
  then show ?thesis unfolding spec_def by (metis le_zero_eq less_numeral_extra(3))
qed

text \<open>The recursive calls up to a weight.\<close>

definition procs_ok :: "nat \<Rightarrow> procs \<Rightarrow> bool" where
  "procs_ok n P \<longleftrightarrow> p_fuel P = n \<and> spec anywhere n 1 (p_type P) \<and> spec anywhere n 1 (p_expr P)
     \<and> spec anywhere n 1 (p_unary P) \<and> spec anywhere n 1 (p_primary P) \<and> spec anywhere n 1 (p_stmt P)"

lemma procs_spec:
  assumes "procs_ok n P" and "m \<le> n" and "k \<le> 1"
  shows "spec Q m k (p_type P)" "spec Q m k (p_expr P)" "spec Q m k (p_unary P)"
    "spec Q m k (p_primary P)" "spec Q m k (p_stmt P)"
  using assms by (auto simp: procs_ok_def intro: spec_mono)

lemma spec_item: "spec anywhere m 1 item \<Longrightarrow> m' \<le> m \<Longrightarrow> k \<le> 1 \<Longrightarrow> spec Q m' k item"
  by (rule spec_mono) simp_all

lemma spec_comma_loop:
  "m \<le> n \<Longrightarrow> spec anywhere m 1 item \<Longrightarrow> k \<le> 1 \<Longrightarrow> spec Q m k (comma_loop n e item)"
proof (induction n arbitrary: m Q k)
  case (Suc n)
  have loop: "spec Q' m' k' (comma_loop n e item)" if "m' \<le> m - 1" "k' \<le> 1" for Q' m' k'
    using Suc.IH [of m' k' Q'] that Suc.prems(1) spec_item [OF Suc.prems(2), of m' 1 anywhere] by simp
  show ?case
    unfolding comma_loop.simps
    by (rule spec_bind1, rule spec_item [OF Suc.prems(2)], simp, simp, rule spec_when_kinds,
        rule spec_advance_then, force, rule spec_when_kinds, rule spec_return, use Suc.prems(3) in simp,
        rule spec_bind0, rule loop, simp, simp, rule spec_return, use Suc.prems(3) in simp,
        rule spec_return, use Suc.prems(3) in simp)
qed (simp add: spec_zero)

lemma spec_until_loop:
  "m \<le> n \<Longrightarrow> spec anywhere m 1 item \<Longrightarrow> spec Q m 0 (until_loop n K item)"
proof (induction n arbitrary: m Q)
  case (Suc n)
  have loop: "spec Q' m' 0 (until_loop n K item)" if "m' \<le> m - 1" for Q' m'
    using Suc.IH [of m' Q'] that Suc.prems(1) spec_item [OF Suc.prems(2), of m' 1 anywhere] by simp
  show ?case
    unfolding until_loop.simps
    by (rule spec_when_kinds, rule spec_return, simp, rule spec_bind1, rule spec_item [OF Suc.prems(2)],
        simp, simp, rule spec_bind0, rule loop, simp, rule spec_return, simp)
qed (simp add: spec_zero)

lemma spec_binary_loop:
  assumes K: "\<forall>k \<in> set K. k \<noteq> EOF \<and> text_kind k"
  shows "m \<le> n \<Longrightarrow> spec anywhere m 1 operand \<Longrightarrow> spec Q m 0 (binary_loop n K operand left)"
proof (induction n arbitrary: m Q left)
  case (Suc n)
  have loop: "spec Q' m' 0 (binary_loop n K operand e)" if "m' \<le> m - 1" for Q' m' e
    using Suc.IH [of m' Q'] that Suc.prems(1) spec_item [OF Suc.prems(2), of m' 1 anywhere] by simp
  show ?case
    unfolding binary_loop.simps
    by (rule spec_when_kinds, rule spec_advance_text_bind, use K in auto, rule spec_bind0,
        rule spec_item [OF Suc.prems(2)], simp, simp, rule loop, simp, rule spec_return, simp)
qed (simp add: spec_zero)

lemma spec_comma_list:
  assumes "procs_ok n P" and "m \<le> n" and "spec anywhere m 1 item" and "k = 0"
  shows "spec Q m k (comma_list P e item)"
  unfolding comma_list_def
  by (rule spec_when_kinds, rule spec_return, use assms in simp, rule spec_comma_loop)
    (use assms in \<open>auto simp: procs_ok_def\<close>)

lemma spec_until:
  assumes "procs_ok n P" and "m \<le> n" and "spec anywhere m 1 item" and "k = 0"
  shows "spec Q m k (until_loop (p_fuel P) K item)"
  using assms spec_until_loop [of m n item Q K] by (simp add: procs_ok_def)

lemma spec_binary:
  assumes "procs_ok n P" and "m \<le> Suc n" and "spec anywhere m 1 operand" and "k \<le> 1"
    and "\<forall>k \<in> set K. k \<noteq> EOF \<and> text_kind k"
  shows "spec Q m k (binary P K operand)"
proof -
  have "spec anywhere (m - 1) 1 operand" by (rule spec_item [OF assms(3)]) simp_all
  with spec_binary_loop [OF assms(5), of "m - 1" n operand anywhere] assms(1,2,4)
  have "spec anywhere (m - 1) (k - 1) (binary_loop (p_fuel P) K operand x)" for x
    by (simp add: procs_ok_def)
  from spec_bind1 [OF spec_item [OF assms(3)] this] show ?thesis
    unfolding binary_def by simp
qed

subsection \<open>Each method\<close>

text \<open>
  \<open>spec_rules\<close> holds the rules of the control flow, \<open>spec_leaf\<close> what is known of the methods
  defined so far: they move on by a token.
\<close>

lemmas spec_rules =
  spec_return spec_error spec_spanned spec_if spec_prod spec_option spec_when_kinds spec_when_ahead
  spec_advance_then spec_expect_then spec_advance_text_bind spec_advance_bind spec_peek_bind
  spec_expect_text_bind spec_expect_bind spec_match

lemma text_kind_simps [simp]:
  "text_kind IDENT" "text_kind (Op x)" "text_kind (Kw y)" "text_kind LBRACE" "text_kind LBRACKET"
  by (simp_all add: text_kind_def)

lemma spec_int_value:
  assumes "token_ok t" and "tkind t = INTEGER" and "\<And>n s. spec Q m k (f (n, s))"
  shows "spec Q m k (pbind (int_value t) f)"
proof -
  obtain n s where "tvalue t = VInt n s"
    using assms(1,2) by (cases "tvalue t") (auto simp: token_ok.simps)
  then show ?thesis using assms(3) by (simp add: int_value_def pbind_return)
qed

lemma spec_array_length: "k = 0 \<Longrightarrow> spec Q n k parse_array_length"
  unfolding parse_array_length_def
  apply (rule spec_bind0)
  apply ((rule spec_rules spec_int_value | assumption | (simp; fail))+)
  done

lemma spec_dotted: "k = 0 \<Longrightarrow> spec Q n k (parse_dotted name)"
  unfolding parse_dotted_def
  by ((rule spec_rules | assumption | (simp; fail) | (auto; fail))+)

lemma spec_type_arg_list:
  "procs_ok n P \<Longrightarrow> m \<le> Suc n \<Longrightarrow> k \<le> 1 \<Longrightarrow> spec Q m k (parse_type_arg_list P)"
  unfolding parse_type_arg_list_def
  by ((rule spec_rules procs_spec | (rule spec_bind0, rule spec_comma_list) | assumption | (simp; fail) | (auto; fail))+)

lemma spec_type:
  "procs_ok n P \<Longrightarrow> m \<le> Suc n \<Longrightarrow> k \<le> 1 \<Longrightarrow> spec Q m k (parse_type P)"
  unfolding parse_type_def
  by ((rule spec_rules procs_spec spec_type_arg_list
      | (rule spec_bind0, rule spec_comma_list spec_match spec_array_length spec_dotted)
      | (rule spec_bind1, rule procs_spec spec_type_arg_list)
      | assumption | (simp; fail) | (auto; fail))+)

lemmas spec_leaf0 = spec_comma_list spec_until spec_match spec_array_length spec_dotted spec_spanned

lemma spec_type_param:
  "k \<le> 1 \<Longrightarrow> spec Q m k (parse_type_param)"
  unfolding parse_type_param_def
  by ((rule spec_rules procs_spec 
      | (rule spec_bind0 spec_then0, rule spec_leaf0 )
      | (rule spec_bind1 spec_then1, rule procs_spec )
      | (rule spec_bind0)
      | assumption | (simp; fail) | (auto; fail))+)

lemma spec_type_params:
  "procs_ok n P \<Longrightarrow> m \<le> Suc n \<Longrightarrow> k = 0 \<Longrightarrow> spec Q m k (parse_type_params P)"
  unfolding parse_type_params_def
  by ((rule spec_rules procs_spec spec_type_param
      | (rule spec_bind0 spec_then0, rule spec_leaf0 )
      | (rule spec_bind1 spec_then1, rule procs_spec spec_type_param)
      | (rule spec_bind0)
      | assumption | (simp; fail) | (auto; fail))+)

lemma spec_param:
  "procs_ok n P \<Longrightarrow> m \<le> Suc n \<Longrightarrow> k \<le> 1 \<Longrightarrow> spec Q m k (parse_param P d)"
  unfolding parse_param_def
  by ((rule spec_rules procs_spec spec_type
      | (rule spec_bind0 spec_then0, rule spec_leaf0 )
      | (rule spec_bind1 spec_then1, rule procs_spec spec_type)
      | (rule spec_bind0)
      | assumption | (simp; fail) | (auto; fail))+)

lemma spec_param_list:
  "procs_ok n P \<Longrightarrow> m \<le> n \<Longrightarrow> k = 0 \<Longrightarrow> spec Q m k (parse_param_list P d)"
  unfolding parse_param_list_def
  by ((rule spec_rules procs_spec spec_param
      | (rule spec_bind0 spec_then0, rule spec_leaf0 )
      | (rule spec_bind1 spec_then1, rule procs_spec spec_param)
      | (rule spec_bind0) | rule spec_comma_list
      | assumption | (simp; fail) | (auto; fail))+)

lemma spec_signature:
  "procs_ok n P \<Longrightarrow> m \<le> Suc n \<Longrightarrow> k \<le> 1 \<Longrightarrow> spec Q m k (parse_signature P d)"
  unfolding parse_signature_def
  by ((rule spec_rules procs_spec spec_type
      | (rule spec_bind0 spec_then0, rule spec_leaf0 spec_param_list)
      | (rule spec_bind1 spec_then1, rule procs_spec spec_type)
      | (rule spec_bind0)
      | assumption | (simp; fail) | (auto; fail))+)

lemma spec_block:
  "procs_ok n P \<Longrightarrow> m \<le> Suc n \<Longrightarrow> k \<le> 1 \<Longrightarrow> spec Q m k (parse_block P)"
  unfolding parse_block_def
  by ((rule spec_rules procs_spec 
      | (rule spec_bind0 spec_then0, rule spec_leaf0 )
      | (rule spec_bind1 spec_then1, rule procs_spec )
      | (rule spec_bind0)
      | assumption | (simp; fail) | (auto; fail))+)

lemma spec_function:
  "procs_ok n P \<Longrightarrow> m \<le> Suc n \<Longrightarrow> k \<le> 1 \<Longrightarrow> (\<And>ks. Q ks \<Longrightarrow> hd ks \<noteq> EOF) \<Longrightarrow> spec Q m k (parse_function P)"
  unfolding parse_function_def
  by ((rule spec_rules procs_spec spec_type spec_signature spec_block
      | (rule spec_bind0 spec_then0, rule spec_leaf0 spec_type_params)
      | (rule spec_bind1 spec_then1, rule procs_spec spec_type spec_signature spec_block)
      | (rule spec_bind0)
      | assumption | (simp; fail) | (auto; fail))+)

lemma spec_function_signature_only:
  "procs_ok n P \<Longrightarrow> m \<le> Suc n \<Longrightarrow> k \<le> 1 \<Longrightarrow> (\<And>ks. Q ks \<Longrightarrow> hd ks \<noteq> EOF) \<Longrightarrow> spec Q m k (parse_function_signature_only P lib)"
  unfolding parse_function_signature_only_def
  by ((rule spec_rules procs_spec spec_signature
      | (rule spec_bind0 spec_then0, rule spec_leaf0 spec_type_params)
      | (rule spec_bind1 spec_then1, rule procs_spec spec_signature)
      | (rule spec_bind0)
      | assumption | (simp; fail) | (auto; fail))+)

lemma spec_function_expr:
  "procs_ok n P \<Longrightarrow> m \<le> Suc n \<Longrightarrow> k \<le> 1 \<Longrightarrow> spec Q m k (parse_function_expr P start)"
  unfolding parse_function_expr_def
  by ((rule spec_rules procs_spec spec_signature spec_block
      | (rule spec_bind0 spec_then0, rule spec_leaf0)
      | (rule spec_bind1 spec_then1, rule procs_spec spec_signature spec_block)
      | (rule spec_bind0)
      | assumption | (simp; fail) | (auto; fail))+)

lemma spec_parse_return:
  "procs_ok n P \<Longrightarrow> m \<le> Suc n \<Longrightarrow> k \<le> 1 \<Longrightarrow> (\<And>ks. Q ks \<Longrightarrow> hd ks \<noteq> EOF) \<Longrightarrow> spec Q m k (parse_return P)"
  unfolding parse_return_def
  by ((rule spec_rules procs_spec
      | (rule spec_bind0 spec_then0, rule spec_leaf0)
      | (rule spec_bind1 spec_then1, rule procs_spec)
      | (rule spec_bind0)
      | assumption | (simp; fail) | (auto; fail))+)

lemma spec_parse_err_return:
  "procs_ok n P \<Longrightarrow> m \<le> Suc n \<Longrightarrow> k \<le> 1 \<Longrightarrow> (\<And>ks. Q ks \<Longrightarrow> hd ks \<noteq> EOF) \<Longrightarrow> spec Q m k (parse_err_return P)"
  unfolding parse_err_return_def
  by ((rule spec_rules procs_spec
      | (rule spec_bind0 spec_then0, rule spec_leaf0)
      | (rule spec_bind1 spec_then1, rule procs_spec)
      | (rule spec_bind0)
      | assumption | (simp; fail) | (auto; fail))+)

lemma spec_call_args:
  "procs_ok n P \<Longrightarrow> m \<le> n \<Longrightarrow> k = 0 \<Longrightarrow> spec Q m k (parse_call_args P)"
  unfolding parse_call_args_def
  by ((rule spec_rules procs_spec
      | (rule spec_bind0 spec_then0, rule spec_leaf0)
      | (rule spec_bind1 spec_then1, rule procs_spec)
      | (rule spec_bind0) | rule spec_comma_list
      | assumption | (simp; fail) | (auto; fail))+)

lemma spec_struct_literal_fields:
  "procs_ok n P \<Longrightarrow> m \<le> n \<Longrightarrow> k = 0 \<Longrightarrow> spec Q m k (parse_struct_literal_fields P)"
  unfolding parse_struct_literal_fields_def
  by ((rule spec_rules procs_spec
      | (rule spec_bind0 spec_then0, rule spec_leaf0)
      | (rule spec_bind1 spec_then1, rule procs_spec)
      | (rule spec_bind0) | rule spec_comma_list
      | assumption | (simp; fail) | (auto; fail))+)

lemma spec_map_literal_entries:
  "procs_ok n P \<Longrightarrow> m \<le> n \<Longrightarrow> k = 0 \<Longrightarrow> spec Q m k (parse_map_literal_entries P)"
  unfolding parse_map_literal_entries_def
  by ((rule spec_rules procs_spec
      | (rule spec_bind0 spec_then0, rule spec_leaf0)
      | (rule spec_bind1 spec_then1, rule procs_spec)
      | (rule spec_bind0) | rule spec_comma_list
      | assumption | (simp; fail) | (auto; fail))+)

lemma spec_match_arm:
  "procs_ok n P \<Longrightarrow> m \<le> n \<Longrightarrow> k \<le> 1 \<Longrightarrow> spec Q m k (parse_match_arm P)"
  unfolding parse_match_arm_def
  by ((rule spec_rules procs_spec
      | (rule spec_bind0 spec_then0, rule spec_leaf0)
      | (rule spec_bind1 spec_then1, rule procs_spec)
      | (rule spec_bind0)
      | assumption | (simp; fail) | (auto; fail))+)

lemma spec_match_arms:
  "procs_ok n P \<Longrightarrow> m \<le> Suc n \<Longrightarrow> k \<le> 1 \<Longrightarrow> spec Q m k (parse_match_arms P)"
  unfolding parse_match_arms_def
  by ((rule spec_rules procs_spec spec_match_arm
      | (rule spec_bind0 spec_then0, rule spec_leaf0)
      | (rule spec_bind1 spec_then1, rule procs_spec spec_match_arm)
      | (rule spec_bind0)
      | assumption | (simp; fail) | (auto; fail))+)

lemma spec_parse_if:
  "procs_ok n P \<Longrightarrow> m \<le> Suc n \<Longrightarrow> k \<le> 1 \<Longrightarrow> (\<And>ks. Q ks \<Longrightarrow> hd ks \<noteq> EOF) \<Longrightarrow> spec Q m k (parse_if P)"
  unfolding parse_if_def
  by ((rule spec_rules procs_spec spec_block
      | (rule spec_bind0 spec_then0, rule spec_leaf0)
      | (rule spec_bind1 spec_then1, rule procs_spec spec_block)
      | (rule spec_bind0)
      | assumption | (simp; fail) | (auto; fail))+)

lemma spec_parse_match:
  "procs_ok n P \<Longrightarrow> m \<le> Suc n \<Longrightarrow> k \<le> 1 \<Longrightarrow> (\<And>ks. Q ks \<Longrightarrow> hd ks \<noteq> EOF) \<Longrightarrow> spec Q m k (parse_match P)"
  unfolding parse_match_def
  by ((rule spec_rules procs_spec spec_match_arms
      | (rule spec_bind0 spec_then0, rule spec_leaf0)
      | (rule spec_bind1 spec_then1, rule procs_spec spec_match_arms)
      | (rule spec_bind0)
      | assumption | (simp; fail) | (auto; fail))+)

lemma spec_parse_new:
  "procs_ok n P \<Longrightarrow> m \<le> Suc n \<Longrightarrow> k \<le> 1 \<Longrightarrow> (\<And>ks. Q ks \<Longrightarrow> hd ks \<noteq> EOF) \<Longrightarrow> spec Q m k (parse_new P)"
  unfolding parse_new_def
  by ((rule spec_rules procs_spec spec_type_arg_list
      | (rule spec_bind0 spec_then0, rule spec_leaf0 spec_struct_literal_fields)
      | (rule spec_bind1 spec_then1, rule procs_spec spec_type_arg_list)
      | (rule spec_bind0)
      | assumption | (simp; fail) | (auto; fail))+)

lemma spec_bracket_literal:
  "procs_ok n P \<Longrightarrow> m \<le> Suc n \<Longrightarrow> k \<le> 1 \<Longrightarrow> (\<And>ks. Q ks \<Longrightarrow> hd ks \<noteq> EOF) \<Longrightarrow> spec Q m k (parse_bracket_literal P)"
  unfolding parse_bracket_literal_def
  by ((rule spec_rules procs_spec spec_type
      | (rule spec_bind0 spec_then0, rule spec_leaf0)
      | (rule spec_bind1 spec_then1, rule procs_spec spec_type)
      | (rule spec_bind0)
      | assumption | (simp; fail) | (auto; fail))+)

lemma spec_braced_fields:
  "procs_ok n P \<Longrightarrow> m \<le> Suc n \<Longrightarrow> k \<le> 1 \<Longrightarrow> (\<And>ks. Q ks \<Longrightarrow> hd ks \<noteq> EOF) \<Longrightarrow> spec Q m k (parse_braced_fields P start name)"
  unfolding parse_braced_fields_def
  by ((rule spec_rules procs_spec
      | (rule spec_bind0 spec_then0, rule spec_leaf0 spec_struct_literal_fields)
      | (rule spec_bind1 spec_then1, rule procs_spec)
      | (rule spec_bind0)
      | assumption | (simp; fail) | (auto; fail))+)

lemma spec_enum_ref:
  "k \<le> 1 \<Longrightarrow> (\<And>ks. Q ks \<Longrightarrow> hd ks \<noteq> EOF) \<Longrightarrow> spec Q m k (parse_enum_ref name)"
  unfolding parse_enum_ref_def
  by ((rule spec_rules procs_spec
      | (rule spec_bind0 spec_then0, rule spec_leaf0)
      | (rule spec_bind1 spec_then1, rule procs_spec)
      | (rule spec_bind0)
      | assumption | (simp; fail) | (auto; fail))+)

subsection \<open>Interpolated strings and names\<close>

lemma parse_part_ok:
  assumes P: "procs_ok n P" and w: "part_weight part \<le> Suc n"
  shows "(\<exists>e. parse_part P imports part = Inl e \<and> parse_exn e) \<or> (\<exists>x. parse_part P imports part = Inr x)"
proof (cases part)
  case (PExpr s)
  show ?thesis
  proof (cases "lex s")
    case (Inl e)
    then have "parse_exn e"
      using lex_from_error [of 0 s e] by (auto simp: lex_def lex_error_def)
    with Inl PExpr show ?thesis by (simp add: parse_part_def)
  next
    case (Inr ts)
    let ?env = "\<lparr>ptokens = ts, imported_modules = imports\<rparr>"
    have good: "good_env ?env" "0 < length ts"
      using lex_eof_terminated [OF Inr] lex_token_ok [OF Inr] by (auto simp: good_env_def eof_terminated_def)
    have "room ?env 0 \<le> n" using lex_weight [OF Inr] w PExpr by (simp add: room_def)
    then have "(\<exists>e. p_expr P ?env 0 = Inl e \<and> parse_exn e)
        \<or> (\<exists>x p. p_expr P ?env 0 = Inr (x, p) \<and> p < length ts)"
      using specD [OF procs_spec(2) [OF P order_refl, of 0 anywhere] good(1), of 0] good(2) by auto
    then consider (err) e where "p_expr P ?env 0 = Inl e" "parse_exn e"
      | (ok) x p where "p_expr P ?env 0 = Inr (x, p)" "p < length ts" by blast
    then show ?thesis
    proof cases
      case err
      then show ?thesis by (simp add: parse_part_def PExpr Inr pbind_def)
    next
      case ok
      then show ?thesis
        by (cases "tkind (ts ! p) = EOF") (simp_all add: parse_part_def PExpr Inr pbind_def pthen_def
            expect_def peek_def advance_def perror_def pfail_def preturn_def)
    qed
  qed
qed (simp add: parse_part_def)

lemma parse_parts_ok:
  assumes "procs_ok n P" and "\<forall>p \<in> set ps. part_weight p \<le> Suc n"
  shows "(\<exists>e. rmap (parse_part P imports) ps = Inl e \<and> parse_exn e)
    \<or> (\<exists>xs. rmap (parse_part P imports) ps = Inr xs)"
  using assms(2)
proof (induction ps)
  case (Cons p ps)
  then have "part_weight p \<le> Suc n" by simp
  from parse_part_ok [OF assms(1) this, of "imports"] Cons show ?case by auto
qed simp

lemma part_weight_le: "p \<in> set ps \<Longrightarrow> part_weight p \<le> val_weight (VInterp ps)"
  by (induction ps) auto

lemma spec_literal:
  assumes P: "procs_ok n P" and m: "m \<le> Suc n" and k: "k \<le> 1"
    and Q: "\<And>ks. Q ks \<Longrightarrow> hd ks \<in> {STRING, INTEGER, FLOAT, BOOL, CHAR_LIT}"
  shows "spec Q m k (parse_literal P)"
proof (rule specI)
  fix env pos
  assume pre: "good_env env" "pos < length (ptokens env)" "Q (kinds env pos)" "room env pos \<le> m"
  let ?t = "ptokens env ! pos"
  have kind: "tkind ?t \<in> {STRING, INTEGER, FLOAT, BOOL, CHAR_LIT}"
    using Q [OF pre(3)] kinds_Cons [OF pre(2)] by simp
  then have s: "Suc pos < length (ptokens env)" using good_env_not_last [OF pre(1,2)] by auto
  have tok: "token_ok ?t" using pre(1,2) by (simp add: good_env_def)
  have "token_weight ?t \<le> Suc n"
    using pre(4) m by (simp add: room_def nth_drop_hd [OF pre(2)])
  then have parts: "tvalue ?t = VInterp ps \<Longrightarrow> \<forall>p \<in> set ps. part_weight p \<le> Suc n" for ps
    using part_weight_le [of _ ps] by (fastforce simp: token_weight_def)
  show "(\<exists>e. parse_literal P env pos = Inl e \<and> parse_exn e)
    \<or> (\<exists>x p. parse_literal P env pos = Inr (x, p) \<and> pos + k \<le> p \<and> p < length (ptokens env))"
  proof (cases "tvalue ?t")
    case (VInterp ps)
    from parse_parts_ok [OF P parts [OF VInterp], of "imported_modules env"] VInterp s k show ?thesis
      by (auto simp: parse_literal_def parse_interpolated_parts_def pbind_def advance_def spanned_def
          end_pos_def preturn_def)
  next
    case (VText s)
    with tok kind show ?thesis by (auto simp: token_ok.simps)
  qed (use s k in \<open>auto simp: parse_literal_def pbind_def advance_def spanned_def end_pos_def preturn_def\<close>)
qed

lemma nth_kind_0 [simp]: "nth_kind 0 K ks \<longleftrightarrow> (\<exists>r. ks = K # r)"
  by (cases ks) (auto simp: nth_kind_def)

lemma nth_kind_Suc [simp]: "nth_kind (Suc i) K (k # ks) = nth_kind i K ks"
  by (simp add: nth_kind_def)

lemma nth_kind_numeral [simp]: "nth_kind (numeral i) K (k # ks) = nth_kind (pred_numeral i) K ks"
  by (simp add: nth_kind_def)

lemma spec_struct_literal_ahead_bind:
  assumes "\<And>ks. Q ks \<Longrightarrow> hd ks \<noteq> EOF" and f: "\<And>x. spec Q n k (f x)"
  shows "spec Q n k (pbind struct_literal_ahead f)"
  unfolding struct_literal_ahead_def
proof (rule spec_rewound_bind [where j = 0])
  show "spec Q n 0 (pthen advance
     (when_kind RBRACE (preturn True)
        (when_kind IDENT (pthen advance (when_kind COLON (preturn True) (preturn False))) (preturn False))))"
    by (rule spec_advance_then, rule assms(1), assumption)
      ((rule spec_rules | assumption | (simp; fail) | (auto; fail))+)
qed (rule f)

lemma spec_name_tail:
  "procs_ok n P \<Longrightarrow> m \<le> Suc n \<Longrightarrow> k = 0 \<Longrightarrow> spec Q m k (parse_name_tail P start name)"
  unfolding parse_name_tail_def
  by ((rule spec_rules procs_spec spec_struct_literal_ahead_bind spec_braced_fields
      | (rule spec_bind0 spec_then0, rule spec_leaf0)
      | (rule spec_bind1 spec_then1, rule procs_spec spec_struct_literal_ahead_bind spec_braced_fields)
      | (rule spec_bind0)
      | assumption | (simp; fail) | (auto; fail))+)

lemma spec_generic_name:
  assumes P: "procs_ok n P" and m: "m \<le> n" and k: "k = 0"
  shows "spec Q m k (parse_generic_name P start name)"
proof (rule specI)
  fix env pos
  assume pre: "good_env env" "pos < length (ptokens env)" "Q (kinds env pos)" "room env pos \<le> m"
  let ?fits = "\<lambda>r. (\<exists>e. r = Inl e \<and> parse_exn e)
    \<or> (\<exists>x p. r = Inr (x, p) \<and> pos + k \<le> p \<and> p < length (ptokens env))"
  have here: "?fits (parse_name_tail P start name env pos)"
    using specD [OF spec_name_tail [OF P _ refl, of m anywhere start name] pre(1,2) _ pre(4)] m k by auto
  let ?call = "\<lambda>type_args. pthen advance (pbind (parse_call_args P) (\<lambda>args.
      pthen (expect RPAREN) (spanned start (\<lambda>sp. FunctionCall sp name args type_args))))"
  have "spec anywhere m 1 (parse_type_arg_list P)"
    by (rule spec_type_arg_list [OF P]) (use m in simp_all)
  from specD [OF this pre(1,2) _ pre(4)]
  consider (err) e where "parse_type_arg_list P env pos = Inl e" "parse_exn e"
    | (ok) args p where "parse_type_arg_list P env pos = Inr (args, p)" "pos < p" "p < length (ptokens env)"
    by auto
  then show "?fits (parse_generic_name P start name env pos)"
  proof cases
    case err
    then show ?thesis by (simp add: parse_generic_name_def pbind_def)
  next
    case ok
    have room: "room env p \<le> m" using room_drop [of pos 0 p env] ok pre(4) by simp
    note at = pre(1) ok(3) _ room
    have call: "spec (\<lambda>ks. hd ks = LPAREN) m 0 (?call args)"
      by ((rule spec_rules | (rule spec_bind0, rule spec_call_args [OF P]) | use m in \<open>simp; fail\<close>)+)
    have tail: "spec anywhere m 0 (parse_name_tail P start n')" for n'
      by (rule spec_name_tail [OF P]) (use m in simp_all)
    have ahead: "spec (\<lambda>ks. hd ks = LBRACE) m 0 (pbind struct_literal_ahead preturn)"
      by (rule spec_struct_literal_ahead_bind) (auto intro: spec_return)
    have eq: "parse_generic_name P start name env pos =
        (if tkind (ptokens env ! p) = LPAREN then ?call args env p
         else if tkind (ptokens env ! p) = LBRACE then
           rbind (struct_literal_ahead env p) (\<lambda>(b, q).
             if b then parse_name_tail P start (generic_name name args) env q
             else parse_name_tail P start name env pos)
         else parse_name_tail P start name env pos)"
      using ok by (cases "struct_literal_ahead env p")
        (auto simp: parse_generic_name_def pbind_def when_kinds_def peek_def)
    have weaken: "?fits r" if "(\<exists>e. r = Inl e \<and> parse_exn e)
        \<or> (\<exists>x q. r = Inr (x, q) \<and> p + 0 \<le> q \<and> q < length (ptokens env))" for r
      using that ok(2) k by force
    have hd: "hd (kinds env p) = tkind (ptokens env ! p)" using kinds_Cons [OF ok(3)] by simp
    show ?thesis
    proof (cases "tkind (ptokens env ! p) = LPAREN")
      case True
      with weaken [OF specD [OF call at]] hd eq show ?thesis by simp
    next
      case not_call: False
      show ?thesis
      proof (cases "tkind (ptokens env ! p) = LBRACE")
        case True
        have gen: "?fits (parse_name_tail P start (generic_name name args) env p)"
          by (rule weaken, rule specD [OF tail at]) simp
        from specD [OF ahead at] hd True have "(\<exists>e. struct_literal_ahead env p = Inl e \<and> parse_exn e)
            \<or> (\<exists>b. struct_literal_ahead env p = Inr (b, p))"
          by (auto simp: struct_literal_ahead_def rewound_def pbind_def preturn_def rbind_eq_Inl
              split: prod.splits)
        then show ?thesis
        proof
          assume "\<exists>b. struct_literal_ahead env p = Inr (b, p)"
          then obtain b where "struct_literal_ahead env p = Inr (b, p)" by blast
          with eq not_call True have "parse_generic_name P start name env pos =
              (if b then parse_name_tail P start (generic_name name args) env p
               else parse_name_tail P start name env pos)" by simp
          with here gen show ?thesis by (cases b) simp_all
        qed (use eq not_call True in auto)
      qed (use not_call here eq in simp)
    qed
  qed
qed

lemma spec_advance_text_value:
  assumes Q: "\<And>ks. Q ks \<Longrightarrow> hd ks \<noteq> EOF \<and> text_kind (hd ks)"
    and f: "\<And>t s. spec (\<lambda>ks. Q (tkind t # ks)) (n - 1) (k - 1) (f t s)"
  shows "spec Q n k (pbind advance (\<lambda>t. pbind (text_value t) (f t)))"
proof (rule spec_advance_bind)
  fix t
  assume t: "token_ok t"
  show "spec (\<lambda>ks. Q (tkind t # ks)) (n - 1) (k - 1) (pbind (text_value t) (f t))"
  proof (cases "text_kind (tkind t)")
    case True
    with t obtain s where "text_value t = preturn s" by (auto elim: text_valueE)
    then show ?thesis by (simp only: pbind_return f)
  next
    case False
    then have "\<not> Q (tkind t # ks)" for ks using Q [of "tkind t # ks"] by auto
    then show ?thesis by (simp add: spec_def)
  qed
qed (use Q in auto)

lemma spec_parse_name:
  assumes P: "procs_ok n P" and m: "m \<le> Suc n" and k: "k \<le> 1" and Q: "\<And>ks. Q ks \<Longrightarrow> hd ks = IDENT"
  shows "spec Q m k (parse_name P)"
  unfolding parse_name_def Let_def
  apply (rule spec_advance_text_value)
  subgoal using Q by auto
  apply (rule spec_mono [where Q = anywhere and n = n and k = 0])
  subgoal
    by ((rule spec_rules
      | (rule spec_bind0 spec_then0, rule spec_leaf0 spec_map_literal_entries [OF P])
      | (rule spec_bind1 spec_then1, rule spec_type_arg_list [OF P])
      | rule spec_generic_name [OF P] spec_name_tail [OF P] spec_enum_ref spec_braced_fields [OF P]
      | assumption | (simp; fail) | (auto; fail))+)
  using m k by simp_all

lemma spec_primary:
  assumes P: "procs_ok n P" and m: "m \<le> Suc n" and k: "k \<le> 1"
  shows "spec Q m k (parse_primary P)"
  unfolding parse_primary_def
  by (rule spec_peek_bind)
    ((rule spec_if spec_error
      | rule spec_parse_if [OF P m k] spec_parse_match [OF P m k] spec_parse_return [OF P m k]
          spec_parse_err_return [OF P m k] spec_literal [OF P m k] spec_parse_new [OF P m k]
          spec_parse_name [OF P m k] spec_bracket_literal [OF P m k]
      | (rule spec_bind1, rule spec_block [OF P m])
      | (rule spec_bind1, rule procs_spec [OF P])
      | rule spec_function_expr [OF P] spec_spanned spec_advance_then spec_expect_then spec_return
      | (use m k in \<open>simp; fail\<close>) | (use m k in \<open>auto; fail\<close>))+)

subsection \<open>Postfix operators and statements\<close>

lemma spec_spanned_from: "k = 0 \<Longrightarrow> spec Q n k (spanned_from sp mk)"
  unfolding spanned_from_def by ((rule spec_rules | simp)+)

lemma spec_pimports_bind: "(\<And>x. spec Q n k (f x)) \<Longrightarrow> spec Q n k (pbind pimports f)"
  unfolding spec_def pbind_def pimports_def by simp

lemma spec_postfix_call:
  assumes P: "procs_ok n P" and m: "m \<le> Suc n" and k: "k \<le> 1" and Q: "\<And>ks. Q ks \<Longrightarrow> hd ks \<noteq> EOF"
  shows "spec Q m k (postfix_call P e)"
  unfolding postfix_call_def
  apply (rule spec_advance_then)
  subgoal using Q by auto
  apply (rule spec_mono [where Q = anywhere and n = n and k = 0])
  subgoal
    by (cases e;
      (simp only: node.case, ((rule spec_if spec_error spec_spanned_from spec_expect_then
      | (rule spec_bind0, rule spec_call_args [OF P])
      | (rule spec_bind1, rule spec_type [OF P]) | (simp; fail))+)))
  using m k by simp_all

lemma spec_index_or_slice:
  "procs_ok n P \<Longrightarrow> m \<le> Suc n \<Longrightarrow> k \<le> 1 \<Longrightarrow> (\<And>ks. Q ks \<Longrightarrow> hd ks \<noteq> EOF) \<Longrightarrow> spec Q m k (index_or_slice P e args)"
  unfolding index_or_slice_def
  by ((rule spec_rules procs_spec
      | (rule spec_bind0 spec_then0, rule spec_leaf0)
      | (rule spec_bind1 spec_then1, rule procs_spec)
      | (rule spec_bind0)
      | assumption | (simp; fail) | (auto; fail))+)

lemma spec_postfix_bracket:
  assumes P: "procs_ok n P" and m: "m \<le> Suc n" and k: "k \<le> 1" and Q: "\<And>ks. Q ks \<Longrightarrow> hd ks \<noteq> EOF"
  shows "spec Q m k (postfix_bracket P e)"
proof -
  note slice = spec_index_or_slice [OF P m k]
  note args = spec_type_arg_list [OF P m]
  show ?thesis
    unfolding postfix_bracket_def
    by (cases e;
      (simp only: node.case, ((rule slice spec_if spec_option spec_prod spec_when_ahead
      | (rule spec_lookahead_bind, rule args [of 0]) | (rule spec_then1, rule args)
      | rule spec_return
      | (use Q k in \<open>simp; fail\<close>) | (use Q in \<open>auto; fail\<close>))+)))
qed

lemma spec_postfix_generic_member:
  "procs_ok n P \<Longrightarrow> m \<le> Suc n \<Longrightarrow> k \<le> 1 \<Longrightarrow> spec Q m k (postfix_generic_member P q)"
  unfolding postfix_generic_member_def
  by ((rule spec_rules procs_spec spec_type_arg_list
      | (rule spec_bind0 spec_then0, rule spec_leaf0 spec_call_args spec_struct_literal_fields)
      | (rule spec_bind1 spec_then1, rule procs_spec spec_type_arg_list)
      | (rule spec_bind0)
      | assumption | (simp; fail) | (auto; fail))+)

lemma spec_postfix_dot:
  "procs_ok n P \<Longrightarrow> m \<le> Suc n \<Longrightarrow> k \<le> 1 \<Longrightarrow> (\<And>ks. Q ks \<Longrightarrow> hd ks \<noteq> EOF) \<Longrightarrow> spec Q m k (postfix_dot P e)"
  unfolding postfix_dot_def Let_def
  by ((rule spec_rules procs_spec spec_pimports_bind
      | (rule spec_bind0 spec_then0, rule spec_leaf0 spec_call_args)
      | (rule spec_bind1 spec_then1, rule procs_spec spec_pimports_bind)
      | (rule spec_bind0) | rule spec_postfix_generic_member
      | assumption | (simp; fail) | (auto; fail))+)

lemma pbind_if: "pbind (if b then m else m') f = (if b then pbind m f else pbind m' f)"
  by simp

lemma pbind_when_ahead: "pbind (when_ahead c a b) f = when_ahead c (pbind a f) (pbind b f)"
  by (rule ext)+ (simp add: pbind_def when_ahead_def)

lemma spec_postfix_step_bind:
  assumes P: "procs_ok n P" and m: "m \<le> n" and some: "\<And>e. spec anywhere (m - 1) 0 (f (Some e))"
    and none: "\<And>Q. spec Q m 0 (f None)"
  shows "spec Q m 0 (pbind (postfix_step P e) f)"
proof -
  have m': "m \<le> Suc n" and k: "(1::nat) \<le> 1" using m by simp_all
  have step: "spec Q' m'' k' (f (Some e))" if "m'' \<le> m - 1" "k' = 0" for Q' m'' k' e
    by (rule spec_mono [OF some]) (use that in simp_all)
  show ?thesis
    unfolding postfix_step_def Let_def pbind_assoc pbind_if pbind_when_ahead pbind_return
    by (rule spec_peek_bind)
      ((rule spec_if spec_when_ahead none
        | (rule spec_bind1, rule spec_postfix_call [OF P m' k] spec_postfix_bracket [OF P m' k]
             spec_postfix_dot [OF P m' k])
        | (rule spec_bind1 [where f = "\<lambda>e. f (Some e)"], rule spec_advance_then)
        | rule spec_advance_then spec_expect_text_bind spec_spanned
        | (rule spec_bind0, rule spec_match_arms [OF P] spec_block [OF P])
        | rule step
        | (use m in \<open>simp; fail\<close>) | (use m in \<open>auto; fail\<close>))+)
qed

lemma spec_postfix_loop:
  assumes P: "procs_ok n P"
  shows "f \<le> n \<Longrightarrow> m \<le> f \<Longrightarrow> spec Q m 0 (postfix_loop f P e)"
proof (induction f arbitrary: m Q e)
  case (Suc f)
  show ?case
    unfolding postfix_loop.simps
  proof (rule spec_postfix_step_bind [OF P])
    show "spec anywhere (m - 1) 0 (case Some e' of None \<Rightarrow> preturn e | Some e \<Rightarrow> postfix_loop f P e)" for e'
      using Suc.IH [of "m - 1" anywhere e'] Suc.prems by simp
  qed (use Suc.prems in \<open>simp_all add: spec_return\<close>)
qed (simp add: spec_zero)

lemma spec_postfix:
  assumes P: "procs_ok n P" and m: "m \<le> Suc n" and k: "k \<le> 1"
  shows "spec Q m k (parse_postfix P)"
  unfolding parse_postfix_def
proof (rule spec_bind1, rule spec_primary [OF P m order_refl])
  fix e
  have "spec anywhere (m - 1) 0 (postfix_loop (p_fuel P) P e)"
    using spec_postfix_loop [OF P, of n "m - 1"] P m by (simp add: procs_ok_def)
  then show "spec anywhere (m - 1) (k - 1) (postfix_loop (p_fuel P) P e)" using k by simp
qed

lemma spec_unary:
  assumes P: "procs_ok n P" and m: "m \<le> Suc n" and k: "k \<le> 1"
  shows "spec Q m k (parse_unary P)"
  unfolding parse_unary_def
  by ((rule spec_when_kinds spec_advance_text_bind spec_return spec_postfix [OF P m k]
      | (rule spec_bind0, rule procs_spec [OF P])
      | (use m k in \<open>simp; fail\<close>) | (use m k in \<open>auto; fail\<close>))+)

lemma spec_expression:
  assumes P: "procs_ok n P" and m: "m \<le> Suc n" and k: "k \<le> 1"
  shows "spec Q m k (parse_expression P)"
  unfolding parse_expression_def parse_logic_or_def parse_logic_and_def parse_comparison_def
    parse_additive_def parse_multiplicative_def
  by (intro spec_binary [OF P m] spec_unary [OF P m]) (use k in simp_all)

lemma spec_tref:
  "(\<And>n. spec Q m k (f1 n)) \<Longrightarrow> spec Q m k g \<Longrightarrow>
     spec Q m k (case r of NamedType n \<Rightarrow> f1 n | PointerType _ _ \<Rightarrow> g | SliceType _ \<Rightarrow> g
       | ArrayTypeRef _ _ \<Rightarrow> g | FunctionType _ _ _ \<Rightarrow> g | GenericType _ _ \<Rightarrow> g)"
  by (cases r) simp_all

lemma spec_expect_ident: "procs_ok n P \<Longrightarrow> k \<le> 1 \<Longrightarrow> spec Q m k (expect_text IDENT)"
proof -
  assume "k \<le> 1"
  moreover have "expect_text IDENT = pbind (expect_text IDENT) preturn"
  proof (intro ext)
    fix env pos
    show "expect_text IDENT env pos = pbind (expect_text IDENT) preturn env pos"
      by (cases "expect_text IDENT env pos") (auto simp: pbind_def preturn_def)
  qed
  ultimately show ?thesis
    using spec_expect_text_bind [of IDENT Q m k preturn] by (simp add: spec_return)
qed

lemma spec_let:
  "procs_ok n P \<Longrightarrow> m \<le> Suc n \<Longrightarrow> k \<le> 1 \<Longrightarrow> (\<And>ks. Q ks \<Longrightarrow> hd ks \<noteq> EOF) \<Longrightarrow> spec Q m k (parse_let P)"
  unfolding parse_let_def
  by ((rule spec_rules procs_spec spec_type
      | (rule spec_bind0 spec_then0, rule spec_leaf0)
      | (rule spec_bind1 spec_then1, rule procs_spec spec_type)
      | (rule spec_bind0)
      | assumption | (simp; fail) | (auto; fail))+)

lemma spec_type_alias:
  "procs_ok n P \<Longrightarrow> m \<le> Suc n \<Longrightarrow> k \<le> 1 \<Longrightarrow> (\<And>ks. Q ks \<Longrightarrow> hd ks \<noteq> EOF) \<Longrightarrow> spec Q m k (parse_type_alias P)"
  unfolding parse_type_alias_def
  by ((rule spec_rules procs_spec spec_type
      | (rule spec_bind0 spec_then0, rule spec_leaf0)
      | (rule spec_bind1 spec_then1, rule procs_spec spec_type)
      | (rule spec_bind0)
      | assumption | (simp; fail) | (auto; fail))+)

lemma spec_import:
  "k \<le> 1 \<Longrightarrow> (\<And>ks. Q ks \<Longrightarrow> hd ks \<noteq> EOF) \<Longrightarrow> spec Q m k (parse_import)"
  unfolding parse_import_def
  by ((rule spec_rules procs_spec
      | (rule spec_bind0 spec_then0, rule spec_leaf0)
      | (rule spec_bind1 spec_then1, rule procs_spec)
      | (rule spec_bind0)
      | assumption | (simp; fail) | (auto; fail))+)

lemma spec_extern_item:
  "procs_ok n P \<Longrightarrow> m \<le> Suc n \<Longrightarrow> k \<le> 1 \<Longrightarrow> spec Q m k (parse_extern_item P lib)"
  unfolding parse_extern_item_def
  by ((rule spec_rules procs_spec spec_function_signature_only
      | (rule spec_bind0 spec_then0, rule spec_leaf0)
      | (rule spec_bind1 spec_then1, rule procs_spec spec_function_signature_only)
      | (rule spec_bind0)
      | assumption | (simp; fail) | (auto; fail))+)

lemma spec_extern_block:
  "procs_ok n P \<Longrightarrow> m \<le> Suc n \<Longrightarrow> k \<le> 1 \<Longrightarrow> (\<And>ks. Q ks \<Longrightarrow> hd ks \<noteq> EOF) \<Longrightarrow> spec Q m k (parse_extern_block P)"
  unfolding parse_extern_block_def
  by ((rule spec_rules procs_spec spec_extern_item
      | (rule spec_bind0 spec_then0, rule spec_leaf0)
      | (rule spec_bind1 spec_then1, rule procs_spec spec_extern_item)
      | (rule spec_bind0)
      | assumption | (simp; fail) | (auto; fail))+)

lemma spec_defer:
  "procs_ok n P \<Longrightarrow> m \<le> Suc n \<Longrightarrow> k \<le> 1 \<Longrightarrow> (\<And>ks. Q ks \<Longrightarrow> hd ks \<noteq> EOF) \<Longrightarrow> spec Q m k (parse_defer P)"
  unfolding parse_defer_def
  by ((rule spec_rules procs_spec spec_block
      | (rule spec_bind0 spec_then0, rule spec_leaf0)
      | (rule spec_bind1 spec_then1, rule procs_spec spec_block)
      | (rule spec_bind0)
      | assumption | (simp; fail) | (auto; fail))+)

lemma spec_spawn:
  "procs_ok n P \<Longrightarrow> m \<le> Suc n \<Longrightarrow> k \<le> 1 \<Longrightarrow> (\<And>ks. Q ks \<Longrightarrow> hd ks \<noteq> EOF) \<Longrightarrow> spec Q m k (parse_spawn P)"
  unfolding parse_spawn_def
  by ((rule spec_rules procs_spec spec_function_expr
      | (rule spec_bind0 spec_then0, rule spec_leaf0)
      | (rule spec_bind1 spec_then1, rule procs_spec spec_function_expr)
      | (rule spec_bind0)
      | assumption | (simp; fail) | (auto; fail))+)

lemma spec_try:
  "procs_ok n P \<Longrightarrow> m \<le> Suc n \<Longrightarrow> k \<le> 1 \<Longrightarrow> (\<And>ks. Q ks \<Longrightarrow> hd ks \<noteq> EOF) \<Longrightarrow> spec Q m k (parse_try P)"
  unfolding parse_try_def
  by ((rule spec_rules procs_spec spec_block
      | (rule spec_bind0 spec_then0, rule spec_leaf0)
      | (rule spec_bind1 spec_then1, rule procs_spec spec_block)
      | (rule spec_bind0)
      | assumption | (simp; fail) | (auto; fail))+)

lemma spec_for_condition:
  "procs_ok n P \<Longrightarrow> m \<le> n \<Longrightarrow> k \<le> 1 \<Longrightarrow> spec Q m k (parse_for_condition P)"
  unfolding parse_for_condition_def
  by ((rule spec_rules procs_spec spec_block
      | (rule spec_bind0 spec_then0, rule spec_leaf0)
      | (rule spec_bind1 spec_then1, rule procs_spec spec_block)
      | (rule spec_bind0)
      | assumption | (simp; fail) | (auto; fail))+)

lemma spec_struct_field:
  "procs_ok n P \<Longrightarrow> m \<le> Suc n \<Longrightarrow> k \<le> 1 \<Longrightarrow> spec Q m k (parse_struct_field P)"
  unfolding parse_struct_field_def
  by ((rule spec_rules procs_spec spec_type
      | (rule spec_bind0 spec_then0, rule spec_leaf0)
      | (rule spec_bind1 spec_then1, rule procs_spec spec_type)
      | (rule spec_bind0) | rule spec_tref
      | assumption | (simp; fail) | (auto; fail))+)

lemma spec_struct:
  "procs_ok n P \<Longrightarrow> m \<le> Suc n \<Longrightarrow> k \<le> 1 \<Longrightarrow> (\<And>ks. Q ks \<Longrightarrow> hd ks \<noteq> EOF) \<Longrightarrow> spec Q m k (parse_struct P)"
  unfolding parse_struct_def
  by ((rule spec_rules procs_spec spec_struct_field
      | (rule spec_bind0 spec_then0, rule spec_leaf0 spec_type_params)
      | (rule spec_bind1 spec_then1, rule procs_spec spec_struct_field)
      | (rule spec_bind0)
      | assumption | (simp; fail) | (auto; fail))+)

lemma spec_iface_method:
  "procs_ok n P \<Longrightarrow> m \<le> Suc n \<Longrightarrow> k \<le> 1 \<Longrightarrow> (\<And>ks. Q ks \<Longrightarrow> hd ks \<noteq> EOF) \<Longrightarrow> spec Q m k (parse_iface_method P)"
  unfolding parse_iface_method_def
  by ((rule spec_rules procs_spec spec_signature
      | (rule spec_bind0 spec_then0, rule spec_leaf0)
      | (rule spec_bind1 spec_then1, rule procs_spec spec_signature)
      | (rule spec_bind0)
      | assumption | (simp; fail) | (auto; fail))+)

lemma spec_iface_item:
  "procs_ok n P \<Longrightarrow> m \<le> Suc n \<Longrightarrow> k \<le> 1 \<Longrightarrow> spec Q m k (parse_iface_item P)"
  unfolding parse_iface_item_def
  by ((rule spec_rules procs_spec spec_iface_method spec_type
      | (rule spec_bind0 spec_then0, rule spec_leaf0)
      | (rule spec_bind1 spec_then1, rule procs_spec spec_iface_method spec_type)
      | (rule spec_bind0)
      | assumption | (simp; fail) | (auto; fail))+)

lemma spec_iface:
  "procs_ok n P \<Longrightarrow> m \<le> Suc n \<Longrightarrow> k \<le> 1 \<Longrightarrow> (\<And>ks. Q ks \<Longrightarrow> hd ks \<noteq> EOF) \<Longrightarrow> spec Q m k (parse_iface P)"
  unfolding parse_iface_def
  by ((rule spec_rules procs_spec spec_iface_item
      | (rule spec_bind0 spec_then0, rule spec_leaf0)
      | (rule spec_bind1 spec_then1, rule procs_spec spec_iface_item)
      | (rule spec_bind0)
      | assumption | (simp; fail) | (auto; fail))+)

lemma spec_enum:
  "procs_ok n P \<Longrightarrow> m \<le> Suc n \<Longrightarrow> k \<le> 1 \<Longrightarrow> (\<And>ks. Q ks \<Longrightarrow> hd ks \<noteq> EOF) \<Longrightarrow> spec Q m k (parse_enum P)"
  unfolding parse_enum_def
  by ((rule spec_rules procs_spec spec_expect_ident
      | (rule spec_bind0 spec_then0, rule spec_leaf0)
      | (rule spec_bind1 spec_then1, rule procs_spec spec_expect_ident)
      | (rule spec_bind0)
      | assumption | (simp; fail) | (auto; fail))+)

lemma spec_expression_statement:
  "procs_ok n P \<Longrightarrow> m \<le> Suc n \<Longrightarrow> k \<le> 1 \<Longrightarrow> spec Q m k (parse_expression_statement P)"
  unfolding parse_expression_statement_def
  by ((rule spec_rules procs_spec spec_expression
      | (rule spec_bind0 spec_then0, rule spec_leaf0)
      | (rule spec_bind1 spec_then1, rule procs_spec spec_expression)
      | (rule spec_bind0)
      | assumption | (simp; fail) | (auto; fail))+)

lemma spec_ident_stmt:
  "procs_ok n P \<Longrightarrow> m \<le> Suc n \<Longrightarrow> k \<le> 1 \<Longrightarrow> spec Q m k (parse_ident_stmt P)"
  unfolding parse_ident_stmt_def assign_ops_def
  by ((rule spec_rules procs_spec spec_expression
      | (rule spec_bind0 spec_then0, rule spec_leaf0)
      | (rule spec_bind1 spec_then1, rule procs_spec spec_expression)
      | (rule spec_bind0)
      | assumption | (simp; fail) | (auto; fail))+)

lemma spec_second_kind_bind:
  assumes "\<And>ks. Q ks \<Longrightarrow> hd ks \<noteq> EOF"
    and f: "\<And>K. spec (\<lambda>ks. Q ks \<and> nth_kind 1 K ks) n k (f K)"
  shows "spec Q n k (pbind (rewound (pthen advance (pbind peek (\<lambda>t. preturn (tkind t))))) f)"
proof (rule specI)
  fix env pos
  assume pre: "good_env env" "pos < length (ptokens env)" "Q (kinds env pos)" "room env pos \<le> n"
  let ?K = "tkind (ptokens env ! Suc pos)"
  have s: "Suc pos < length (ptokens env)"
    using good_env_not_last [OF pre(1,2)] assms(1) [OF pre(3)] kinds_Cons [OF pre(2)] by simp
  have "kinds env pos = tkind (ptokens env ! pos) # ?K # kinds env (Suc (Suc pos))"
    using kinds_Cons [OF pre(2)] kinds_Cons [OF s] by simp
  with specD [OF f pre(1,2) _ pre(4), of ?K] pre(2,3) s
  show "(\<exists>e. pbind (rewound (pthen advance (pbind peek (\<lambda>t. preturn (tkind t))))) f env pos = Inl e \<and> parse_exn e)
    \<or> (\<exists>x p. pbind (rewound (pthen advance (pbind peek (\<lambda>t. preturn (tkind t))))) f env pos = Inr (x, p)
        \<and> pos + k \<le> p \<and> p < length (ptokens env))"
    by (simp add: pbind_def rewound_def pthen_def advance_def peek_def preturn_def)
qed

lemma spec_for:
  assumes P: "procs_ok n P" and m: "m \<le> Suc n" and k: "k \<le> 1" and Q: "\<And>ks. Q ks \<Longrightarrow> hd ks \<noteq> EOF"
  shows "spec Q m k (parse_for P)"
  unfolding parse_for_def
  apply (rule spec_advance_then)
  subgoal using Q by auto
  apply (rule spec_mono [where Q = anywhere and n = n and k = 0])
  subgoal
    by ((rule spec_when_kinds spec_second_kind_bind spec_if spec_expect_text_bind spec_expect_then
          spec_advance_then spec_return
        | (rule spec_bind1, rule procs_spec [OF P])
        | (rule spec_bind1, rule spec_block [OF P])
        | rule spec_for_condition [OF P]
        | (simp; fail) | (auto; fail))+)
  using m k by simp_all

lemma spec_break: "k \<le> 1 \<Longrightarrow> (\<And>ks. Q ks \<Longrightarrow> hd ks \<noteq> EOF) \<Longrightarrow>
  spec Q m k (pthen advance (pthen (pmatch SEMI) (spanned a Break)))"
  by ((rule spec_advance_then spec_spanned | (rule spec_then0, rule spec_match)
      | (simp; fail) | (auto; fail))+)

lemma function_start_not_eof: "is_function_declaration_start ks \<Longrightarrow> hd ks \<noteq> EOF"
  by (auto simp: is_function_declaration_start_def)

lemma spec_statement:
  assumes P: "procs_ok n P" and m: "m \<le> Suc n" and k: "k \<le> 1"
  shows "spec Q m k (parse_statement P)"
  unfolding parse_statement_def
  by (rule spec_peek_bind)
    ((rule spec_if spec_error
      | rule spec_let [OF P m k] spec_expression_statement [OF P m k] spec_parse_return [OF P m k]
          spec_struct [OF P m k] spec_enum [OF P m k] spec_for [OF P m k] spec_parse_err_return [OF P m k]
          spec_try [OF P m k] spec_defer [OF P m k] spec_spawn [OF P m k] spec_break [OF k]
          spec_ident_stmt [OF P m k] spec_function [OF P m k] spec_when_ahead
      | (simp; fail) | (auto dest: function_start_not_eof; fail))+)

lemma spec_top_item:
  assumes P: "procs_ok n P" and m: "m \<le> Suc n" and k: "k \<le> 1"
  shows "spec Q m k (parse_top_item P)"
  unfolding parse_top_item_def
  by (rule spec_peek_bind)
    ((rule spec_if spec_import [OF k] spec_type_alias [OF P m k] spec_extern_block [OF P m k]
          spec_iface [OF P m k] spec_statement [OF P m k]
      | (auto; fail))+)

subsection \<open>The fuel is enough\<close>

lemma knot_ok: "procs_ok n (knot n)"
proof (induction n)
  case 0
  then show ?case by (simp add: procs_ok_def spec_zero)
next
  case (Suc n)
  then show ?case
    using spec_type [OF Suc order_refl order_refl, of anywhere]
      spec_expression [OF Suc order_refl order_refl, of anywhere]
      spec_unary [OF Suc order_refl order_refl, of anywhere]
      spec_primary [OF Suc order_refl order_refl, of anywhere]
      spec_statement [OF Suc order_refl order_refl, of anywhere]
    by (simp add: procs_ok_def Let_def)
qed

lemma parse_program_spec:
  assumes "m \<le> n"
  shows "spec Q m 0 (parse_program (knot n))"
  unfolding parse_program_def
  by (rule spec_until [OF knot_ok assms]) (use assms in \<open>simp_all add: spec_top_item [OF knot_ok]\<close>)

lemma parse_outcome:
  assumes "lex source = Inr ts"
  shows "(\<exists>prog. parse ts mods = Inr prog) \<or> (\<exists>m. parse ts mods = Inl (ParseError m))
    \<or> (\<exists>m. parse ts mods = Inl (SyntaxError m)) \<or> parse ts mods = Inl ValueError \<or> parse ts mods = Inl OverflowError"
proof -
  let ?env = "\<lparr>ptokens = ts, imported_modules = (if mods = [] then scan_imports ts else mods)\<rparr>"
  have "good_env ?env" and "0 < length ts"
    using lex_eof_terminated [OF assms] lex_token_ok [OF assms]
    by (auto simp: good_env_def eof_terminated_def)
  moreover have "room ?env 0 \<le> tokens_weight ts" by (simp add: room_def)
  ultimately consider
      (err) e where "parse_program (knot (parse_fuel ts)) ?env 0 = Inl e" "parse_exn e"
    | (ok) x p where "parse_program (knot (parse_fuel ts)) ?env 0 = Inr (x, p)"
    using specD [OF parse_program_spec [of "tokens_weight ts" "parse_fuel ts" anywhere], of ?env 0]
    by (auto simp: parse_fuel_def)
  then show ?thesis
  proof cases
    case err
    then show ?thesis by (cases e) (simp_all add: parse_def parse_exn_def)
  qed (simp add: parse_def)
qed

text \<open>
  C7: \<open>parse\<close> on the tokens of any text returns: a program, or one of \<open>ParseError\<close>, \<open>SyntaxError\<close>,
  \<open>ValueError\<close> and \<open>OverflowError\<close> (the last three also from the text of an interpolation, which is lexed again).
  The recursion stays within the fuel, no token is read past the end, and no token has
  a value of the wrong shape.
\<close>

theorem parse_total:
  assumes "lex source = Inr ts"
  shows "(\<exists>prog. parse ts mods = Inr prog) \<or> (\<exists>m. parse ts mods = Inl (ParseError m))
    \<or> (\<exists>m. parse ts mods = Inl (SyntaxError m)) \<or> parse ts mods = Inl ValueError \<or> parse ts mods = Inl OverflowError"
  using assms by (rule parse_outcome)

lemma parse_total_witness:
  "\<exists>ts. lex ''x=1'' = Inr ts \<and> ((\<exists>prog. parse ts [] = Inr prog) \<or> (\<exists>m. parse ts [] = Inl (ParseError m))
    \<or> (\<exists>m. parse ts [] = Inl (SyntaxError m)) \<or> parse ts [] = Inl ValueError \<or> parse ts [] = Inl OverflowError)"
proof -
  have "lex ''x=1'' = Inr [Token IDENT (VText ''x'') 0, Token (Op EQ) (VText ''='') 1,
     Token INTEGER (VInt 1 None) 2, Token EOF (VText '''') 3]"
    by (simp add: lex_eval)
  from parse_total [OF this, of "[]"] this show ?thesis by blast
qed

end
