(* ===== verification/SymTab.thy ===== *)
theory SymTab
  imports Ast
begin

text \<open>
  \<open>compiler/symtab.py\<close>: the symbol table with its stack of scopes, its operations, and
  \<open>build_symbol_table\<close>, the pass that collects the declarations of a program. A text used as a
  type (\<open>"struct"\<close>, \<open>"void"\<close>) is the named type of that text; a parameter without a type
  has none.
\<close>

subsection \<open>The table\<close>

record symbol =
  sym_type :: "tref option"
  sym_level :: int
  sym_immutable :: bool

type_synonym scope = "(string \<times> symbol) list"

type_synonym signature = "tref option \<times> node param list"

text \<open>
  \<open>scopes\<close> is the list \<open>_scopes\<close> with the innermost scope first. The entry \<open>method_set\<close> of an
  interface is a cache of a later phase.
\<close>

record symtab =
  scopes :: "scope list"
  level :: int
  structs :: "(string \<times> (string \<times> tref) list) list"
  struct_embeds :: "(string \<times> (string \<times> tref) list) list"
  enums :: "(string \<times> string list) list"
  ifaces :: "(string \<times> ((string \<times> node param list \<times> tref \<times> bool) list \<times> tref list)) list"
  methods :: "(string \<times> (string \<times> signature) list) list"
  fun_sigs :: "(string \<times> signature) list"
  extern_functions :: "string list"

definition RESERVED_RUNTIME_NAMES :: "string list" where
  "RESERVED_RUNTIME_NAMES = [''div'', ''exit'', ''malloc'', ''free'', ''printf'', ''strlen'', ''memcpy'',
     ''memcmp'', ''str'']"

definition RESERVED_MAGIC_NAMES :: "string list" where
  "RESERVED_MAGIC_NAMES = [''__FILE__'', ''__LINE__'', ''__COL__'', ''__FUNC__'', ''__MODULE__'']"

definition check_runtime_name :: "string \<Rightarrow> unit res" where
  "check_runtime_name name =
     (if name \<in> set RESERVED_MAGIC_NAMES then Inl (NameError (name @ '' is a reserved magic constant''))
      else if name \<in> set RESERVED_RUNTIME_NAMES \<or> starts_with ''__nc'' name
      then Inl (NameError (name @ '' conflicts with NC runtime name''))
      else Inr ())"

definition empty_symtab :: symtab where
  "empty_symtab = \<lparr>scopes = [[]], level = 0, structs = [], struct_embeds = [], enums = [], ifaces = [],
     methods = [], fun_sigs = [], extern_functions = []\<rparr>"

subsection \<open>Scopes\<close>

definition push_scope :: "symtab \<Rightarrow> symtab" where
  "push_scope T = T\<lparr>scopes := [] # scopes T, level := level T + 1\<rparr>"

definition pop_scope :: "symtab \<Rightarrow> symtab res" where
  "pop_scope T =
     (case scopes T of
        [] \<Rightarrow> Inl IndexError
      | _ # rest \<Rightarrow> Inr (T\<lparr>scopes := rest, level := level T - 1\<rparr>))"

definition declare_symbol :: "string \<Rightarrow> tref option \<Rightarrow> bool \<Rightarrow> bool \<Rightarrow> symtab \<Rightarrow> symtab res" where
  "declare_symbol name t allow_runtime immut T =
     (if name \<in> set RESERVED_MAGIC_NAMES then Inl (NameError (name @ '' is a reserved magic constant''))
      else
        rbind (if allow_runtime then Inr () else check_runtime_name name) (\<lambda>_.
          case scopes T of
            [] \<Rightarrow> Inl IndexError
          | here # rest \<Rightarrow>
              if has_key here name then Inl (NameError (''Variable '' @ name @ '' already declared in this scope''))
              else Inr (T\<lparr>scopes := dict_set name \<lparr>sym_type = t, sym_level = level T, sym_immutable = immut\<rparr>
                            here # rest\<rparr>)))"

abbreviation declare_name :: "string \<Rightarrow> tref option \<Rightarrow> symtab \<Rightarrow> symtab res" where
  "declare_name name t \<equiv> declare_symbol name t False False"

definition declare_global :: "string \<Rightarrow> tref \<Rightarrow> symtab \<Rightarrow> symtab res" where
  "declare_global name t T =
     rbind (check_runtime_name name) (\<lambda>_.
       if scopes T = [] then Inl IndexError
       else if has_key (last (scopes T)) name then Inl (NameError (name @ '' already declared globally''))
       else Inr (T\<lparr>scopes := butlast (scopes T) @
                     [dict_set name \<lparr>sym_type = Some t, sym_level = 0, sym_immutable = False\<rparr>
                        (last (scopes T))]\<rparr>))"

fun lookup_scopes :: "scope list \<Rightarrow> string \<Rightarrow> symbol option" where
  "lookup_scopes [] name = None"
| "lookup_scopes (s # ss) name = (case map_of s name of Some v \<Rightarrow> Some v | None \<Rightarrow> lookup_scopes ss name)"

definition lookup :: "string \<Rightarrow> symtab \<Rightarrow> symbol res" where
  "lookup name T =
     (case lookup_scopes (scopes T) name of
        Some s \<Rightarrow> Inr s
      | None \<Rightarrow> Inl (NameError (''Variable '' @ name @ '' not found'')))"

subsection \<open>Declarations of types\<close>

definition declare_struct :: "string \<Rightarrow> (string \<times> tref) list \<Rightarrow> string list \<Rightarrow> symtab \<Rightarrow> symtab" where
  "declare_struct name fs embedded T =
     (let d = foldl (\<lambda>d (f, t). dict_set f t d) [] fs;
          e = foldl (\<lambda>d (f, t). dict_set f t d) [] (filter (\<lambda>(f, _). f \<in> set embedded) fs)
      in T\<lparr>structs := dict_set name d (structs T), struct_embeds := dict_set name e (struct_embeds T)\<rparr>)"

definition lookup_struct :: "string \<Rightarrow> symtab \<Rightarrow> (string \<times> tref) list res" where
  "lookup_struct name T =
     (case map_of (structs T) name of
        Some d \<Rightarrow> Inr d
      | None \<Rightarrow> Inl (NameError (''Struct '' @ name @ '' not found'')))"

definition declare_enum :: "string \<Rightarrow> string list \<Rightarrow> symtab \<Rightarrow> symtab" where
  "declare_enum name variants T = T\<lparr>enums := dict_set name (remdups variants) (enums T)\<rparr>"

definition lookup_enum :: "string \<Rightarrow> symtab \<Rightarrow> string list res" where
  "lookup_enum name T =
     (case map_of (enums T) name of
        Some d \<Rightarrow> Inr d
      | None \<Rightarrow> Inl (NameError (''Enum '' @ name @ '' not found'')))"

definition declare_iface ::
  "string \<Rightarrow> (string \<times> node param list \<times> tref \<times> bool) list \<Rightarrow> tref list \<Rightarrow> symtab \<Rightarrow> symtab" where
  "declare_iface name ms embeds T = T\<lparr>ifaces := dict_set name (ms, embeds) (ifaces T)\<rparr>"

definition lookup_iface ::
  "string \<Rightarrow> symtab \<Rightarrow> ((string \<times> node param list \<times> tref \<times> bool) list \<times> tref list) res" where
  "lookup_iface name T =
     (case map_of (ifaces T) name of
        Some d \<Rightarrow> Inr d
      | None \<Rightarrow> Inl (NameError (''Iface '' @ name @ '' not found'')))"

definition add_function :: "string \<Rightarrow> signature \<Rightarrow> symtab \<Rightarrow> symtab" where
  "add_function name sig T = T\<lparr>fun_sigs := dict_set name sig (fun_sigs T)\<rparr>"

definition add_extern :: "string \<Rightarrow> symtab \<Rightarrow> symtab" where
  "add_extern name T = T\<lparr>extern_functions := List.insert name (extern_functions T)\<rparr>"

definition add_method :: "string \<Rightarrow> string \<Rightarrow> signature \<Rightarrow> symtab \<Rightarrow> symtab res" where
  "add_method tname mname sig T =
     (let ms = (case map_of (methods T) tname of Some d \<Rightarrow> d | None \<Rightarrow> [])
      in if has_key ms mname then Inl (NameError (tname @ '': duplicate method '' @ mname))
         else Inr (T\<lparr>methods := dict_set tname (dict_set mname sig ms) (methods T)\<rparr>))"

subsection \<open>The pass over the tree\<close>

text \<open>\<open>rtype.lstrip("*")\<close> on the key of the receiver type.\<close>

definition receiver_base :: "tref \<Rightarrow> string" where
  "receiver_base r = dropWhile (\<lambda>c. c = CHR ''*'') (type_key r)"

definition void_type :: "tref option \<Rightarrow> tref option" where
  "void_type ret = Some (case ret of Some r \<Rightarrow> r | None \<Rightarrow> NamedType ''void'')"

definition declare_params :: "node param list \<Rightarrow> symtab \<Rightarrow> symtab res" where
  "declare_params ps = rfold (\<lambda>p. declare_name (pname p) (ptype p)) ps"

definition declare_extern :: "node \<Rightarrow> symtab \<Rightarrow> symtab res" where
  "declare_extern fn T =
     (case fn of
        FunctionDeclaration name params ret _ _ _ _ _ _ _ _ _ _ \<Rightarrow>
          rbind (declare_symbol name (void_type ret) True False T) (\<lambda>T.
          Inr (add_extern name (add_function name (void_type ret, params) T)))
      | _ \<Rightarrow> Inl AttributeError)"

definition declare_extern_in_block :: "node \<Rightarrow> symtab \<Rightarrow> symtab res" where
  "declare_extern_in_block fn T =
     (case fn of
        FunctionDeclaration name _ _ _ _ _ _ _ _ _ _ _ _ \<Rightarrow>
          if has_key (fun_sigs T) name then Inl (NameError (''Function '' @ name @ '' already declared''))
          else declare_extern fn T
      | _ \<Rightarrow> Inl AttributeError)"

text \<open>A scope around a step: \<open>push_scope(); ...; pop_scope()\<close>.\<close>

definition in_scope :: "(symtab \<Rightarrow> symtab res) \<Rightarrow> symtab \<Rightarrow> symtab res" where
  "in_scope step T = rbind (step (push_scope T)) pop_scope"

lemma in_scope_cong [fundef_cong]:
  "T = T' \<Longrightarrow> (\<And>U. step U = step' U) \<Longrightarrow> in_scope step T = in_scope step' T'"
  by (simp add: in_scope_def)

definition seq_step :: "(symtab \<Rightarrow> symtab res) \<Rightarrow> (symtab \<Rightarrow> symtab res) \<Rightarrow> symtab \<Rightarrow> symtab res" where
  "seq_step f g T = rbind (f T) g"

lemma seq_step_cong [fundef_cong]:
  "T = T' \<Longrightarrow> (\<And>U. f U = f' U) \<Longrightarrow> (\<And>U. g U = g' U) \<Longrightarrow> seq_step f g T = seq_step f' g' T'"
  by (simp add: seq_step_def cong: rbind_cong)

definition opt_step :: "('a \<Rightarrow> symtab \<Rightarrow> symtab res) \<Rightarrow> 'a option \<Rightarrow> symtab \<Rightarrow> symtab res" where
  "opt_step f v T = (case v of None \<Rightarrow> Inr T | Some x \<Rightarrow> f x T)"

lemma opt_step_cong [fundef_cong]:
  "v = v' \<Longrightarrow> T = T' \<Longrightarrow> (\<And>x U. v' = Some x \<Longrightarrow> f x U = f' x U) \<Longrightarrow> opt_step f v T = opt_step f' v' T'"
  by (cases v') (simp_all add: opt_step_def)

lemma block_size [simp]: "size_block size b = Suc (size_list size (statements b))"
  by (cases b) simp

lemma list_size: "n \<in> set ns \<Longrightarrow> size n < size_list size ns"
  by (induction ns) auto

lemma arm_size:
  "(p, b) \<in> set arms \<Longrightarrow> size b < size_list (size_prod (size_option size) size) arms"
  "(Some q, b) \<in> set arms \<Longrightarrow> size q < size_list (size_prod (size_option size) size) arms"
  by (induction arms) auto

lemma entry_size:
  fixes k :: node
  shows "(k, v) \<in> set es \<Longrightarrow> size k < size_list (size_prod size size) es
     \<and> size v < size_list (size_prod size size) es"
  by (induction es) auto

lemma field_size:
  fixes f :: string
  shows "(f, v) \<in> set es \<Longrightarrow> size v < size_list (size_prod (\<lambda>_. 0) size) es"
  by (induction es) auto

lemmas node_sizes = list_size arm_size entry_size field_size

function walk_stmt :: "node \<Rightarrow> symtab \<Rightarrow> symtab res"
  and walk_expr :: "node \<Rightarrow> symtab \<Rightarrow> symtab res"
where
  "walk_stmt stmt T =
     (case stmt of
        FunctionDeclaration name params ret body rname rtype _ _ _ _ _ is_extern _ \<Rightarrow>
          if is_extern then declare_extern stmt T
          else
            (case (rname, rtype) of
               (Some r, Some t) \<Rightarrow>
                 let tname = receiver_base t in
                 rbind (declare_name (tname @ ''_'' @ name) (void_type ret) T) (\<lambda>T.
                 rbind (add_method tname name (ret, params) T) (\<lambda>T.
                 in_scope (seq_step (declare_name r (Some t))
                   (seq_step (declare_params params) (rfold walk_stmt (statements body)))) T))
             | _ \<Rightarrow>
                 rbind (declare_name name (void_type ret) T) (\<lambda>T.
                 in_scope (seq_step (declare_params params) (rfold walk_stmt (statements body)))
                   (add_function name (ret, params) T)))
      | StructDecl name fs _ _ embedded \<Rightarrow>
          rbind (declare_global name (NamedType ''struct'') T) (\<lambda>T. Inr (declare_struct name fs embedded T))
      | IfaceDecl name ms embeds \<Rightarrow>
          rbind (declare_global name (NamedType ''iface'') T) (\<lambda>T. Inr (declare_iface name ms embeds T))
      | EnumDecl name variants \<Rightarrow>
          rbind (declare_global name (NamedType ''enum'') T) (\<lambda>T. Inr (declare_enum name variants T))
      | ExternBlock _ _ fns \<Rightarrow> rfold declare_extern_in_block fns T
      | ForIn index val iterable body start end_e \<Rightarrow>
          in_scope (seq_step (declare_name index (Some (NamedType ''i32'')))
            (seq_step
               (\<lambda>T. case start of
                  Some s \<Rightarrow> seq_step (walk_expr s) (opt_step walk_expr end_e) T
                | None \<Rightarrow>
                    (case val of
                       None \<Rightarrow> Inl AttributeError
                     | Some v \<Rightarrow> seq_step (declare_name v (Some (NamedType ''i32''))) (opt_step walk_expr iterable) T))
               (rfold walk_stmt (statements body)))) T
      | ForCondition condition body \<Rightarrow>
          seq_step (walk_expr condition) (in_scope (rfold walk_stmt (statements body))) T
      | TryStatement _ call success_block success_name error_name error_block \<Rightarrow>
          seq_step (walk_expr call)
            (seq_step
               (in_scope (seq_step (opt_step (\<lambda>n. declare_name n (Some (NamedType ''i32''))) success_name)
                  (rfold walk_stmt (statements success_block))))
               (opt_step (\<lambda>b. in_scope (seq_step
                  (\<lambda>T. case error_name of
                     Some n \<Rightarrow> declare_name n (Some (NamedType ''error'')) T
                   | None \<Rightarrow> Inl AttributeError)
                  (rfold walk_stmt (statements b)))) error_block)) T
      | ExpressionStatement e \<Rightarrow> walk_expr e T
      | Assignment target e _ \<Rightarrow> seq_step (walk_expr target) (walk_expr e) T
      | Update target _ \<Rightarrow> walk_expr target T
      | Return _ e \<Rightarrow> opt_step walk_expr e T
      | ErrReturn _ e \<Rightarrow> walk_expr e T
      | Defer _ body \<Rightarrow> rfold walk_stmt (statements body) T
      | _ \<Rightarrow> Inr T)"
| "walk_expr e T =
     (case e of
        BinaryOp l _ r \<Rightarrow> seq_step (walk_expr l) (walk_expr r) T
      | UnaryOp _ operand \<Rightarrow> walk_expr operand T
      | FunctionCall _ _ args _ \<Rightarrow> rfold walk_expr args T
      | FallibleOp _ x _ \<Rightarrow> walk_expr x T
      | ErrorHandlerExpr _ x error_name handler \<Rightarrow>
          seq_step (walk_expr x)
            (in_scope (seq_step (declare_name error_name (Some (NamedType ''error'')))
               (rfold walk_stmt (statements handler)))) T
      | ErrorMatchExpr _ x error_name arms \<Rightarrow>
          seq_step (walk_expr x)
            (in_scope (seq_step (declare_name error_name (Some (NamedType ''error'')))
               (rfold (\<lambda>arm T. case arm of (p, b) \<Rightarrow> seq_step (opt_step walk_expr p) (walk_expr b) T) arms))) T
      | FunctionExpr _ params _ body _ _ \<Rightarrow>
          in_scope (seq_step (declare_params params) (rfold walk_stmt (statements body))) T
      | IfExpr _ condition then_block else_block \<Rightarrow>
          seq_step (walk_expr condition)
            (seq_step (rfold walk_stmt (statements then_block))
               (opt_step (\<lambda>b. rfold walk_stmt (statements b)) else_block)) T
      | BlockExpr _ b \<Rightarrow> rfold walk_stmt (statements b) T
      | MatchExpr _ scrutinee arms \<Rightarrow>
          seq_step (walk_expr scrutinee)
            (rfold (\<lambda>arm T. case arm of (p, b) \<Rightarrow> seq_step (opt_step walk_expr p) (walk_expr b) T) arms) T
      | ArrayLiteral _ _ _ elements \<Rightarrow> rfold walk_expr elements T
      | IndexAccess obj index _ \<Rightarrow> seq_step (walk_expr obj) (walk_expr index) T
      | MethodCall _ obj _ args \<Rightarrow> seq_step (walk_expr obj) (rfold walk_expr args) T
      | FieldAccess obj _ \<Rightarrow> walk_expr obj T
      | StructLiteral _ _ fs _ \<Rightarrow> rfold (\<lambda>(_, v). walk_expr v) fs T
      | MapLiteral _ _ entries \<Rightarrow> rfold (\<lambda>(k, v). seq_step (walk_expr k) (walk_expr v)) entries T
      | _ \<Rightarrow> Inr T)"
  by pat_completeness auto
termination
  by (relation "measure (case_sum (\<lambda>(n, T). size n) (\<lambda>(n, T). size n))")
    (auto dest: node_sizes)

declare walk_stmt.simps [simp del] walk_expr.simps [simp del]

text \<open>\<open>build_symbol_table\<close>: the internal type \<open>raw\<close> is in the global scope from the start.\<close>

definition initial_symtab :: symtab where
  "initial_symtab = empty_symtab\<lparr>scopes :=
     [[(''raw'', \<lparr>sym_type = Some (NamedType ''raw''), sym_level = 0, sym_immutable = False\<rparr>)]]\<rparr>"

definition build_symbol_table :: "node list \<Rightarrow> symtab res" where
  "build_symbol_table stmts = rfold walk_stmt stmts initial_symtab"

end
