(* ===== verification/SymTabProps.thy ===== *)
theory SymTabProps
  imports SymTab
begin

text \<open>
  What the symbol table promises its clients: the laws of a scoped table, and the relations
  between the table before and after the pass over a program that every step of it respects.
\<close>

subsection \<open>A scoped table\<close>

text \<open>
  The contract of a stack of scopes: what a lookup finds after a declaration, and that leaving a
  scope undoes everything since it was entered.
\<close>

locale scoped_table =
  fixes enter :: "'t \<Rightarrow> 't"
    and leave :: "'t \<Rightarrow> 't option"
    and bind_name :: "'k \<Rightarrow> 'v \<Rightarrow> 't \<Rightarrow> 't option"
    and find :: "'t \<Rightarrow> 'k \<Rightarrow> 'v option"
    and bound_here :: "'t \<Rightarrow> 'k \<Rightarrow> bool"
  assumes leave_enter: "leave (enter t) = Some t"
    and find_enter: "find (enter t) k = find t k"
    and here_enter: "\<not> bound_here (enter t) k"
    and bind_twice: "bound_here t k \<Longrightarrow> bind_name k v t = None"
    and find_bind: "bind_name k v t = Some u \<Longrightarrow> find u k' = (if k' = k then Some v else find t k')"
    and here_bind: "bind_name k v t = Some u \<Longrightarrow> bound_here u k' \<longleftrightarrow> k' = k \<or> bound_here t k'"
    and leave_bind: "bind_name k v t = Some u \<Longrightarrow> leave u = leave t"
begin

fun bind_all :: "('k \<times> 'v) list \<Rightarrow> 't \<Rightarrow> 't option" where
  "bind_all [] t = Some t"
| "bind_all ((k, v) # kvs) t = (case bind_name k v t of None \<Rightarrow> None | Some u \<Rightarrow> bind_all kvs u)"

lemma leave_bind_all: "bind_all kvs t = Some u \<Longrightarrow> leave u = leave t"
  by (induction kvs t rule: bind_all.induct) (auto split: option.splits dest: leave_bind)

text \<open>Declarations of an inner scope are gone when it is left.\<close>

lemma scope_discarded: "bind_all kvs (enter t) = Some u \<Longrightarrow> leave u = Some t"
  using leave_bind_all [of kvs "enter t" u] by (simp add: leave_enter)

lemma bind_all_distinct: "bind_all kvs t = Some u \<Longrightarrow> distinct (map fst kvs)
    \<and> (\<forall>k \<in> fst ` set kvs. \<not> bound_here t k)"
proof (induction kvs t rule: bind_all.induct)
  case (2 k v kvs t)
  from "2.prems" obtain t' where b: "bind_name k v t = Some t'" and r: "bind_all kvs t' = Some u"
    by (auto split: option.splits)
  have "\<not> bound_here t k" using b bind_twice [of t k v] by auto
  with "2.IH" [OF b r] here_bind [OF b] show ?case by auto
qed simp

text \<open>The parameters of a function are found in its scope, and shadow what is outside.\<close>

lemma find_bind_all:
  "bind_all kvs t = Some u \<Longrightarrow> find u k = (case map_of kvs k of Some v \<Rightarrow> Some v | None \<Rightarrow> find t k)"
proof (induction kvs t rule: bind_all.induct)
  case (2 k' v kvs t)
  from "2.prems" obtain t' where b: "bind_name k' v t = Some t'" and r: "bind_all kvs t' = Some u"
    by (auto split: option.splits)
  have none: "map_of kvs k' = None"
    using bind_all_distinct [OF "2.prems"] by (simp add: map_of_eq_None_iff)
  show ?case
  proof (cases "k = k'")
    case True
    with none "2.IH" [OF b r] find_bind [OF b, of k] show ?thesis by simp
  next
    case False
    with "2.IH" [OF b r] find_bind [OF b, of k] show ?thesis by (simp split: option.split)
  qed
qed simp

end

text \<open>The compiler's table is one.\<close>

definition sym_declare :: "string \<Rightarrow> tref option \<times> bool \<Rightarrow> symtab \<Rightarrow> symtab option" where
  "sym_declare k v T = (case declare_symbol k (fst v) False (snd v) T of Inr U \<Rightarrow> Some U | Inl _ \<Rightarrow> None)"

definition sym_find :: "symtab \<Rightarrow> string \<Rightarrow> (tref option \<times> bool) option" where
  "sym_find T k = map_option (\<lambda>s. (sym_type s, sym_immutable s)) (lookup_scopes (scopes T) k)"

definition sym_leave :: "symtab \<Rightarrow> symtab option" where
  "sym_leave T = (case pop_scope T of Inr U \<Rightarrow> Some U | Inl _ \<Rightarrow> None)"

definition sym_here :: "symtab \<Rightarrow> string \<Rightarrow> bool" where
  "sym_here T k \<longleftrightarrow> (case scopes T of [] \<Rightarrow> False | s # _ \<Rightarrow> has_key s k)"

lemma declare_symbol_Inr:
  assumes "declare_symbol k t a i T = Inr U"
  obtains s ss where "scopes T = s # ss" "\<not> has_key s k" "k \<notin> set RESERVED_MAGIC_NAMES"
    "\<not> a \<Longrightarrow> check_runtime_name k = Inr ()"
    "U = T\<lparr>scopes := dict_set k \<lparr>sym_type = t, sym_level = level T, sym_immutable = i\<rparr> s # ss\<rparr>"
  using assms by (auto simp: declare_symbol_def split: list.splits if_splits)

lemma sym_declare_Some:
  assumes "sym_declare k v T = Some U"
  shows "declare_symbol k (fst v) False (snd v) T = Inr U"
  using assms by (auto simp: sym_declare_def split: sum.splits)

interpretation symbols: scoped_table push_scope sym_leave sym_declare sym_find sym_here
proof
  fix T U :: symtab and k k' :: string and v :: "tref option \<times> bool"
  show "sym_leave (push_scope T) = Some T"
    by (simp add: sym_leave_def pop_scope_def push_scope_def)
  show "sym_find (push_scope T) k = sym_find T k"
    by (simp add: sym_find_def push_scope_def)
  show "\<not> sym_here (push_scope T) k"
    by (simp add: sym_here_def push_scope_def)
  show "sym_declare k v T = None" if "sym_here T k"
    using that by (auto simp: sym_here_def sym_declare_def declare_symbol_def rbind_eq_Inl check_runtime_name_def
        split: list.splits sum.splits if_splits)
  assume "sym_declare k v T = Some U"
  from declare_symbol_Inr [OF sym_declare_Some [OF this]] obtain s ss where
    d: "scopes T = s # ss" "U = T\<lparr>scopes := dict_set k \<lparr>sym_type = fst v, sym_level = level T,
      sym_immutable = snd v\<rparr> s # ss\<rparr>"
    by metis
  show "sym_find U k' = (if k' = k then Some v else sym_find T k')"
    using d by (cases v) (simp add: sym_find_def)
  show "sym_here U k' \<longleftrightarrow> k' = k \<or> sym_here T k'"
    using d by (simp add: sym_here_def)
  show "sym_leave U = sym_leave T"
    using d by (simp add: sym_leave_def pop_scope_def)
qed

subsection \<open>Relations every step of the pass respects\<close>

text \<open>
  A relation between the table before and after, that holds for each operation the pass calls and
  for a step between \<open>push_scope\<close> and \<open>pop_scope\<close>, holds for the whole pass. The guards under which
  the code calls an operation are premises of its law.
\<close>

locale table_relation =
  fixes R :: "symtab \<Rightarrow> symtab \<Rightarrow> bool"
  assumes R_refl: "R T T"
    and R_trans: "R T U \<Longrightarrow> R U V \<Longrightarrow> R T V"
    and R_declare: "declare_name n t T = Inr U \<Longrightarrow> R T U"
    and R_extern: "declare_symbol n t True False T = Inr U \<Longrightarrow> R T (add_extern n (add_function n sig U))"
    and R_struct: "declare_global n (NamedType ''struct'') T = Inr U \<Longrightarrow> R T (declare_struct n fs es U)"
    and R_iface: "declare_global n (NamedType ''iface'') T = Inr U \<Longrightarrow> R T (declare_iface n ms ts U)"
    and R_enum: "declare_global n (NamedType ''enum'') T = Inr U \<Longrightarrow> R T (declare_enum n vs U)"
    and R_function: "R T (add_function n sig T)"
    and R_method: "add_method n m sig T = Inr U \<Longrightarrow> R T U"
    and R_scope: "R (push_scope T) V \<Longrightarrow> pop_scope V = Inr U \<Longrightarrow> R T U"
begin

definition keeps :: "(symtab \<Rightarrow> symtab res) \<Rightarrow> bool" where
  "keeps f \<longleftrightarrow> (\<forall>T U. f T = Inr U \<longrightarrow> R T U)"

lemma keepsI: "(\<And>T U. f T = Inr U \<Longrightarrow> R T U) \<Longrightarrow> keeps f"
  by (simp add: keeps_def)

lemma keepsD: "keeps f \<Longrightarrow> f T = Inr U \<Longrightarrow> R T U"
  by (simp add: keeps_def)

lemma keeps_Inr: "keeps Inr"
  by (auto simp: keeps_def R_refl)

lemma keeps_Inl: "keeps (\<lambda>T. Inl e)"
  by (simp add: keeps_def)

lemma keeps_seq: "keeps f \<Longrightarrow> keeps g \<Longrightarrow> keeps (seq_step f g)"
  by (rule keepsI) (auto simp: seq_step_def dest: keepsD intro: R_trans)

lemma keeps_bind: "keeps f \<Longrightarrow> keeps g \<Longrightarrow> keeps (\<lambda>T. rbind (f T) g)"
  using keeps_seq by (simp add: seq_step_def [abs_def])

lemma keeps_opt: "(\<And>x. v = Some x \<Longrightarrow> keeps (f x)) \<Longrightarrow> keeps (opt_step f v)"
  by (cases v) (simp_all add: keeps_def opt_step_def R_refl)

lemma keeps_scope: "keeps f \<Longrightarrow> keeps (in_scope f)"
  by (rule keepsI) (auto simp: in_scope_def dest: keepsD intro: R_scope)

lemma keeps_fold: "(\<And>x. x \<in> set xs \<Longrightarrow> keeps (f x)) \<Longrightarrow> keeps (rfold f xs)"
proof (induction xs)
  case Nil
  then show ?case by (auto simp: keeps_def R_refl)
next
  case (Cons x xs)
  then have "keeps (\<lambda>T. rbind (f x T) (rfold f xs))" by (intro keeps_bind) auto
  then show ?case by (simp add: keeps_def)
qed

lemma keeps_case_option:
  "(v = None \<Longrightarrow> keeps f) \<Longrightarrow> (\<And>x. v = Some x \<Longrightarrow> keeps (g x)) \<Longrightarrow>
     keeps (\<lambda>T. case v of None \<Rightarrow> f T | Some x \<Rightarrow> g x T)"
  by (cases v) simp_all

lemma keeps_declare: "keeps (declare_name n t)"
  by (rule keepsI) (rule R_declare)

lemma keeps_params: "keeps (declare_params ps)"
  unfolding declare_params_def by (rule keeps_fold) (rule keeps_declare)

lemma keeps_function: "keeps f \<Longrightarrow> keeps (\<lambda>T. f (add_function n sig T))"
  by (rule keepsI) (blast dest: keepsD intro: R_trans R_function)

lemma keeps_method: "keeps (add_method n m sig)"
  by (rule keepsI) (rule R_method)

lemma keeps_extern: "keeps (declare_extern fn)"
  by (rule keepsI) (cases fn, auto simp: declare_extern_def intro: R_extern)

lemma keeps_extern_in_block: "keeps (declare_extern_in_block fn)"
proof (rule keepsI)
  fix T U assume "declare_extern_in_block fn T = Inr U"
  then have "declare_extern fn T = Inr U"
    by (cases fn) (auto simp: declare_extern_in_block_def split: if_splits)
  then show "R T U" by (rule keepsD [OF keeps_extern])
qed

lemma keeps_types:
  "keeps (\<lambda>T. rbind (declare_global n (NamedType ''struct'') T) (\<lambda>U. Inr (declare_struct n fs es U)))"
  "keeps (\<lambda>T. rbind (declare_global n (NamedType ''iface'') T) (\<lambda>U. Inr (declare_iface n ms ts U)))"
  "keeps (\<lambda>T. rbind (declare_global n (NamedType ''enum'') T) (\<lambda>U. Inr (declare_enum n vs U)))"
  by (rule keepsI; auto intro: R_struct R_iface R_enum)+

lemmas keeps_rules = keeps_types keeps_Inr keeps_Inl keeps_seq keeps_opt keeps_scope
  keeps_declare keeps_params keeps_extern keeps_fold [OF keeps_extern_in_block] keeps_case_option

lemma keeps_heads:
  "seq_step f g T = Inr U \<Longrightarrow> keeps f \<Longrightarrow> keeps g \<Longrightarrow> R T U"
  "opt_step h v T = Inr U \<Longrightarrow> (\<And>x. v = Some x \<Longrightarrow> keeps (h x)) \<Longrightarrow> R T U"
  "in_scope f T = Inr U \<Longrightarrow> keeps f \<Longrightarrow> R T U"
  "rfold h xs T = Inr U \<Longrightarrow> keeps (rfold h xs) \<Longrightarrow> R T U"
  "walk_stmt n T = Inr U \<Longrightarrow> keeps (walk_stmt n) \<Longrightarrow> R T U"
  "walk_expr n T = Inr U \<Longrightarrow> keeps (walk_expr n) \<Longrightarrow> R T U"
  "rbind (declare_global m (NamedType ''struct'') T) (\<lambda>V. Inr (declare_struct m fs es V)) = Inr U \<Longrightarrow> R T U"
  "rbind (declare_global m (NamedType ''iface'') T) (\<lambda>V. Inr (declare_iface m ms ts V)) = Inr U \<Longrightarrow> R T U"
  "rbind (declare_global m (NamedType ''enum'') T) (\<lambda>V. Inr (declare_enum m vs V)) = Inr U \<Longrightarrow> R T U"
  "Inr T = Inr U \<Longrightarrow> R T U"
           apply (erule keepsD [OF keeps_seq, rotated 2]; assumption)
          apply (erule keepsD [OF keeps_opt, rotated 1]; assumption)
         apply (erule keepsD [OF keeps_scope, rotated 1]; assumption)
        apply (simp_all add: keepsD R_refl)
    apply (auto intro: R_struct R_iface R_enum R_refl)
  done

lemma keeps_walk: "keeps (walk_stmt n) \<and> keeps (walk_expr n)"
proof (induction n rule: measure_induct_rule [of size])
  case (less n)
  have ws: "size m < size n \<Longrightarrow> keeps (walk_stmt m)" and we: "size m < size n \<Longrightarrow> keeps (walk_expr m)" for m
    using less.IH by simp_all
  have body: "size_block size b < size n \<Longrightarrow> keeps (rfold walk_stmt (statements b))" for b
    by (rule keeps_fold, rule ws) (auto dest: list_size)
  have exprs: "size_list size es < size n \<Longrightarrow> keeps (rfold walk_expr es)" for es
    by (rule keeps_fold, rule we) (auto dest: list_size)
  have arms: "size_list (size_prod (size_option size) size) as < size n \<Longrightarrow>
      keeps (rfold (\<lambda>arm T. case arm of (p, b) \<Rightarrow> seq_step (opt_step walk_expr p) (walk_expr b) T) as)" for as
    by (rule keeps_fold) (auto intro!: keeps_seq keeps_opt we dest: arm_size)
  have entries: "size_list (size_prod size size) es < size n \<Longrightarrow>
      keeps (rfold (\<lambda>(k, v). seq_step (walk_expr k) (walk_expr v)) es)" for es
    by (rule keeps_fold) (auto intro!: keeps_seq we dest: entry_size)
  have fs: "size_list (size_prod (\<lambda>_. 0) size) es < size n \<Longrightarrow>
      keeps (rfold (\<lambda>(_, v). walk_expr v) es)" for es :: "(string \<times> node) list"
    by (rule keeps_fold) (auto intro!: we dest: field_size)
  note rules = keeps_rules ws we body exprs arms entries fs
  have "R T U" if "walk_stmt n T = Inr U" for T U
  proof (cases n)
    case (FunctionDeclaration name params ret blk rname rtype c1 c2 c3 c4 c5 is_ext c6)
    have blk: "keeps (rfold walk_stmt (statements blk))" by (rule body) (simp add: FunctionDeclaration)
    consider "is_ext" | r t where "\<not> is_ext" "rname = Some r" "rtype = Some t"
      | "\<not> is_ext" "rname = None \<or> rtype = None"
      by (cases rname; cases rtype) auto
    then show ?thesis
    proof cases
      case 1
      with that have "declare_extern n T = Inr U" by (simp add: walk_stmt.simps FunctionDeclaration)
      then show ?thesis by (rule keepsD [OF keeps_extern])
    next
      case 2
      then show ?thesis
        using that blk by (auto simp: walk_stmt.simps FunctionDeclaration Let_def
            intro: R_trans [OF R_declare R_trans [OF R_method keepsD [OF keeps_scope [OF
              keeps_seq [OF keeps_declare keeps_seq [OF keeps_params]]]]]])
    next
      case 3
      then have "rbind (declare_name name (void_type ret) T) (\<lambda>T. in_scope (seq_step (declare_params params)
          (rfold walk_stmt (statements blk))) (add_function name (ret, params) T)) = Inr U"
        using that by (auto simp: walk_stmt.simps FunctionDeclaration split: option.splits)
      with blk show ?thesis
        by (auto intro: R_trans [OF R_declare R_trans [OF R_function keepsD [OF keeps_scope [OF
              keeps_seq [OF keeps_params]]]]])
    qed
  qed (insert trans [OF walk_stmt.simps [symmetric] that], simp only: node.case, erule keeps_heads,
        ((rule rules | (simp; fail))+)?)+
  moreover have "R T U" if "walk_expr n T = Inr U" for T U
    by (cases n; insert trans [OF walk_expr.simps [symmetric] that], simp only: node.case, erule keeps_heads,
        ((rule rules | (simp; fail))+)?)
  ultimately show ?case by (simp add: keeps_def)
qed

end

subsection \<open>Scopes only grow\<close>

definition scope_ext :: "scope \<Rightarrow> scope \<Rightarrow> bool" where
  "scope_ext s s' \<longleftrightarrow> (\<forall>k v. map_of s k = Some v \<longrightarrow> map_of s' k = Some v)"

fun levels_ok :: "int \<Rightarrow> scope list \<Rightarrow> bool" where
  "levels_ok l [] \<longleftrightarrow> l = -1"
| "levels_ok l (s # ss) \<longleftrightarrow> (\<forall>v \<in> snd ` set s. sym_level v = l) \<and> levels_ok (l - 1) ss"

text \<open>
  Of the table: the scopes open before are open after, with every binding they had; levels count
  the open scopes, and every symbol carries the level of the scope it is in.
\<close>

definition ext :: "symtab \<Rightarrow> symtab \<Rightarrow> bool" where
  "ext T U \<longleftrightarrow> level U = level T \<and> list_all2 scope_ext (scopes T) (scopes U)
     \<and> (levels_ok (level T) (scopes T) \<longrightarrow> levels_ok (level U) (scopes U))"

lemma scope_ext_refl [simp, intro]: "scope_ext s s"
  by (simp add: scope_ext_def)

lemma scope_ext_list_refl [simp, intro]: "list_all2 scope_ext ss ss"
  by (simp add: list_all2_refl)

lemma scope_ext_trans: "scope_ext a b \<Longrightarrow> scope_ext b c \<Longrightarrow> scope_ext a c"
  by (simp add: scope_ext_def)

lemma scope_ext_set: "\<not> has_key s k \<Longrightarrow> scope_ext s (dict_set k v s)"
  by (auto simp: scope_ext_def has_key_def)

lemma snd_dict_set: "snd ` set (dict_set k v d) \<subseteq> insert v (snd ` set d)"
  by (induction d) auto

lemma levels_ok_set: "levels_ok l (s # ss) \<Longrightarrow> sym_level v = l \<Longrightarrow> levels_ok l (dict_set k v s # ss)"
  using snd_dict_set [of k v s] by fastforce

lemma levels_ok_last:
  "levels_ok l ss \<Longrightarrow> ss \<noteq> [] \<Longrightarrow> sym_level v = 0 \<Longrightarrow>
     levels_ok l (butlast ss @ [dict_set k v (last ss)])"
proof (induction l ss rule: levels_ok.induct)
  case (2 l s ss)
  show ?case
  proof (cases ss)
    case Nil
    with "2.prems" have "l = 0" by simp
    with 2 Nil show ?thesis using snd_dict_set [of k v s] by fastforce
  next
    case (Cons a as)
    with 2 show ?thesis by auto
  qed
qed simp

lemma scope_ext_last:
  "ss \<noteq> [] \<Longrightarrow> \<not> has_key (last ss) k \<Longrightarrow>
     list_all2 scope_ext ss (butlast ss @ [dict_set k v (last ss)])"
  by (induction ss rule: rev_induct) (auto intro!: list_all2_appendI scope_ext_set)

lemma ext_refl: "ext T T"
  by (simp add: ext_def)

lemma ext_trans: "ext T U \<Longrightarrow> ext U V \<Longrightarrow> ext T V"
  unfolding ext_def
  using list_all2_trans [where as = "scopes T" and bs = "scopes U" and cs = "scopes V", OF scope_ext_trans]
  by auto

lemma ext_declare: "declare_symbol n t a i T = Inr U \<Longrightarrow> ext T U"
  by (erule declare_symbol_Inr) (auto simp: ext_def intro: scope_ext_set levels_ok_set simp del: levels_ok.simps)

lemma declare_global_Inr:
  assumes "declare_global n t T = Inr U"
  shows "scopes T \<noteq> []" "\<not> has_key (last (scopes T)) n" "check_runtime_name n = Inr ()"
    "U = T\<lparr>scopes := butlast (scopes T) @
       [dict_set n \<lparr>sym_type = Some t, sym_level = 0, sym_immutable = False\<rparr> (last (scopes T))]\<rparr>"
  using assms by (auto simp: declare_global_def split: if_splits)

lemma ext_declare_global: "declare_global n t T = Inr U \<Longrightarrow> ext T U"
  using declare_global_Inr [of n t T U] by (auto simp: ext_def intro: scope_ext_last levels_ok_last)

lemma ext_same: "scopes V = scopes U \<Longrightarrow> level V = level U \<Longrightarrow> ext T U \<Longrightarrow> ext T V"
  by (clarsimp simp: ext_def)

lemma add_method_Inr:
  "add_method n m sig T = Inr U \<Longrightarrow> \<exists>ms. U = T\<lparr>methods := ms\<rparr>"
  by (auto simp: add_method_def Let_def split: if_splits option.splits)

lemma ext_scope:
  assumes "ext (push_scope T) V" and "pop_scope V = Inr U"
  shows "ext T U"
proof -
  from assms(2) obtain s ss where V: "scopes V = s # ss" "U = V\<lparr>scopes := ss, level := level V - 1\<rparr>"
    by (auto simp: pop_scope_def split: list.splits)
  with assms(1) show ?thesis by (auto simp: ext_def push_scope_def)
qed

lemmas table_ops = add_extern_def add_function_def declare_struct_def declare_iface_def declare_enum_def Let_def

interpretation growing: table_relation ext
proof
  show "ext T (add_function n sig T)" for T n sig
    by (rule ext_same [OF _ _ ext_refl]) (simp_all add: table_ops)
  show "ext T U" if "add_method n m sig T = Inr U" for T n m sig U
    using add_method_Inr [OF that] by (auto intro: ext_same [OF _ _ ext_refl])
  show "ext T (add_extern n (add_function n sig U))" if "declare_symbol n t True False T = Inr U" for T n t U sig
    by (rule ext_same [OF _ _ ext_declare [OF that]]) (simp_all add: table_ops)
  show "ext T (declare_struct n fs es U)" if "declare_global n (NamedType ''struct'') T = Inr U" for T n fs es U
    by (rule ext_same [OF _ _ ext_declare_global [OF that]]) (simp_all add: table_ops)
  show "ext T (declare_iface n ms ts U)" if "declare_global n (NamedType ''iface'') T = Inr U" for T n ms ts U
    by (rule ext_same [OF _ _ ext_declare_global [OF that]]) (simp_all add: table_ops)
  show "ext T (declare_enum n vs U)" if "declare_global n (NamedType ''enum'') T = Inr U" for T n vs U
    by (rule ext_same [OF _ _ ext_declare_global [OF that]]) (simp_all add: table_ops)
qed (rule ext_refl ext_trans ext_declare ext_scope; assumption)+

subsection \<open>Names\<close>

text \<open>No reserved name is bound, but for external functions, which may have a runtime name.\<close>

definition names_safe :: "symtab \<Rightarrow> bool" where
  "names_safe T \<longleftrightarrow> (\<forall>s \<in> set (scopes T). \<forall>k. has_key s k \<longrightarrow> k \<notin> set RESERVED_MAGIC_NAMES
     \<and> (k \<in> set (extern_functions T) \<or> check_runtime_name k = Inr ()))"

lemma names_safe_mono:
  assumes "names_safe T" and "set (extern_functions T) \<subseteq> set (extern_functions U)"
    and "\<And>s k. s \<in> set (scopes U) \<Longrightarrow> has_key s k \<Longrightarrow>
      (\<exists>s' \<in> set (scopes T). has_key s' k) \<or>
      k \<notin> set RESERVED_MAGIC_NAMES \<and> (k \<in> set (extern_functions U) \<or> check_runtime_name k = Inr ())"
  shows "names_safe U"
  using assms unfolding names_safe_def by blast

lemma check_runtime_magic: "check_runtime_name k = Inr () \<Longrightarrow> k \<notin> set RESERVED_MAGIC_NAMES"
  by (auto simp: check_runtime_name_def split: if_splits)

lemma names_safe_declare:
  assumes "declare_symbol n t a i T = Inr U" and "names_safe T" and "a \<Longrightarrow> n \<in> set (extern_functions V)"
    and "scopes V = scopes U" and "set (extern_functions T) \<subseteq> set (extern_functions V)"
  shows "names_safe V"
  using assms(1)
proof (rule declare_symbol_Inr)
  fix s ss
  assume "scopes T = s # ss" "n \<notin> set RESERVED_MAGIC_NAMES" "\<not> a \<Longrightarrow> check_runtime_name n = Inr ()"
    "U = T\<lparr>scopes := dict_set n \<lparr>sym_type = t, sym_level = level T, sym_immutable = i\<rparr> s # ss\<rparr>"
  with assms(3-5) show ?thesis by (cases a) (intro names_safe_mono [OF assms(2)]; auto)+
qed

lemma names_safe_global:
  assumes "declare_global n t T = Inr U" and "names_safe T" and "scopes V = scopes U"
    and "extern_functions V = extern_functions T"
  shows "names_safe V"
proof (rule names_safe_mono [OF assms(2)])
  note g = declare_global_Inr [OF assms(1)]
  fix s k assume "s \<in> set (scopes V)" "has_key s k"
  then consider "s \<in> set (scopes T)" | "k = n \<or> has_key (last (scopes T)) k"
    using g(4) assms(3) by (auto dest: in_set_butlastD)
  then show "(\<exists>s' \<in> set (scopes T). has_key s' k) \<or>
      k \<notin> set RESERVED_MAGIC_NAMES \<and> (k \<in> set (extern_functions V) \<or> check_runtime_name k = Inr ())"
  proof cases
    case 1
    with \<open>has_key s k\<close> show ?thesis by blast
  next
    case 2
    with g(1,3) check_runtime_magic [OF g(3)] show ?thesis by auto
  qed
qed (simp add: assms(4))

interpretation naming: table_relation "\<lambda>T U. names_safe T \<longrightarrow> names_safe U"
proof
  show "names_safe T \<longrightarrow> names_safe U" if "declare_name n t T = Inr U" for n t T U
    using names_safe_declare [OF that, of U] that by (auto elim!: declare_symbol_Inr)
  show "names_safe T \<longrightarrow> names_safe (add_extern n (add_function n sig U))"
    if "declare_symbol n t True False T = Inr U" for n t T U sig
  proof
    assume safe: "names_safe T"
    have "extern_functions U = extern_functions T"
      using that by (rule declare_symbol_Inr) simp
    then show "names_safe (add_extern n (add_function n sig U))"
      by (intro names_safe_declare [OF that safe]) (auto simp: add_extern_def add_function_def)
  qed
  show "names_safe T \<longrightarrow> names_safe (declare_struct n fs es U)"
    if "declare_global n (NamedType ''struct'') T = Inr U" for n fs es T U
    using names_safe_global [OF that, of "declare_struct n fs es U"] declare_global_Inr [OF that]
    by (simp add: table_ops)
  show "names_safe T \<longrightarrow> names_safe (declare_iface n ms ts U)"
    if "declare_global n (NamedType ''iface'') T = Inr U" for n ms ts T U
    using names_safe_global [OF that, of "declare_iface n ms ts U"] declare_global_Inr [OF that]
    by (simp add: table_ops)
  show "names_safe T \<longrightarrow> names_safe (declare_enum n vs U)"
    if "declare_global n (NamedType ''enum'') T = Inr U" for n vs T U
    using names_safe_global [OF that, of "declare_enum n vs U"] declare_global_Inr [OF that]
    by (simp add: table_ops)
  show "names_safe T \<longrightarrow> names_safe (add_function n sig T)" for n sig T
    by (simp add: names_safe_def table_ops)
  show "names_safe T \<longrightarrow> names_safe U" if added: "add_method n m sig T = Inr U" for n m sig T U
  proof -
    obtain ms where "U = T\<lparr>methods := ms\<rparr>" using add_method_Inr [OF added] by blast
    then show ?thesis by (simp add: names_safe_def)
  qed
  show "names_safe T \<longrightarrow> names_safe U"
    if "names_safe (push_scope T) \<longrightarrow> names_safe V" "pop_scope V = Inr U" for T V U
  proof
    assume "names_safe T"
    then have "names_safe V" using that(1) by (simp add: push_scope_def names_safe_def)
    then show "names_safe U"
      using that(2) unfolding pop_scope_def
      by (cases "scopes V") (auto intro: names_safe_mono)
  qed
qed auto

subsection \<open>Kinds of types\<close>

definition kind_symbol :: "string \<Rightarrow> symbol" where
  "kind_symbol k = \<lparr>sym_type = Some (NamedType k), sym_level = 0, sym_immutable = False\<rparr>"

definition kind_keys :: "string \<Rightarrow> (string \<times> 'a) list \<Rightarrow> symtab \<Rightarrow> bool" where
  "kind_keys k d T \<longleftrightarrow> (\<forall>n. has_key d n \<longrightarrow> map_of (last (scopes T)) n = Some (kind_symbol k))"

text \<open>Every declared type is a name of the global scope, which says what kind of type it is.\<close>

definition kinds_ok :: "symtab \<Rightarrow> bool" where
  "kinds_ok T \<longleftrightarrow> scopes T \<noteq> [] \<and> kind_keys ''struct'' (structs T) T \<and> kind_keys ''enum'' (enums T) T
     \<and> kind_keys ''iface'' (ifaces T) T"

definition kinds_kept :: "symtab \<Rightarrow> symtab \<Rightarrow> bool" where
  "kinds_kept T U \<longleftrightarrow> ext T U \<and> (kinds_ok T \<longrightarrow> kinds_ok U)"

lemma list_all2_last: "list_all2 P xs ys \<Longrightarrow> xs \<noteq> [] \<Longrightarrow> ys \<noteq> [] \<and> P (last xs) (last ys)"
  by (induction rule: list_all2_induct) auto

lemma ext_last: "ext T U \<Longrightarrow> scopes T \<noteq> [] \<Longrightarrow> scopes U \<noteq> [] \<and> scope_ext (last (scopes T)) (last (scopes U))"
  unfolding ext_def by (elim conjE list_all2_last)

lemma kind_keys_ext: "kind_keys k d T \<Longrightarrow> ext T U \<Longrightarrow> scopes T \<noteq> [] \<Longrightarrow> kind_keys k d U"
  by (auto simp: kind_keys_def scope_ext_def dest: ext_last)

lemma kinds_ok_ext:
  assumes "kinds_ok T" and "ext T U"
    and "structs U = structs T" "enums U = enums T" "ifaces U = ifaces T"
  shows "kinds_ok U"
  using assms ext_last [OF assms(2)] by (auto simp: kinds_ok_def intro: kind_keys_ext)

lemma kinds_kept_same:
  assumes "ext T U" and "structs U = structs T" "enums U = enums T" "ifaces U = ifaces T"
  shows "kinds_kept T U"
  using assms kinds_ok_ext [OF _ assms(1)] by (simp add: kinds_kept_def)

lemma declare_symbol_dicts: "declare_symbol n t a i T = Inr U \<Longrightarrow>
    structs U = structs T \<and> enums U = enums T \<and> ifaces U = ifaces T"
  by (erule declare_symbol_Inr) simp

lemma kind_keys_declared: "kind_keys k d U \<Longrightarrow> map_of (last (scopes U)) n = Some (kind_symbol k) \<Longrightarrow>
    kind_keys k (dict_set n v d) U"
  by (simp add: kind_keys_def)

lemma kind_keys_scopes: "scopes V = scopes U \<Longrightarrow> kind_keys k d V = kind_keys k d U"
  by (simp add: kind_keys_def)

lemma kinds_declared:
  assumes "declare_global n (NamedType k) T = Inr U"
  shows "map_of (last (scopes U)) n = Some (kind_symbol k)" and "ext T U" and "scopes U \<noteq> []"
    and "kinds_ok T \<Longrightarrow> kinds_ok U"
proof -
  note g = declare_global_Inr [OF assms]
  show e: "ext T U" by (rule ext_declare_global [OF assms])
  show "map_of (last (scopes U)) n = Some (kind_symbol k)" "scopes U \<noteq> []"
    using g(4) by (simp_all add: kind_symbol_def)
  show "kinds_ok U" if "kinds_ok T"
    using g(4) by (intro kinds_ok_ext [OF that e]) simp_all
qed

interpretation kinds: table_relation kinds_kept
proof
  show "kinds_kept T T" for T
    by (simp add: kinds_kept_def ext_refl)
  show "kinds_kept T V" if "kinds_kept T U" "kinds_kept U V" for T U V
    using that by (auto simp: kinds_kept_def intro: ext_trans)
  show "kinds_kept T U" if "declare_name n t T = Inr U" for n t T U
    using declare_symbol_dicts [OF that] by (auto intro: kinds_kept_same ext_declare that)
  show "kinds_kept T (add_extern n (add_function n sig U))"
    if "declare_symbol n t True False T = Inr U" for n t T U sig
    using declare_symbol_dicts [OF that] growing.R_extern [OF that, of sig]
    by (intro kinds_kept_same) (simp_all add: add_extern_def add_function_def)
  show "kinds_kept T (add_function n sig T)" for n sig T
    using growing.R_function by (intro kinds_kept_same) (simp_all add: add_function_def)
  show "kinds_kept T U" if "add_method n m sig T = Inr U" for n m sig T U
    using growing.R_method [OF that] add_method_Inr [OF that] by (auto intro!: kinds_kept_same)
  show "kinds_kept T U" if "kinds_kept (push_scope T) V" "pop_scope V = Inr U" for T V U
  proof -
    have e: "ext (push_scope T) V" and k: "kinds_ok (push_scope T) \<longrightarrow> kinds_ok V"
      using that(1) by (simp_all add: kinds_kept_def)
    note t = ext_scope [OF e that(2)]
    moreover have "kinds_ok U" if ok: "kinds_ok T"
    proof -
      have "kinds_ok (push_scope T)"
        using ok by (auto simp: kinds_ok_def push_scope_def kind_keys_def)
      with k have v: "kinds_ok V" by simp
      obtain s ss where V: "scopes V = s # ss" "U = V\<lparr>scopes := ss, level := level V - 1\<rparr>"
        using \<open>pop_scope V = Inr U\<close> by (auto simp: pop_scope_def split: list.splits)
      moreover have "scopes U \<noteq> []" using ext_last [OF t] ok by (simp add: kinds_ok_def)
      ultimately show ?thesis using v by (simp add: kinds_ok_def kind_keys_def)
    qed
    ultimately show ?thesis by (simp add: kinds_kept_def)
  qed
  show "kinds_kept T (declare_struct n fs es U)"
    if "declare_global n (NamedType ''struct'') T = Inr U" for n fs es T U
    using kinds_declared [OF that] growing.R_struct [OF that, of fs es]
    by (auto simp: kinds_kept_def kinds_ok_def declare_struct_def Let_def kind_keys_def)
  show "kinds_kept T (declare_iface n ms ts U)"
    if "declare_global n (NamedType ''iface'') T = Inr U" for n ms ts T U
    using kinds_declared [OF that] growing.R_iface [OF that, of ms ts]
    by (auto simp: kinds_kept_def kinds_ok_def declare_iface_def kind_keys_def)
  show "kinds_kept T (declare_enum n vs U)"
    if "declare_global n (NamedType ''enum'') T = Inr U" for n vs T U
    using kinds_declared [OF that] growing.R_enum [OF that, of vs]
    by (auto simp: kinds_kept_def kinds_ok_def declare_enum_def kind_keys_def)
qed

subsection \<open>The table of a program\<close>

lemma initial_scopes: "scopes initial_symtab = [[(''raw'', kind_symbol ''raw'')]]" "level initial_symtab = 0"
    "extern_functions initial_symtab = []"
  by (simp_all add: initial_symtab_def empty_symtab_def kind_symbol_def)

lemma build_ext: "build_symbol_table p = Inr T \<Longrightarrow> ext initial_symtab T"
  unfolding build_symbol_table_def
  by (rule growing.keepsD [OF growing.keeps_fold]) (simp_all add: growing.keeps_walk)

lemma build_global:
  assumes "build_symbol_table p = Inr T"
  obtains g where "scopes T = [g]"
  using build_ext [OF assms] by (auto simp: ext_def initial_scopes list_all2_Cons1)

text \<open>
  C14: when the pass over a program ends, every scope it opened is closed again: only the global
  scope is left, at level 0, with the internal type \<open>raw\<close> still in it, and every symbol in it
  carries level 0.
\<close>

theorem symtab_balanced:
  assumes "build_symbol_table p = Inr T"
  shows "level T = 0 \<and> length (scopes T) = 1 \<and> lookup ''raw'' T = Inr (kind_symbol ''raw'')
     \<and> (\<forall>n s. lookup n T = Inr s \<longrightarrow> sym_level s = 0)"
proof -
  obtain g where g: "scopes T = [g]" using assms by (rule build_global)
  have e: "level T = 0" "scope_ext [(''raw'', kind_symbol ''raw'')] g" "levels_ok 0 [g]"
    using build_ext [OF assms] g by (auto simp: ext_def initial_scopes kind_symbol_def)
  have "map_of g ''raw'' = Some (kind_symbol ''raw'')" using e(2) by (simp add: scope_ext_def)
  moreover have "sym_level s = 0" if "lookup n T = Inr s" for n s
    using that e(3) g by (auto simp: lookup_def split: option.splits dest!: map_of_SomeD)
  ultimately show ?thesis using e(1) g by (simp add: lookup_def)
qed

text \<open>
  C15: after the pass no magic constant is a name of the program, and a name that belongs to the
  runtime (\<open>malloc\<close>, \<open>__nc...\<close>) is one only as an external function.
\<close>

theorem symtab_reserved:
  assumes "build_symbol_table p = Inr T" and "lookup n T = Inr s"
  shows "n \<notin> set RESERVED_MAGIC_NAMES
    \<and> (n \<in> set RESERVED_RUNTIME_NAMES \<or> starts_with ''__nc'' n \<longrightarrow> n \<in> set (extern_functions T))"
proof -
  have "names_safe initial_symtab"
    by (simp add: names_safe_def initial_scopes has_key_def check_runtime_name_def RESERVED_MAGIC_NAMES_def
        RESERVED_RUNTIME_NAMES_def)
  moreover have "names_safe initial_symtab \<longrightarrow> names_safe T"
    using assms(1) unfolding build_symbol_table_def
    by (rule naming.keepsD [OF naming.keeps_fold, rotated]) (simp add: naming.keeps_walk)
  ultimately have safe: "names_safe T" by simp
  obtain g where g: "scopes T = [g]" using assms(1) by (rule build_global)
  have "has_key g n" using assms(2) g by (auto simp: lookup_def has_key_def split: option.splits)
  with safe g have *: "n \<notin> set RESERVED_MAGIC_NAMES \<and> (n \<in> set (extern_functions T) \<or> check_runtime_name n = Inr ())"
    by (auto simp: names_safe_def)
  then show ?thesis by (auto simp: check_runtime_name_def split: if_splits)
qed

text \<open>
  C16: a name denotes one kind of type: a declared struct, enum or interface is a global name whose
  symbol says which of the three it is, so no name is two of them.
\<close>

theorem symtab_kinds:
  assumes "build_symbol_table p = Inr T"
  shows "(has_key (structs T) n \<longrightarrow> lookup n T = Inr (kind_symbol ''struct''))
    \<and> (has_key (enums T) n \<longrightarrow> lookup n T = Inr (kind_symbol ''enum''))
    \<and> (has_key (ifaces T) n \<longrightarrow> lookup n T = Inr (kind_symbol ''iface''))"
proof -
  have "kinds_ok initial_symtab"
    by (simp add: kinds_ok_def kind_keys_def initial_symtab_def empty_symtab_def)
  moreover have "kinds_kept initial_symtab T"
    using assms unfolding build_symbol_table_def
    by (rule kinds.keepsD [OF kinds.keeps_fold, rotated]) (simp add: kinds.keeps_walk)
  ultimately have k: "kinds_ok T" by (simp add: kinds_kept_def)
  obtain g where g: "scopes T = [g]" using assms by (rule build_global)
  show ?thesis
    using k g by (simp add: kinds_ok_def kind_keys_def lookup_def)
qed

text \<open>The name under which a function or method enters the global scope, with its result type.\<close>

fun declared_name :: "node \<Rightarrow> (string \<times> tref option) option" where
  "declared_name (FunctionDeclaration name _ ret _ rname rtype _ _ _ _ _ is_extern _) =
     Some (case (is_extern, rname, rtype) of
         (False, Some r, Some t) \<Rightarrow> receiver_base t @ ''_'' @ name
       | _ \<Rightarrow> name, void_type ret)"
| "declared_name _ = None"

lemma declare_symbol_bound:
  assumes "declare_symbol n t a i T = Inr U" and "ext U V"
  shows "\<exists>s ss s' ss'. scopes T = s # ss \<and> \<not> has_key s n \<and> scopes V = s' # ss'
     \<and> map_of s' n = Some \<lparr>sym_type = t, sym_level = level T, sym_immutable = i\<rparr>"
  using assms(1)
proof (rule declare_symbol_Inr)
  fix s ss
  assume "scopes T = s # ss" "\<not> has_key s n"
    "U = T\<lparr>scopes := dict_set n \<lparr>sym_type = t, sym_level = level T, sym_immutable = i\<rparr> s # ss\<rparr>"
  with assms(2) show ?thesis by (auto simp: ext_def list_all2_Cons1 scope_ext_def)
qed

lemma walk_declares:
  assumes "walk_stmt f T = Inr U" and "declared_name f = Some (n, t)"
  shows "\<exists>s ss s' ss'. scopes T = s # ss \<and> \<not> has_key s n \<and> scopes U = s' # ss'
     \<and> map_of s' n = Some \<lparr>sym_type = t, sym_level = level T, sym_immutable = False\<rparr>"
proof (cases f)
  case (FunctionDeclaration name params ret blk rname rtype c1 c2 c3 c4 c5 is_ext c6)
  have blk: "growing.keeps (rfold walk_stmt (statements blk))"
    by (rule growing.keeps_fold) (simp add: growing.keeps_walk)
  consider "is_ext" | r u where "\<not> is_ext" "rname = Some r" "rtype = Some u"
    | "\<not> is_ext" "rname = None \<or> rtype = None"
    by (cases rname; cases rtype) auto
  then have "\<exists>a V. declare_symbol n t a False T = Inr V \<and> ext V U"
  proof cases
    case 1
    with assms obtain V where "declare_symbol n t True False T = Inr V"
        "U = add_extern n (add_function n (t, params) V)"
      by (auto simp: walk_stmt.simps FunctionDeclaration declare_extern_def)
    moreover have "ext V (add_extern n (add_function n (t, params) V))"
      by (rule ext_same [OF _ _ ext_refl]) (simp_all add: add_extern_def add_function_def)
    ultimately show ?thesis by blast
  next
    case 2
    with assms obtain V W where "declare_name n t T = Inr V" "add_method (receiver_base u) name (ret, params) V = Inr W"
      "in_scope (seq_step (declare_name r (Some u)) (seq_step (declare_params params)
         (rfold walk_stmt (statements blk)))) W = Inr U"
      by (auto simp: walk_stmt.simps FunctionDeclaration Let_def)
    then show ?thesis
      by (blast intro: ext_trans growing.R_method growing.keepsD [OF growing.keeps_scope [OF growing.keeps_seq [OF
            growing.keeps_declare growing.keeps_seq [OF growing.keeps_params blk]]]])
  next
    case 3
    with assms obtain V where "declare_name n t T = Inr V"
      "in_scope (seq_step (declare_params params) (rfold walk_stmt (statements blk)))
         (add_function name (ret, params) V) = Inr U"
      by (auto simp: walk_stmt.simps FunctionDeclaration split: option.splits)
    then show ?thesis
      by (blast intro: ext_trans growing.R_function growing.keepsD [OF growing.keeps_scope [OF
            growing.keeps_seq [OF growing.keeps_params blk]]])
  qed
  then show ?thesis using declare_symbol_bound by blast
qed (use assms(2) in simp_all)

lemma walk_program_names:
  assumes "rfold walk_stmt p T = Inr U" and "scopes T = s # ss"
  shows "\<exists>s' ss'. scopes U = s' # ss' \<and> distinct (map fst (List.map_filter declared_name p))
     \<and> (\<forall>(n, t) \<in> set (List.map_filter declared_name p). \<not> has_key s n
          \<and> map_of s' n = Some \<lparr>sym_type = t, sym_level = level T, sym_immutable = False\<rparr>)"
  using assms
proof (induction p arbitrary: T s ss)
  case Nil
  then show ?case by (simp add: List.map_filter_simps)
next
  case (Cons f p)
  then obtain V where V: "walk_stmt f T = Inr V" and r: "rfold walk_stmt p V = Inr U" by auto
  have e: "ext T V"
    using growing.keeps_walk [of f] V by (blast dest: growing.keepsD)
  have "growing.keeps (rfold walk_stmt p)"
    by (rule growing.keeps_fold) (simp add: growing.keeps_walk)
  then have e': "ext V U" using r by (rule growing.keepsD)
  from e Cons.prems(2) obtain v vs where v: "scopes V = v # vs" "scope_ext s v" and l: "level V = level T"
    by (auto simp: ext_def list_all2_Cons1)
  from Cons.IH [OF r v(1)] obtain s' ss' where IH: "scopes U = s' # ss'"
    "distinct (map fst (List.map_filter declared_name p))"
    "\<forall>(n, t) \<in> set (List.map_filter declared_name p). \<not> has_key v n
          \<and> map_of s' n = Some \<lparr>sym_type = t, sym_level = level T, sym_immutable = False\<rparr>"
    by (auto simp: l)
  have old: "has_key s n \<Longrightarrow> has_key v n" for n
    using v(2) by (auto simp: has_key_def scope_ext_def)
  have rest: "\<forall>(n, t) \<in> set (List.map_filter declared_name p). \<not> has_key s n
          \<and> map_of s' n = Some \<lparr>sym_type = t, sym_level = level T, sym_immutable = False\<rparr>"
    using IH(3) old by blast
  show ?case
  proof (cases "declared_name f")
    case None
    with IH(1,2) rest show ?thesis by (simp add: List.map_filter_simps)
  next
    case (Some nt)
    obtain n t where nt: "nt = (n, t)" by force
    from walk_declares [OF V] Some nt v(1) Cons.prems(2)
    have n: "\<not> has_key s n" "map_of v n = Some \<lparr>sym_type = t, sym_level = level T, sym_immutable = False\<rparr>"
      by auto
    moreover have "map_of s' n = map_of v n"
      using e' v(1) IH(1) n(2) by (auto simp: ext_def scope_ext_def)
    moreover have "n \<notin> fst ` set (List.map_filter declared_name p)"
      using IH(3) n(2) by (force simp: has_key_def)
    ultimately show ?thesis using IH(1,2) rest Some nt by (simp add: List.map_filter_simps)
  qed
qed

text \<open>
  C17: every function and method (under \<open>Type_name\<close>) a program declares at its
  top level, those of extern blocks apart, is found in the table with its result type, \<open>void\<close> when it has none, and no two of
  them have the same name: the pass stops at the second.
\<close>

theorem symtab_functions:
  assumes "build_symbol_table p = Inr T"
  shows "distinct (map fst (List.map_filter declared_name p))
    \<and> (\<forall>f n t. f \<in> set p \<and> declared_name f = Some (n, t) \<longrightarrow>
         lookup n T = Inr \<lparr>sym_type = t, sym_level = 0, sym_immutable = False\<rparr>)"
proof -
  from walk_program_names [of p initial_symtab T] assms obtain s' ss' where
    s': "scopes T = s' # ss'" "distinct (map fst (List.map_filter declared_name p))"
      "\<forall>(n, t) \<in> set (List.map_filter declared_name p).
         map_of s' n = Some \<lparr>sym_type = t, sym_level = 0, sym_immutable = False\<rparr>"
    by (fastforce simp: build_symbol_table_def initial_scopes)
  moreover have "(n, t) \<in> set (List.map_filter declared_name p)"
    if "f \<in> set p" "declared_name f = Some (n, t)" for f n t
    using that by (force simp: List.map_filter_def)
  ultimately show ?thesis by (fastforce simp: lookup_def)
qed

lemma declare_params_bind_all:
  "declare_params ps T = Inr U \<Longrightarrow> symbols.bind_all (map (\<lambda>p. (pname p, ptype p, False)) ps) T = Some U"
  by (induction ps arbitrary: T) (auto simp: declare_params_def sym_declare_def)

text \<open>
  the parameters of a function are bound in its own scope: their names are distinct, each is
  found with its type and hides an outer name, any other name is found as outside, and leaving
  the scope gives back the table as it was.
\<close>

theorem params_scoped:
  assumes "declare_params ps (push_scope T) = Inr U"
  shows "distinct (map pname ps) \<and> pop_scope U = Inr T
    \<and> (\<forall>k. sym_find U k = (case map_of (map (\<lambda>p. (pname p, ptype p, False)) ps) k of
         Some v \<Rightarrow> Some v | None \<Rightarrow> sym_find T k))"
proof -
  note b = declare_params_bind_all [OF assms]
  have "sym_leave U = Some T" by (rule symbols.scope_discarded [OF b])
  then have "pop_scope U = Inr T" by (auto simp: sym_leave_def split: sum.splits)
  moreover have "sym_find U k = (case map_of (map (\<lambda>p. (pname p, ptype p, False)) ps) k of
         Some v \<Rightarrow> Some v | None \<Rightarrow> sym_find T k)" for k
    using symbols.find_bind_all [OF b, of k] by (simp add: symbols.find_enter cong: option.case_cong)
  moreover have "distinct (map pname ps)"
    using symbols.bind_all_distinct [OF b] by (simp add: comp_def)
  ultimately show ?thesis by simp
qed

subsection \<open>Concrete programs\<close>

text \<open>\<open>fun f() {}\<close>, \<open>fun g() { fun f(x i32) {} }\<close>, a struct and an external \<open>malloc\<close>.\<close>

definition plain_fun :: "string \<Rightarrow> node param list \<Rightarrow> node list \<Rightarrow> bool \<Rightarrow> node" where
  "plain_fun name ps body is_extern =
     FunctionDeclaration name ps None (Block body) None None False [] [] False None is_extern None"

definition inner_f :: node where
  "inner_f = plain_fun ''f'' [Param ''x'' (Some (NamedType ''i32'')) None] [] False"

definition sample :: "node list" where
  "sample = [plain_fun ''f'' [] [] False, plain_fun ''g'' [] [inner_f] False,
     StructDecl ''P'' [(''a'', NamedType ''i32'')] [] [] [],
     plain_fun ''malloc'' [] [] True]"

definition sample_table :: symtab where
  "sample_table = \<lparr>scopes = [[(''raw'', kind_symbol ''raw''), (''f'', kind_symbol ''void''),
       (''g'', kind_symbol ''void''), (''P'', kind_symbol ''struct''), (''malloc'', kind_symbol ''void'')]],
     level = 0, structs = [(''P'', [(''a'', NamedType ''i32'')])], struct_embeds = [(''P'', [])],
     enums = [], ifaces = [], methods = [],
     fun_sigs = [(''f'', None, [Param ''x'' (Some (NamedType ''i32'')) None]), (''g'', None, []),
       (''malloc'', Some (NamedType ''void''), [])],
     extern_functions = [''malloc'']\<rparr>"

lemmas symtab_eval = build_symbol_table_def initial_symtab_def empty_symtab_def walk_stmt.simps
  walk_expr.simps declare_symbol_def declare_global_def check_runtime_name_def RESERVED_MAGIC_NAMES_def
  RESERVED_RUNTIME_NAMES_def in_scope_def seq_step_def opt_step_def declare_params_def declare_extern_def
  push_scope_def pop_scope_def table_ops has_key_def void_type_def kind_symbol_def

lemma sample_eval: "build_symbol_table sample = Inr sample_table"
  by (simp add: sample_def sample_table_def inner_f_def plain_fun_def symtab_eval)

lemma symtab_balanced_witness:
  "\<exists>T. build_symbol_table sample = Inr T \<and> level T = 0 \<and> lookup ''raw'' T = Inr (kind_symbol ''raw'')"
  using symtab_balanced [OF sample_eval] sample_eval by blast

lemma symtab_reserved_witness:
  "\<exists>T s. build_symbol_table sample = Inr T \<and> lookup ''malloc'' T = Inr s \<and> ''malloc'' \<in> set (extern_functions T)"
proof -
  have "lookup ''malloc'' sample_table = Inr (kind_symbol ''void'')"
    by (simp add: lookup_def sample_table_def)
  then show ?thesis
    using symtab_reserved [OF sample_eval] sample_eval by (fastforce simp: RESERVED_RUNTIME_NAMES_def)
qed

lemma symtab_kinds_witness:
  "\<exists>T. build_symbol_table sample = Inr T \<and> has_key (structs T) ''P'' \<and> lookup ''P'' T = Inr (kind_symbol ''struct'')"
proof -
  have "has_key (structs sample_table) ''P''" by (simp add: sample_table_def has_key_def)
  then show ?thesis using symtab_kinds [OF sample_eval, of "''P''"] sample_eval by blast
qed

lemma symtab_functions_witness:
  "\<exists>T. build_symbol_table sample = Inr T \<and> lookup ''g'' T = Inr (kind_symbol ''void'')"
proof -
  have "plain_fun ''g'' [] [inner_f] False \<in> set sample"
    "declared_name (plain_fun ''g'' [] [inner_f] False) = Some (''g'', Some (NamedType ''void''))"
    by (simp_all add: sample_def plain_fun_def void_type_def)
  then show ?thesis
    using symtab_functions [OF sample_eval] sample_eval by (fastforce simp: kind_symbol_def)
qed

lemma params_scoped_witness:
  "\<exists>U. declare_params [Param ''f'' (Some (NamedType ''i32'')) None] (push_scope sample_table) = Inr U
     \<and> sym_find U ''f'' = Some (Some (NamedType ''i32''), False) \<and> pop_scope U = Inr sample_table"
proof -
  have "\<exists>U. declare_params [Param ''f'' (Some (NamedType ''i32'')) None] (push_scope sample_table) = Inr U"
    by (simp add: symtab_eval sample_table_def)
  then show ?thesis using params_scoped by fastforce
qed

text \<open>
  a function declared inside another one is in the inner scope only, but its signature
  replaces that of the global function of the same name: the table then says that \<open>f\<close> is a global
  function and gives the parameters of the nested one.
\<close>

theorem nested_function_overwrites:
  "\<exists>T. build_symbol_table [plain_fun ''f'' [] [] False, plain_fun ''g'' [] [inner_f] False] = Inr T
     \<and> lookup ''f'' T = Inr (kind_symbol ''void'')
     \<and> map_of (fun_sigs T) ''f'' = Some (None, [Param ''x'' (Some (NamedType ''i32'')) None])"
  by (simp add: inner_f_def plain_fun_def symtab_eval lookup_def)

end
