(* ===== verification/Builtins.thy ===== *)
theory Builtins
  imports Ast
begin

text \<open>
  \<open>compiler/builtins.py\<close> and \<open>compiler/constraints.py\<close>: the scalar types, the result types of the
  built-in functions, and the names of the constraints on type parameters.
\<close>

text \<open>
  A type and a text are compared through the key of the type (\<open>TypeRefBase.__eq__\<close> and \<open>__hash__\<close>),
  so membership in a set of texts is membership of the key.
\<close>

definition named :: "tref \<Rightarrow> string \<Rightarrow> bool" where
  "named t n \<longleftrightarrow> type_key t = n"

definition named_in :: "tref \<Rightarrow> string list \<Rightarrow> bool" where
  "named_in t ns \<longleftrightarrow> type_key t \<in> set ns"

definition NUMERIC_TYPES :: "string list" where
  "NUMERIC_TYPES = [''i8'', ''i16'', ''i32'', ''i64'', ''u8'', ''u16'', ''u32'', ''u64'', ''f32'', ''f64'']"

definition SIGNED_NUMERIC_TYPES :: "string list" where
  "SIGNED_NUMERIC_TYPES = [''i8'', ''i16'', ''i32'', ''i64'', ''f32'', ''f64'']"

definition SCALAR_TYPES :: "string list" where
  "SCALAR_TYPES = NUMERIC_TYPES @ [''str'', ''bool'', ''rune'', ''error'']"

abbreviation STRINGIFIABLE_TYPES :: "string list" where
  "STRINGIFIABLE_TYPES \<equiv> SCALAR_TYPES"

definition fail :: "string \<Rightarrow> 'a res" where
  "fail msg = Inl (TypeCheckError msg)"

text \<open>
  \<open>require_type\<close> is the argument of the function of that name: actual type, expected type, what for.
  \<open>require_arg_count\<close> checks the number of arguments. The arguments are given by their types.
\<close>

definition require_arg_count :: "'a list \<Rightarrow> nat \<Rightarrow> string \<Rightarrow> unit res" where
  "require_arg_count args n name =
     (if length args = n then Inr ()
      else fail (name @ '': expected '' @ show_nat n @ '' args, got '' @ show_nat (length args)))"

text \<open>\<open>if not c: fail(...)\<close>. The state is that of the caller, which \<open>require_type\<close> may change.\<close>

definition require :: "bool \<Rightarrow> string \<Rightarrow> ('s \<Rightarrow> ('b \<times> 's) res) \<Rightarrow> 's \<Rightarrow> ('b \<times> 's) res" where
  "require c msg k = (if c then k else slift (fail msg))"

definition infer_builtin_call ::
  "(tref \<Rightarrow> tref \<Rightarrow> string \<Rightarrow> 's \<Rightarrow> (unit \<times> 's) res) \<Rightarrow> string \<Rightarrow> tref list \<Rightarrow>
    's \<Rightarrow> (tref option \<times> 's) res" where
  "infer_builtin_call require_type name args =
    (let ret = (\<lambda>n. sret (Some (NamedType n)));
         a = (\<lambda>i. args ! i); at = (\<lambda>i. format_type_ref (args ! i));
         count = (\<lambda>n k. sbind (slift (require_arg_count args n name)) (\<lambda>_. k)) in
     if name = ''io.print'' \<or> name = ''io.println'' then count 1 (ret ''void'')
     else if name = ''append'' then
       count 2 (case as_slice_type (a 0) of
           None \<Rightarrow> slift (fail (''append: expected slice, got '' @ at 0))
         | Some elem \<Rightarrow> sbind (require_type (a 1) elem ''append element'') (\<lambda>_. sret (Some (a 0))))
     else if name = ''cap'' then
       count 1 (require (as_slice_type (a 0) \<noteq> None) (''cap: expected slice, got '' @ at 0) (ret ''i32''))
     else if name = ''copy'' then
       count 2 (require (as_slice_type (a 0) \<noteq> None) (''copy dst: expected slice, got '' @ at 0)
         (require (as_slice_type (a 1) \<noteq> None) (''copy src: expected slice, got '' @ at 1)
           (sbind (require_type (a 1) (a 0) ''copy src'') (\<lambda>_. ret ''i32''))))
     else if name = ''clear'' then
       count 1 (require (as_slice_type (a 0) \<noteq> None \<or> as_map_type (a 0) \<noteq> None)
         (''clear: expected slice or map, got '' @ at 0) (ret ''void''))
     else if name = ''delete'' then
       count 2 (case as_map_type (a 0) of
           None \<Rightarrow> slift (fail (''delete: expected map, got '' @ at 0))
         | Some (k, _) \<Rightarrow> sbind (require_type (a 1) k ''delete key'') (\<lambda>_. ret ''void''))
     else if name = ''str'' then
       count 1 (if named (a 0) ''[]u8'' then ret ''str''
         else if (case as_pointer_type (a 0) of None \<Rightarrow> False | Some (inner, _) \<Rightarrow> named_in inner [''i8'', ''u8''])
           then ret ''str''
         else require (named_in (a 0) STRINGIFIABLE_TYPES) (''str: cannot convert '' @ at 0 @ '' to str'') (ret ''str''))
     else if name = ''__nc_bytes_alloc'' then
       count 1 (sbind (require_type (a 0) (NamedType ''u64'') ''__nc_bytes_alloc len'')
         (\<lambda>_. sret (Some (SliceType (NamedType ''u8'')))))
     else if name = ''min'' \<or> name = ''max'' then
       count 2 (require (named_in (a 0) NUMERIC_TYPES) (name @ '': expected numeric value, got '' @ at 0)
         (sbind (require_type (a 1) (a 0) (name @ '' rhs'')) (\<lambda>_. sret (Some (a 0)))))
     else if name = ''abs'' then
       count 1 (require (named_in (a 0) SIGNED_NUMERIC_TYPES) (''abs: expected signed numeric value, got '' @ at 0)
         (sret (Some (a 0))))
     else if name = ''rune'' then
       count 1 (require (named_in (a 0) [''i32'', ''u32'']) (''rune: expected i32 or u32 value, got '' @ at 0)
         (ret ''rune''))
     else if name \<in> set NUMERIC_TYPES then
       count 1 (if name = ''i32'' \<and> named (a 0) ''str'' then ret ''i32''
         else if name \<in> {''i32'', ''u32''} \<and> named (a 0) ''rune'' then ret name
         else require (named_in (a 0) NUMERIC_TYPES) (name @ '': expected numeric value, got '' @ at 0) (ret name))
     else if name = ''runtime.gc_collect'' then count 0 (ret ''void'')
     else if name = ''runtime.gc_live'' then count 0 (ret ''i32'')
     else if name = ''len'' then
       count 1 (require (named (a 0) ''str'' \<or> as_map_type (a 0) \<noteq> None \<or> as_slice_type (a 0) \<noteq> None)
         (''len: expected str, map, or slice, got '' @ at 0) (ret ''i32''))
     else sret None)"

subsection \<open>Constraints\<close>

definition EQ_CONSTRAINT :: string where "EQ_CONSTRAINT = ''types.Eq''"
definition ORD_CONSTRAINT :: string where "ORD_CONSTRAINT = ''types.Ord''"
definition HASH_CONSTRAINT :: string where "HASH_CONSTRAINT = ''types.Hash''"
definition ZERO_CONSTRAINT :: string where "ZERO_CONSTRAINT = ''types.Zero''"

definition KNOWN_CONSTRAINTS :: "string list" where
  "KNOWN_CONSTRAINTS = [''any'', EQ_CONSTRAINT, ORD_CONSTRAINT, HASH_CONSTRAINT, ZERO_CONSTRAINT]"

definition satisfies_constraint :: "string \<Rightarrow> string \<Rightarrow> bool" where
  "satisfies_constraint tname constraint =
     (if constraint = ''any'' then True
      else constraint \<in> {ORD_CONSTRAINT, EQ_CONSTRAINT, HASH_CONSTRAINT, ZERO_CONSTRAINT})"

end
