(* ===== verification/TypeRules.thy ===== *)
theory TypeRules
  imports SymTab Builtins
begin

text \<open>
  \<open>compiler/type_rules.py\<close>: the predicates the type checker asks about types. A type is a structured
  one; where the code passes the canonical text of a type on, the model passes the type. The set
  \<open>seen\<close> holds keys. \<open>fail\<close> raises \<open>TypeCheckError\<close>.
\<close>

subsection \<open>Predicates\<close>

definition TR_FLOAT_TYPES :: "string list" where
  "TR_FLOAT_TYPES = [''f32'', ''f64'']"

definition RAW_TYPE :: string where
  "RAW_TYPE = ''raw''"

fun is_pointer_type :: "tref \<Rightarrow> bool" where
  "is_pointer_type (PointerType _ nullable) = (\<not> nullable)"
| "is_pointer_type _ = False"

fun is_nullable_pointer_type :: "tref \<Rightarrow> bool" where
  "is_nullable_pointer_type (PointerType _ nullable) = nullable"
| "is_nullable_pointer_type _ = False"

fun nonnullable_pointer_type :: "tref \<Rightarrow> tref" where
  "nonnullable_pointer_type (PointerType r nullable) = PointerType r False"
| "nonnullable_pointer_type t = t"

definition is_nil_type :: "tref \<Rightarrow> bool" where
  "is_nil_type t = named t ''__nil''"

definition is_numeric_type :: "tref \<Rightarrow> bool" where
  "is_numeric_type t = named_in t NUMERIC_TYPES"

definition is_integer_type :: "tref \<Rightarrow> bool" where
  "is_integer_type t = named_in t [''i8'', ''i16'', ''i32'', ''i64'', ''u8'', ''u16'', ''u32'', ''u64'']"

definition is_rune_type :: "tref \<Rightarrow> bool" where
  "is_rune_type t = named t ''rune''"

definition is_iface_type :: "symtab \<Rightarrow> tref \<Rightarrow> bool" where
  "is_iface_type T t = has_key (ifaces T) (type_key t)"

fun is_slice_array_or_fn :: "tref \<Rightarrow> bool" where
  "is_slice_array_or_fn (SliceType _) = True"
| "is_slice_array_or_fn (ArrayTypeRef _ _) = True"
| "is_slice_array_or_fn (FunctionType _ _ _) = True"
| "is_slice_array_or_fn _ = False"

subsection \<open>The walks over the fields of a type\<close>

text \<open>
  What a rule says of one type: fine, an offender, or as good as the types it is made of. The
  ends of the three walks are the same: a name that is looked up in the table.
\<close>

datatype verdict = Good | Bad | Parts "tref list"

definition sym_is :: "string \<Rightarrow> symbol \<Rightarrow> bool" where
  "sym_is k s \<longleftrightarrow> (case sym_type s of None \<Rightarrow> False | Some t \<Rightarrow> named t k)"

definition named_verdict :: "symtab \<Rightarrow> tref \<Rightarrow> verdict res" where
  "named_verdict T t =
     (case lookup (type_key t) T of
        Inl _ \<Rightarrow> Inr Bad
      | Inr s \<Rightarrow>
          if sym_is ''enum'' s then Inr Good
          else if sym_is ''struct'' s then
            rbind (lookup_struct (type_key t) T) (\<lambda>d. Inr (Parts (map snd d)))
          else Inr Bad)"

definition hash_verdict :: "symtab \<Rightarrow> tref \<Rightarrow> verdict res" where
  "hash_verdict T t =
     (if named_in t TR_FLOAT_TYPES then Inr Bad
      else if named_in t NUMERIC_TYPES \<or> named_in t [''bool'', ''str'', ''rune''] then Inr Good
      else if named t ''error'' then Inr Bad
      else if is_pointer_type t \<or> is_nullable_pointer_type t then Inr Good
      else if as_map_type t \<noteq> None then Inr Bad
      else if is_slice_array_or_fn t then Inr Bad
      else if is_iface_type T t then Inr Bad
      else named_verdict T t)"

definition zero_verdict :: "symtab \<Rightarrow> tref \<Rightarrow> verdict res" where
  "zero_verdict T t =
     (if named t ''void'' then Inr Bad
      else if named_in t NUMERIC_TYPES \<or> named_in t [''bool'', ''str'', ''rune''] then Inr Good
      else if is_pointer_type t then Inr Bad
      else if is_nullable_pointer_type t then Inr Good
      else if as_map_type t \<noteq> None then Inr Good
      else
        (case t of
           SliceType _ \<Rightarrow> Inr Good
         | ArrayTypeRef _ elem \<Rightarrow> Inr (Parts [elem])
         | FunctionType _ _ _ \<Rightarrow> Inr Good
         | _ \<Rightarrow> if is_iface_type T t then Inr Good else named_verdict T t))"

definition comparable_verdict :: "symtab \<Rightarrow> tref \<Rightarrow> verdict res" where
  "comparable_verdict T t =
     (if named_in t NUMERIC_TYPES \<or> named_in t [''bool'', ''str'', ''rune''] then Inr Good
      else if named t ''error'' then Inr Bad
      else if is_pointer_type t \<or> is_nullable_pointer_type t then Inr Good
      else if as_map_type t \<noteq> None then Inr Bad
      else if is_slice_array_or_fn t then Inr Bad
      else if is_iface_type T t then Inr Bad
      else named_verdict T t)"

text \<open>
  \<open>for _fname, ftype in ...: err = f(ftype, seen); if err is not None: return err\<close>: the first
  offender, with the set \<open>seen\<close> the calls share.
\<close>

fun first_offender :: "(tref \<Rightarrow> 's \<Rightarrow> (tref option \<times> 's) res) \<Rightarrow> tref list \<Rightarrow> 's \<Rightarrow> (tref option \<times> 's) res" where
  "first_offender f [] seen = Inr (None, seen)"
| "first_offender f (t # ts) seen =
     rbind (f t seen) (\<lambda>(err, seen). case err of
         Some e \<Rightarrow> Inr (Some e, seen)
       | None \<Rightarrow> first_offender f ts seen)"

fun offender :: "(tref \<Rightarrow> verdict res) \<Rightarrow> nat \<Rightarrow> tref \<Rightarrow> string list \<Rightarrow> (tref option \<times> string list) res" where
  "offender verdict 0 t seen = Inl OutOfFuel"
| "offender verdict (Suc n) t seen =
     (if type_key t \<in> set seen then Inr (None, seen)
      else rbind (verdict t) (\<lambda>v. case v of
          Good \<Rightarrow> Inr (None, type_key t # seen)
        | Bad \<Rightarrow> Inr (Some t, type_key t # seen)
        | Parts ts \<Rightarrow> first_offender (offender verdict n) ts (type_key t # seen)))"

text \<open>
  The types a walk can reach from a type, down arrays and through the fields of the structs: no
  key is visited twice, so one step for each of them is enough.
\<close>

fun array_spine :: "tref \<Rightarrow> tref list" where
  "array_spine (ArrayTypeRef n elem) = ArrayTypeRef n elem # array_spine elem"
| "array_spine t = [t]"

definition field_types :: "symtab \<Rightarrow> tref list" where
  "field_types T = concat (map (map snd \<circ> snd) (structs T))"

definition walk_fuel :: "symtab \<Rightarrow> tref \<Rightarrow> nat" where
  "walk_fuel T t = Suc (length (concat (map array_spine (t # field_types T))))"

definition hash_comparable_error_type :: "symtab \<Rightarrow> tref \<Rightarrow> tref option res" where
  "hash_comparable_error_type T t = rbind (offender (hash_verdict T) (walk_fuel T t) t []) (\<lambda>(e, _). Inr e)"

definition zero_value_error_type :: "symtab \<Rightarrow> tref \<Rightarrow> tref option res" where
  "zero_value_error_type T t = rbind (offender (zero_verdict T) (walk_fuel T t) t []) (\<lambda>(e, _). Inr e)"

definition comparable_error_type :: "symtab \<Rightarrow> tref \<Rightarrow> tref option res" where
  "comparable_error_type T t = rbind (offender (comparable_verdict T) (walk_fuel T t) t []) (\<lambda>(e, _). Inr e)"

definition fail_if :: "string \<Rightarrow> string \<Rightarrow> tref option \<Rightarrow> unit res" where
  "fail_if pre post err =
     (case err of None \<Rightarrow> Inr () | Some e \<Rightarrow> fail (pre @ format_type_ref_user e @ post))"

definition require_hash_comparable :: "symtab \<Rightarrow> tref \<Rightarrow> unit res" where
  "require_hash_comparable T t =
     rbind (hash_comparable_error_type T t) (fail_if ''map key type: expected hash-comparable, got '' [])"

definition require_zero_value_type :: "symtab \<Rightarrow> tref \<Rightarrow> unit res" where
  "require_zero_value_type T t =
     rbind (zero_value_error_type T t) (fail_if ''map value type: expected zero-value type, got '' [])"

definition require_comparable :: "symtab \<Rightarrow> tref \<Rightarrow> unit res" where
  "require_comparable T t =
     rbind (comparable_error_type T t) (fail_if ''comparison: type '' '' is not comparable'')"

subsection \<open>Sized types and maps\<close>

text \<open>
  \<open>pub\<close> is the callback \<open>require_public_qualified\<close>. The inner function \<open>walk\<close> of
  \<open>validate_sized_type\<close> gets the type \<open>t\<close> of the outer call, which it hands to
  \<open>validate_map_type\<close>.
\<close>

definition sized_name :: "symtab \<Rightarrow> (string \<Rightarrow> unit res) \<Rightarrow> bool \<Rightarrow> string \<Rightarrow> unit res" where
  "sized_name T pub allow_void_here name =
     (if name = ''void'' then (if allow_void_here then Inr () else fail ''size_of: void has no size'')
      else if name = RAW_TYPE then Inr ()
      else
        rbind (pub name) (\<lambda>_.
          if name \<in> set NUMERIC_TYPES \<or> name \<in> set [''bool'', ''str'', ''rune'', ''error''] then Inr ()
          else if name = ''map'' then fail ''size_of: map requires type arguments''
          else
            (case lookup name T of
               Inl _ \<Rightarrow> fail (''size_of: unknown type '' @ name)
             | Inr s \<Rightarrow>
                 if sym_is ''struct'' s \<or> sym_is ''enum'' s \<or> sym_is ''iface'' s then Inr ()
                 else fail (''size_of: unknown type '' @ name))))"

lemma size_in_list: "x \<in> set xs \<Longrightarrow> size x < Suc (size_list size xs)"
  by (induction xs) auto

lemma as_map_type_eq: "as_map_type t = Some (k, v) \<longleftrightarrow> t = GenericType (NamedType ''map'') [k, v]"
  by (cases t rule: as_map_type.cases) auto

function (sequential) validate_sized_type :: "symtab \<Rightarrow> (string \<Rightarrow> unit res) \<Rightarrow> tref \<Rightarrow> bool \<Rightarrow> unit res"
  and sized_walk :: "symtab \<Rightarrow> (string \<Rightarrow> unit res) \<Rightarrow> tref \<Rightarrow> tref \<Rightarrow> bool \<Rightarrow> unit res"
  and validate_map_type :: "symtab \<Rightarrow> (string \<Rightarrow> unit res) \<Rightarrow> tref \<Rightarrow> (tref \<times> tref) option res"
where
  "validate_sized_type T pub t allow_void =
     (if named t ''void'' then (if allow_void then Inr () else fail ''size_of: void has no size'')
      else sized_walk T pub t t allow_void)"
| "sized_walk T pub t (NamedType name) allow_void_here = sized_name T pub allow_void_here name"
| "sized_walk T pub t (PointerType r _) allow_void_here = sized_walk T pub t r True"
| "sized_walk T pub t (SliceType r) allow_void_here = sized_walk T pub t r False"
| "sized_walk T pub t (ArrayTypeRef _ r) allow_void_here = sized_walk T pub t r False"
| "sized_walk T pub t (FunctionType ps r _) allow_void_here =
     rbind (rfold (\<lambda>p _. sized_walk T pub t p False) ps ()) (\<lambda>_. sized_walk T pub t r True)"
| "sized_walk T pub t (GenericType b as) allow_void_here =
     (case b of
        NamedType base \<Rightarrow>
          if base \<noteq> ''map'' then fail (''size_of: unknown type '' @ base)
          else if length as \<noteq> 2 then fail (''map: expected 2 type args, got '' @ show_nat (length as))
          else
            rbind (rfold (\<lambda>a _. sized_walk T pub t a False) as ()) (\<lambda>_.
            rbind (validate_map_type T pub t) (\<lambda>_. Inr ()))
      | _ \<Rightarrow> fail (''size_of: unsupported type '' @ format_type_ref_user t))"
| "validate_map_type T pub t =
     (case as_map_type t of
        None \<Rightarrow>
          (case t of
             GenericType (NamedType base) as \<Rightarrow>
               if base = ''map'' then fail (''map: expected 2 type args, got '' @ show_nat (length as)) else Inr None
           | _ \<Rightarrow> Inr None)
      | Some (k, v) \<Rightarrow>
          rbind (require_hash_comparable T k) (\<lambda>_.
          rbind (validate_sized_type T pub v False) (\<lambda>_.
          rbind (require_zero_value_type T v) (\<lambda>_. Inr (Some (k, v))))))"
  by pat_completeness auto
termination
  by (relation "measures [\<lambda>x. case x of Inl (T, pub, t, a) \<Rightarrow> size t
         | Inr (Inl (T, pub, t, r, a)) \<Rightarrow> size t | Inr (Inr (T, pub, t)) \<Rightarrow> size t,
       \<lambda>x. case x of Inl (T, pub, t, a) \<Rightarrow> Suc (Suc (size t))
         | Inr (Inl (T, pub, t, r, a)) \<Rightarrow> Suc (size r) | Inr (Inr (T, pub, t)) \<Rightarrow> 0]")
    (auto simp: as_map_type_eq dest: size_in_list)

declare validate_sized_type.simps [simp del] sized_walk.simps [simp del] validate_map_type.simps [simp del]

subsection \<open>Order\<close>

text \<open>The key of the struct a field embeds, by value or through a pointer.\<close>

fun embed_base :: "tref \<Rightarrow> string" where
  "embed_base (PointerType r _) = format_type_ref r"
| "embed_base t = format_type_ref t"

definition own_method :: "symtab \<Rightarrow> string \<Rightarrow> string \<Rightarrow> signature option" where
  "own_method T tname mname = (case map_of (methods T) tname of None \<Rightarrow> None | Some ms \<Rightarrow> map_of ms mname)"

type_synonym method_match = "string list \<times> string \<times> signature"

text \<open>
  \<open>_resolve_struct_method\<close>: path of embedded fields, type that has the method, signature. A copy of
  \<open>seen\<close> is passed down unchanged, so the recursion is bounded by \<open>n\<close> only in the model.
\<close>

fun resolve_struct_method ::
  "nat \<Rightarrow> symtab \<Rightarrow> string \<Rightarrow> string \<Rightarrow> string list \<Rightarrow> method_match option res" where
  "resolve_struct_method 0 T tname mname seen = Inl OutOfFuel"
| "resolve_struct_method (Suc n) T tname mname seen =
     (case own_method T tname mname of
        Some sig \<Rightarrow> Inr (Some ([], tname, sig))
      | None \<Rightarrow>
          rbind (rmap (\<lambda>(f, e).
              if embed_base e \<in> set seen then Inr []
              else
                rbind (resolve_struct_method n T (embed_base e) mname seen) (\<lambda>nested. Inr (
                  (case own_method T (embed_base e) mname of
                     Some sig \<Rightarrow> [([f], embed_base e, sig)] | None \<Rightarrow> []) @
                  (case nested of Some (path, b, sig) \<Rightarrow> [(f # path, b, sig)] | None \<Rightarrow> []))))
            (case map_of (struct_embeds T) tname of Some es \<Rightarrow> es | None \<Rightarrow> [])) (\<lambda>mss.
          Inr (case concat mss of [m] \<Rightarrow> Some m | _ \<Rightarrow> None)))"

definition ord_error_type :: "nat \<Rightarrow> symtab \<Rightarrow> tref \<Rightarrow> tref option res" where
  "ord_error_type n T t =
     (if named_in t NUMERIC_TYPES \<or> named t ''str'' then Inr None
      else
        (case lookup (type_key t) T of
           Inl _ \<Rightarrow> Inr (Some t)
         | Inr s \<Rightarrow>
             if \<not> sym_is ''struct'' s then Inr (Some t)
             else
               rbind (resolve_struct_method n T (type_key t) ''__lt__'' [type_key t]) (\<lambda>resolved.
                 Inr (case resolved of
                     None \<Rightarrow> Some t
                   | Some (_, _, ret, params) \<Rightarrow>
                       (case params of
                          [p] \<Rightarrow>
                            (case ptype p of
                               None \<Rightarrow> Some t
                             | Some pt \<Rightarrow>
                                 if \<not> same_type pt t then Some t
                                 else if (case ret of None \<Rightarrow> False | Some r \<Rightarrow> \<not> named r ''bool'') then Some t
                                 else None)
                        | _ \<Rightarrow> Some t)))))"

subsection \<open>Constraints of generic instances\<close>

definition constraint_error_type :: "nat \<Rightarrow> symtab \<Rightarrow> tref \<Rightarrow> string \<Rightarrow> tref option res" where
  "constraint_error_type n T t constraint =
     (if constraint = ''any'' then Inr None
      else if constraint = EQ_CONSTRAINT then comparable_error_type T t
      else if constraint = ORD_CONSTRAINT then ord_error_type n T t
      else if constraint = HASH_CONSTRAINT then hash_comparable_error_type T t
      else if constraint = ZERO_CONSTRAINT then zero_value_error_type T t
      else Inr (Some t))"

text \<open>
  An instance of a generic declaration: the constraints monomorphization recorded (parameter,
  argument, constraint), whether it is an erased function, and its origin.
\<close>

definition validate_generic_constraints ::
  "nat \<Rightarrow> symtab \<Rightarrow> (string \<times> tref \<times> string) list \<Rightarrow> bool \<Rightarrow> string \<Rightarrow> string \<Rightarrow> unit res" where
  "validate_generic_constraints n T constraints is_erased kind name =
     (if constraints = [] \<or> is_erased then Inr ()
      else rfold (\<lambda>(_, arg, constraint) _.
          rbind (constraint_error_type n T arg constraint) (\<lambda>err.
            if err = None then Inr ()
            else fail (''generic '' @ kind @ '' '' @ name @ '': type arg '' @ format_type_ref_user arg
              @ '' does not satisfy '' @ constraint))) constraints ())"

fun is_extern_abi_type :: "tref \<Rightarrow> bool" where
  "is_extern_abi_type (PointerType r nullable) = is_extern_abi_type r"
| "is_extern_abi_type t = (named t ''void'' \<or>
     named_in t [''i8'', ''i16'', ''i32'', ''i64'', ''u8'', ''u16'', ''u32'', ''u64'', ''f32'', ''f64'', ''bool''])"

end
