(* ===== verification/TypeRulesProps.thy ===== *)
theory TypeRulesProps
  imports TypeRules TypeRefProps SymTabProps
begin

text \<open>
  What the predicates on types decide: the three walks end and find exactly the offenders that
  can be reached, the rules are ordered, and where the code falls short of its rules.
\<close>

subsection \<open>The walk\<close>

text \<open>The types a walk looks at, from a type on.\<close>

inductive reaches :: "(tref \<Rightarrow> verdict res) \<Rightarrow> tref \<Rightarrow> tref \<Rightarrow> bool" for verdict t where
  reaches_refl: "reaches verdict t t"
| reaches_step: "reaches verdict t u \<Longrightarrow> verdict u = Inr (Parts ts) \<Longrightarrow> v \<in> set ts \<Longrightarrow> reaches verdict t v"

inductive_cases reaches_elim: "reaches verdict t u"

text \<open>
  A rule with the walk that asks it: the parts it names are field types or the elements of an
  array, and it is total up to a lookup error.
\<close>

locale type_walk =
  fixes verdict :: "tref \<Rightarrow> verdict res" and F :: "tref list"
  assumes parts: "verdict t = Inr (Parts ts) \<Longrightarrow> u \<in> set ts \<Longrightarrow> u \<in> set F \<or> (\<exists>n. t = ArrayTypeRef n u)"
    and no_fuel: "verdict t \<noteq> Inl OutOfFuel"
begin

definition universe :: "tref \<Rightarrow> tref list" where
  "universe t = concat (map array_spine (t # F))"

lemma spine_self: "t \<in> set (array_spine t)"
  by (cases t) simp_all

lemma spine_elem: "ArrayTypeRef n u \<in> set (array_spine t) \<Longrightarrow> u \<in> set (array_spine t)"
  by (induction t rule: array_spine.induct) (auto simp: spine_self)

lemma universe_parts:
  "u \<in> set (universe t) \<Longrightarrow> verdict u = Inr (Parts ts) \<Longrightarrow> v \<in> set ts \<Longrightarrow> v \<in> set (universe t)"
  using parts [of u ts v] spine_elem spine_self by (fastforce simp: universe_def)

lemma universe_self: "t \<in> set (universe t)"
  by (simp add: universe_def spine_self)

lemma first_offender_grows:
  assumes "first_offender f ts seen = Inr (e, seen')"
    and "\<forall>t \<in> set ts. \<forall>s e s'. f t s = Inr (e, s') \<longrightarrow> set s \<subseteq> set s'"
  shows "set seen \<subseteq> set seen'"
  using assms
proof (induction ts arbitrary: seen)
  case (Cons t ts)
  from Cons.prems(1) obtain err s where f: "f t seen = Inr (err, s)"
    and r: "(case err of Some e \<Rightarrow> Inr (Some e, s) | None \<Rightarrow> first_offender f ts s) = Inr (e, seen')"
    by auto
  have "set seen \<subseteq> set s" using Cons.prems(2) f by simp
  moreover have "set s \<subseteq> set seen'"
    using r Cons.IH [of s] Cons.prems(2) by (cases err) auto
  ultimately show ?case by blast
qed simp

lemma offender_cases:
  assumes "offender verdict (Suc n) t seen = Inr (e, seen')"
  obtains (seen) "type_key t \<in> set seen" "e = None" "seen' = seen"
    | (good) "verdict t = Inr Good" "e = None" "seen' = type_key t # seen" "type_key t \<notin> set seen"
    | (bad) "verdict t = Inr Bad" "e = Some t" "seen' = type_key t # seen" "type_key t \<notin> set seen"
    | (parts) ts where "verdict t = Inr (Parts ts)" "type_key t \<notin> set seen"
        "first_offender (offender verdict n) ts (type_key t # seen) = Inr (e, seen')"
proof (cases "type_key t \<in> set seen")
  case True
  show ?thesis by (rule that(1)) (use True assms in simp_all)
next
  case False
  with assms obtain v where v: "verdict t = Inr v" and r: "(case v of
      Good \<Rightarrow> Inr (None, type_key t # seen) | Bad \<Rightarrow> Inr (Some t, type_key t # seen)
    | Parts ts \<Rightarrow> first_offender (offender verdict n) ts (type_key t # seen)) = Inr (e, seen')"
    by (simp only: offender.simps if_False rbind_eq_Inr) blast
  show ?thesis
  proof (cases v)
    case Good
    show ?thesis by (rule that(2)) (use v r Good False in simp_all)
  next
    case Bad
    show ?thesis by (rule that(3)) (use v r Bad False in simp_all)
  next
    case (Parts ts)
    show ?thesis by (rule that(4)) (use v r Parts False in simp_all)
  qed
qed

lemma offender_grows: "offender verdict n t seen = Inr (e, seen') \<Longrightarrow> set seen \<subseteq> set seen'"
proof (induction n arbitrary: t seen e seen')
  case (Suc n)
  from Suc.prems show ?case
  proof (cases rule: offender_cases)
    case (parts ts)
    have "set (type_key t # seen) \<subseteq> set seen'"
      by (rule first_offender_grows [OF parts(3)]) (blast dest: Suc.IH)
    then show ?thesis by simp
  qed auto
qed simp

text \<open>Each call that goes down adds a key, so the fuel lasts.\<close>

lemma first_offender_fuel:
  assumes "\<forall>t \<in> set ts. \<forall>s. set seen \<subseteq> set s \<longrightarrow> f t s \<noteq> Inl OutOfFuel"
    and "\<forall>t \<in> set ts. \<forall>s e s'. f t s = Inr (e, s') \<longrightarrow> set s \<subseteq> set s'"
  shows "first_offender f ts seen \<noteq> Inl OutOfFuel"
  using assms
proof (induction ts arbitrary: seen)
  case (Cons t ts)
  show ?case
  proof (cases "f t seen")
    case (Inl e)
    with Cons.prems(1) show ?thesis by auto
  next
    case (Inr p)
    obtain e s where p: "p = (e, s)" by force
    have "set seen \<subseteq> set s" using Cons.prems(2) Inr p by simp
    then have "first_offender f ts s \<noteq> Inl OutOfFuel"
      using Cons.prems by (intro Cons.IH) (simp_all; blast)+
    with Inr p show ?thesis by (auto split: option.splits)
  qed
qed simp

lemma offender_fuel:
  "u \<in> set (universe t) \<Longrightarrow> card (type_key ` set (universe t) - set seen) < n \<Longrightarrow>
     offender verdict n u seen \<noteq> Inl OutOfFuel"
proof (induction n arbitrary: u seen)
  case (Suc n)
  let ?K = "type_key ` set (universe t)"
  have "first_offender (offender verdict n) ts (type_key u # seen) \<noteq> Inl OutOfFuel"
    if new: "type_key u \<notin> set seen" and v: "verdict u = Inr (Parts ts)" for ts
  proof (rule first_offender_fuel; intro ballI allI impI)
    fix w s assume w: "w \<in> set ts" and s: "set (type_key u # seen) \<subseteq> set s"
    have "card (?K - set s) < card (?K - set seen)"
      using new Suc.prems(1) s by (intro psubset_card_mono) auto
    with Suc.prems(2) have "card (?K - set s) < n" by simp
    then show "offender verdict n w s \<noteq> Inl OutOfFuel"
      by (intro Suc.IH universe_parts [OF Suc.prems(1) v w])
  qed (blast dest: offender_grows)
  with no_fuel [of u] show ?case by (auto simp: rbind_eq_Inl split: verdict.splits)
qed simp

lemma walk_fuel_enough:
  assumes "length (universe t) < n"
  shows "offender verdict n t [] \<noteq> Inl OutOfFuel"
proof -
  have "card (type_key ` set (universe t) - set []) < n"
    using card_length [of "map type_key (universe t)"] assms by simp
  then show ?thesis by (rule offender_fuel [OF universe_self])
qed

text \<open>What is found can be reached and offends.\<close>

lemma first_offender_Some:
  "first_offender f ts seen = Inr (Some e, seen') \<Longrightarrow> \<exists>t \<in> set ts. \<exists>s. f t s = Inr (Some e, seen')"
proof (induction ts arbitrary: seen)
  case (Cons t ts)
  from Cons.prems obtain err s where f: "f t seen = Inr (err, s)"
    and r: "(case err of Some e \<Rightarrow> Inr (Some e, s) | None \<Rightarrow> first_offender f ts s) = Inr (Some e, seen')"
    by auto
  show ?case
  proof (cases err)
    case None
    with r Cons.IH [of s] show ?thesis by auto
  next
    case (Some e')
    with r f show ?thesis by auto
  qed
qed simp

lemma offender_Some:
  "offender verdict n t seen = Inr (Some e, seen') \<Longrightarrow> reaches verdict r t \<Longrightarrow>
     reaches verdict r e \<and> verdict e = Inr Bad"
proof (induction n arbitrary: t seen seen')
  case (Suc n)
  from Suc.prems(1) show ?case
  proof (cases rule: offender_cases)
    case bad
    with Suc.prems(2) show ?thesis by simp
  next
    case (parts ts)
    from first_offender_Some [OF parts(3)] obtain u s where
      u: "u \<in> set ts" "offender verdict n u s = Inr (Some e, seen')" by blast
    show ?thesis
      using Suc.IH [OF u(2) reaches_step [OF Suc.prems(2) parts(1) u(1)]] .
  qed simp_all
qed simp

text \<open>When nothing is found, the keys seen are closed under the parts of their types.\<close>

definition fine :: "string list \<Rightarrow> tref \<Rightarrow> bool" where
  "fine seen u \<longleftrightarrow> verdict u = Inr Good \<or> (\<exists>ts. verdict u = Inr (Parts ts) \<and> type_key ` set ts \<subseteq> set seen)"

definition explored :: "tref \<Rightarrow> string list \<Rightarrow> string list \<Rightarrow> bool" where
  "explored r seen seen' \<longleftrightarrow>
     (\<forall>k \<in> set seen' - set seen. \<exists>u. reaches verdict r u \<and> type_key u = k \<and> fine seen' u)"

lemma fine_mono: "fine s u \<Longrightarrow> set s \<subseteq> set s' \<Longrightarrow> fine s' u"
  by (auto simp: fine_def)

lemma explored_trans:
  "explored r a b \<Longrightarrow> explored r b c \<Longrightarrow> set b \<subseteq> set c \<Longrightarrow> explored r a c"
  unfolding explored_def by (meson DiffD1 DiffD2 DiffI fine_mono)

lemma first_offender_None:
  assumes "first_offender f ts seen = Inr (None, seen')"
    and "\<forall>t \<in> set ts. \<forall>s s'. f t s = Inr (None, s') \<longrightarrow>
      set s \<subseteq> set s' \<and> type_key t \<in> set s' \<and> explored r s s'"
  shows "set seen \<subseteq> set seen' \<and> type_key ` set ts \<subseteq> set seen' \<and> explored r seen seen'"
  using assms
proof (induction ts arbitrary: seen)
  case Nil
  then show ?case by (simp add: explored_def)
next
  case (Cons t ts)
  from Cons.prems(1) obtain s where f: "f t seen = Inr (None, s)"
    and r: "first_offender f ts s = Inr (None, seen')"
    by (auto split: option.splits)
  have 1: "set seen \<subseteq> set s \<and> type_key t \<in> set s \<and> explored r seen s"
    using Cons.prems(2) f by simp
  have 2: "set s \<subseteq> set seen' \<and> type_key ` set ts \<subseteq> set seen' \<and> explored r s seen'"
    using Cons.IH [OF r] Cons.prems(2) by simp
  show ?case using 1 2 explored_trans [of r seen s seen'] by auto
qed

lemma offender_None:
  "offender verdict n t seen = Inr (None, seen') \<Longrightarrow> reaches verdict r t \<Longrightarrow>
     set seen \<subseteq> set seen' \<and> type_key t \<in> set seen' \<and> explored r seen seen'"
proof (induction n arbitrary: t seen seen')
  case (Suc n)
  from Suc.prems(1) show ?case
  proof (cases rule: offender_cases)
    case seen
    then show ?thesis by (simp add: explored_def)
  next
    case good
    with Suc.prems(2) show ?thesis by (auto simp: explored_def fine_def)
  next
    case (parts ts)
    have *: "set (type_key t # seen) \<subseteq> set seen' \<and> type_key ` set ts \<subseteq> set seen'
        \<and> explored r (type_key t # seen) seen'"
      by (rule first_offender_None [OF parts(3)])
        (use Suc.IH reaches_step [OF Suc.prems(2) parts(1)] in blast)
    then have "fine seen' t" using parts(1) by (auto simp: fine_def)
    with * Suc.prems(2) show ?thesis by (auto simp: explored_def)
  qed simp
qed simp

lemma reached_fine:
  assumes "offender verdict n t [] = Inr (None, seen)" and "inj_on type_key {u. reaches verdict t u}"
    and "reaches verdict t u"
  shows "fine seen u"
proof -
  note e = offender_None [OF assms(1) reaches_refl]
  have inseen: "fine seen v" if "type_key v \<in> set seen" "reaches verdict t v" for v
  proof -
    from e that(1) obtain w where "reaches verdict t w" "type_key w = type_key v" "fine seen w"
      by (auto simp: explored_def)
    with assms(2) that(2) show ?thesis by (auto dest: inj_onD)
  qed
  have "reaches verdict t u \<Longrightarrow> type_key u \<in> set seen" for u
  proof (induction rule: reaches.induct)
    case reaches_refl
    show ?case using e by simp
  next
    case (reaches_step u ts v)
    from inseen [OF reaches_step.IH reaches_step.hyps(1)] reaches_step.hyps(2,3)
    show ?case by (auto simp: fine_def)
  qed
  then show ?thesis using inseen assms(3) by blast
qed

end

subsection \<open>The three rules\<close>

lemma parts_of_named:
  assumes "named_verdict T t = Inr (Parts ts)" and "u \<in> set ts"
  shows "u \<in> set (field_types T)"
proof -
  from assms(1) obtain d where d: "map_of (structs T) (type_key t) = Some d" "ts = map snd d"
    by (auto simp: named_verdict_def lookup_struct_def split: sum.splits if_splits option.splits)
  from map_of_SomeD [OF d(1)] assms(2) d(2) show ?thesis by (force simp: field_types_def)
qed

lemma named_no_fuel: "named_verdict T t \<noteq> Inl OutOfFuel"
  by (auto simp: named_verdict_def lookup_struct_def rbind_eq_Inl split: sum.splits option.splits)

interpretation hash: type_walk "hash_verdict T" "field_types T" for T
  by unfold_locales (auto simp: hash_verdict_def named_no_fuel split: if_splits dest: parts_of_named)

interpretation comparable: type_walk "comparable_verdict T" "field_types T" for T
  by unfold_locales (auto simp: comparable_verdict_def named_no_fuel split: if_splits dest: parts_of_named)

interpretation zero: type_walk "zero_verdict T" "field_types T" for T
  by unfold_locales
    (auto simp: zero_verdict_def named_no_fuel split: if_splits tref.splits dest: parts_of_named)

text \<open>What a walk decides: there is no offender to reach, or the one it gives is one.\<close>

definition decides :: "(tref \<Rightarrow> verdict res) \<Rightarrow> tref \<Rightarrow> tref option res \<Rightarrow> bool" where
  "decides verdict t r \<longleftrightarrow>
     (case r of
        Inr None \<Rightarrow> \<forall>u. reaches verdict t u \<longrightarrow> (\<exists>v. verdict u = Inr v \<and> v \<noteq> Bad)
      | Inr (Some e) \<Rightarrow> reaches verdict t e \<and> verdict e = Inr Bad
      | Inl e \<Rightarrow> e \<noteq> OutOfFuel)"

lemma wf_spine: "wf_tref t \<Longrightarrow> u \<in> set (array_spine t) \<Longrightarrow> wf_tref u"
  by (induction t rule: array_spine.induct) auto

lemma wf_key_inj: "wf_tref a \<Longrightarrow> wf_tref b \<Longrightarrow> type_key a = type_key b \<Longrightarrow> a = b"
  by (metis type_key_def type_round_trip sum.inject(2))

context type_walk begin

lemma reached_in_universe: "reaches verdict t u \<Longrightarrow> u \<in> set (universe t)"
  by (induction rule: reaches.induct) (auto intro: universe_self universe_parts)

lemma walk_decides:
  assumes "wf_tref t" and "\<forall>u \<in> set F. wf_tref u" and "length (universe t) < n"
  shows "decides verdict t (rbind (offender verdict n t []) (\<lambda>(e, _). Inr e))"
proof (cases "offender verdict n t []")
  case (Inl e)
  with walk_fuel_enough [OF assms(3)] show ?thesis by (simp add: decides_def)
next
  case (Inr p)
  obtain e s where p: "p = (e, s)" by force
  show ?thesis
  proof (cases e)
    case None
    have "wf_tref u" if "reaches verdict t u" for u
      using reached_in_universe [OF that] assms(1,2) by (auto simp: universe_def intro: wf_spine)
    then have "inj_on type_key {u. reaches verdict t u}"
      by (auto intro!: inj_onI wf_key_inj)
    with Inr p None show ?thesis
      using reached_fine [of n t s] by (fastforce simp: decides_def fine_def)
  next
    case (Some b)
    with Inr p offender_Some [OF _ reaches_refl] show ?thesis by (auto simp: decides_def)
  qed
qed

end

text \<open>
  C18: the three rules decide what they are about. For a well-formed type over a table of
  well-formed field types, each of the walks of hash, zero-value and comparable ends; it gives no
  offender exactly when every type it can reach, through the fields of structs and the elements
  of arrays, obeys the rule, recursive types included, and what it gives is an offender.
\<close>

theorem type_rules_decide:
  assumes "wf_tref t" and "\<forall>u \<in> set (field_types T). wf_tref u"
  shows "decides (hash_verdict T) t (hash_comparable_error_type T t)
     \<and> decides (zero_verdict T) t (zero_value_error_type T t)
     \<and> decides (comparable_verdict T) t (comparable_error_type T t)"
  unfolding hash_comparable_error_type_def zero_value_error_type_def comparable_error_type_def
  by (intro conjI hash.walk_decides zero.walk_decides comparable.walk_decides assms)
    (simp_all only: walk_fuel_def hash.universe_def zero.universe_def comparable.universe_def lessI)

text \<open>A table with \<open>struct L { next ?*L; v i32; w P }\<close> and \<open>struct P { x f32 }\<close>.\<close>

definition struct_symbol :: symbol where
  "struct_symbol = \<lparr>sym_type = Some (NamedType ''struct''), sym_level = 0, sym_immutable = False\<rparr>"

definition shapes :: symtab where
  "shapes = empty_symtab\<lparr>scopes := [[(''L'', struct_symbol), (''P'', struct_symbol)]],
     structs := [(''L'', [(''next'', PointerType (NamedType ''L'') True), (''v'', NamedType ''i32''),
         (''w'', NamedType ''P'')]), (''P'', [(''x'', NamedType ''f32'')])]\<rparr>"

lemmas rules_eval = named_def named_in_def type_key_def NUMERIC_TYPES_def TR_FLOAT_TYPES_def
  is_iface_type_def named_verdict_def lookup_def lookup_struct_def sym_is_def struct_symbol_def
  has_key_def empty_symtab_def field_types_def walk_fuel_def

lemma type_rules_decide_witness:
  "hash_comparable_error_type shapes (NamedType ''L'') = Inr (Some (NamedType ''f32''))
   \<and> reaches (hash_verdict shapes) (NamedType ''L'') (NamedType ''f32'')
   \<and> decides (comparable_verdict shapes) (NamedType ''L'') (Inr None)"
proof -
  have wf: "wf_tref (NamedType ''L'')" "\<forall>u \<in> set (field_types shapes). wf_tref u"
    by (simp_all add: shapes_def field_types_def type_name_ok_def name_char_def ident_char_def py_char_defs)
  have h: "hash_comparable_error_type shapes (NamedType ''L'') = Inr (Some (NamedType ''f32''))"
    by (simp add: hash_comparable_error_type_def hash_verdict_def rules_eval shapes_def)
  have c: "comparable_error_type shapes (NamedType ''L'') = Inr None"
    by (simp add: comparable_error_type_def comparable_verdict_def rules_eval shapes_def)
  from type_rules_decide [OF wf] show ?thesis by (simp add: h c decides_def)
qed

text \<open>
  the rules are ordered: a type that can be a map key can be compared with \<open>==\<close>, so the
  equality the map needs is there.
\<close>

theorem hash_implies_comparable:
  assumes "hash_comparable_error_type T t = Inr None"
  shows "comparable_error_type T t = Inr None"
proof -
  have v: "comparable_verdict T t = (if hash_verdict T t = Inr Bad \<and> named_in t TR_FLOAT_TYPES then Inr Good
      else hash_verdict T t)" for t
    by (auto simp: comparable_verdict_def hash_verdict_def TR_FLOAT_TYPES_def NUMERIC_TYPES_def named_in_def)
  have "offender (hash_verdict T) n t s = Inr (None, s') \<Longrightarrow> offender (comparable_verdict T) n t s = Inr (None, s')"
    for n s s'
  proof (induction n arbitrary: t s s')
    case (Suc n)
    have fold: "first_offender (offender (hash_verdict T) n) ts s = Inr (None, s') \<Longrightarrow>
        first_offender (offender (comparable_verdict T) n) ts s = Inr (None, s')" for ts s
      using Suc.IH by (induction ts arbitrary: s) (auto split: option.splits)
    from Suc.prems show ?case
      by (cases rule: hash.offender_cases) (auto simp: v [of t] dest: fold)
  qed simp
  with assms show ?thesis
    by (auto simp: hash_comparable_error_type_def comparable_error_type_def)
qed

lemma hash_implies_comparable_witness: "comparable_error_type shapes (PointerType (NamedType ''L'') False) = Inr None"
  by (rule hash_implies_comparable)
    (simp add: hash_comparable_error_type_def hash_verdict_def rules_eval shapes_def)

subsection \<open>Methods of embedded structs\<close>

lemma concat_single: "length (concat xss) = 1 \<Longrightarrow> \<exists>xs \<in> set xss. length xs = 1"
  by (induction xss) (auto simp: add_is_1)

text \<open>
  \<open>_resolve_struct_method\<close> finds a method of the type itself only. A method of an embedded
  struct is matched twice, once directly and once by the recursive call, so there is never a
  single match, and no type satisfies \<open>types.Ord\<close> through an embedded field.
\<close>

theorem resolve_own_only:
  assumes "resolve_struct_method n T tname mname seen = Inr (Some m)"
  shows "\<exists>sig. m = ([], tname, sig) \<and> own_method T tname mname = Some sig"
  using assms
proof (induction n arbitrary: tname m)
  case (Suc n)
  let ?found = "\<lambda>(f, e). if embed_base e \<in> set seen then Inr [] else
      rbind (resolve_struct_method n T (embed_base e) mname seen) (\<lambda>nested. Inr (
        (case own_method T (embed_base e) mname of Some sig \<Rightarrow> [([f], embed_base e, sig)] | None \<Rightarrow> []) @
        (case nested of Some (path, b, sig) \<Rightarrow> [(f # path, b, sig)] | None \<Rightarrow> [])))"
  let ?es = "case map_of (struct_embeds T) tname of Some es \<Rightarrow> es | None \<Rightarrow> []"
  show ?case
  proof (cases "own_method T tname mname")
    case None
    with Suc.prems obtain mss where r: "rmap ?found ?es = Inr mss"
      and m: "(case concat mss of [m] \<Rightarrow> Some m | _ \<Rightarrow> None) = Some m"
      by auto
    have len: "length ms \<noteq> 1" if "?found fe = Inr ms" for fe ms
    proof (cases "own_method T (embed_base (snd fe)) mname")
      case None
      have "nested = None" if "resolve_struct_method n T (embed_base (snd fe)) mname seen = Inr nested" for nested
        using Suc.IH [of "embed_base (snd fe)"] that None by (cases nested) auto
      with that None show ?thesis by (auto split: prod.splits if_splits)
    next
      case (Some sig)
      then have "resolve_struct_method (Suc k) T (embed_base (snd fe)) mname seen =
          Inr (Some ([], embed_base (snd fe), sig))" for k
        by simp
      with that Some show ?thesis
        by (cases n) (auto split: prod.splits if_splits)
    qed
    have "length ms \<noteq> 1" if "ms \<in> set mss" for ms
    proof -
      from rmap_Inr_mem [OF r that] obtain fe where "?found fe = Inr ms" by blast
      then show ?thesis by (rule len)
    qed
    then have "length (concat mss) \<noteq> 1" using concat_single by blast
    with m show ?thesis by (auto split: list.splits)
  next
    case (Some sig)
    with Suc.prems show ?thesis by (intro exI [of _ sig]) auto
  qed
qed simp

text \<open>\<open>struct Inner\<close> with \<open>fun (a Inner) __lt__(b Inner) bool\<close>, embedded in \<open>Outer\<close>.\<close>

definition ordered :: symtab where
  "ordered = empty_symtab\<lparr>scopes := [[(''Inner'', struct_symbol), (''Outer'', struct_symbol)]],
     structs := [(''Inner'', []), (''Outer'', [(''Inner'', NamedType ''Inner'')])],
     struct_embeds := [(''Inner'', []), (''Outer'', [(''Inner'', NamedType ''Inner'')])],
     methods := [(''Inner'', [(''__lt__'',
       (Some (NamedType ''bool''), [Param ''b'' (Some (NamedType ''Inner'')) None]))])]\<rparr>"

lemmas resolve_eval = own_method_def same_type_def type_key_def

lemma resolve_own_only_witness:
  "\<exists>sig. own_method ordered ''Inner'' ''__lt__'' = Some sig
     \<and> resolve_struct_method 1 ordered ''Inner'' ''__lt__'' [] = Inr (Some ([], ''Inner'', sig))"
proof -
  have r: "resolve_struct_method 1 ordered ''Inner'' ''__lt__'' [] = Inr (Some ([], ''Inner'',
      (Some (NamedType ''bool''), [Param ''b'' (Some (NamedType ''Inner'')) None])))"
    by (simp add: ordered_def resolve_eval empty_symtab_def)
  from resolve_own_only [OF r] r show ?thesis by auto
qed

text \<open>
  C19: the recursion of \<open>_resolve_struct_method\<close> does not end on types that embed each other but not
  the type it started from: \<open>A\<close> embeds \<open>*B\<close>, \<open>B\<close> embeds \<open>*A\<close> and \<open>C\<close> embeds \<open>A\<close>, and no bound
  on the depth is enough to tell whether \<open>C\<close> is ordered.
\<close>

definition knotted :: symtab where
  "knotted = empty_symtab\<lparr>scopes := [[(''A'', struct_symbol), (''B'', struct_symbol), (''C'', struct_symbol)]],
     struct_embeds := [(''A'', [(''B'', PointerType (NamedType ''B'') False)]),
       (''B'', [(''A'', PointerType (NamedType ''A'') False)]), (''C'', [(''A'', NamedType ''A'')])]\<rparr>"

theorem resolve_diverges: "ord_error_type n knotted (NamedType ''C'') = Inl OutOfFuel"
proof -
  have ab: "resolve_struct_method n knotted ''A'' ''__lt__'' [''C''] = Inl OutOfFuel
      \<and> resolve_struct_method n knotted ''B'' ''__lt__'' [''C''] = Inl OutOfFuel" for n
    by (induction n) (simp_all add: knotted_def own_method_def empty_symtab_def)
  have "resolve_struct_method n knotted ''C'' ''__lt__'' [''C''] = Inl OutOfFuel"
    using ab by (cases n) (simp_all add: knotted_def own_method_def empty_symtab_def)
  then show ?thesis
    by (simp add: ord_error_type_def rules_eval knotted_def)
qed

subsection \<open>Sized types\<close>

text \<open>
  a map type is checked only where it is the whole type: \<open>size_of[map[f32,i32]]\<close> is an error,
  because a float cannot be a key, but the same map as the element of a slice, whatever the table,
  is accepted.
\<close>

theorem nested_map_unchecked:
  "pub = (\<lambda>_. Inr ()) \<Longrightarrow>
     validate_sized_type T pub (GenericType (NamedType ''map'') [NamedType ''f32'', NamedType ''i32'']) False
       = Inl (TypeCheckError ''map key type: expected hash-comparable, got f32'')
     \<and> validate_sized_type T pub (SliceType (GenericType (NamedType ''map'') [NamedType ''f32'', NamedType ''i32''])) False
       = Inr ()"
  by (simp add: validate_sized_type.simps sized_walk.simps validate_map_type.simps rules_eval sized_name_def
      RAW_TYPE_def require_hash_comparable_def hash_comparable_error_type_def hash_verdict_def fail_if_def fail_def)

lemma nested_map_unchecked_witness:
  "validate_sized_type empty_symtab (\<lambda>_. Inr ())
     (SliceType (GenericType (NamedType ''map'') [NamedType ''f32'', NamedType ''i32''])) False = Inr ()"
  using nested_map_unchecked [of "\<lambda>_. Inr ()" empty_symtab] by blast

end
