(* ===== verification/Names.thy ===== *)
theory Names
  imports Lexer
begin

text \<open>
  \<open>compiler/names.py\<close> (identifiers of the emitted code), \<open>compiler/target.py\<close> (targets and link
  arguments) and \<open>compiler/source_location.py\<close> (line and column of a node), with what makes them
  correct.
\<close>

subsection \<open>Replacing text\<close>

text \<open>\<open>s.replace(old, new)\<close> for a needle that is not empty: left to right, without overlap.\<close>

function py_replace :: "string \<Rightarrow> string \<Rightarrow> string \<Rightarrow> string" where
  "py_replace old new [] = []"
| "py_replace old new (c # s) =
     (if old \<noteq> [] \<and> starts_with old (c # s) then new @ py_replace old new (drop (length old) (c # s))
      else c # py_replace old new s)"
  by pat_completeness auto
termination
  by (relation "measure (\<lambda>(old, new, s). length s)") (auto simp: neq_Nil_conv)

definition safe_ident :: "string \<Rightarrow> string" where
  "safe_ident name =
     (let s = py_replace ''*'' ''ptr_'' name; s = py_replace ''[]'' ''slice_'' s;
          s = py_replace ''.'' ''_'' s; s = py_replace ''?'' ''nullable_'' s;
          s = py_replace ''['' ''arr_'' s; s = py_replace '']'' ''_'' s;
          s = py_replace ''('' ''_'' s; s = py_replace '')'' ''_'' s; s = py_replace '','' ''_'' s
      in py_replace ''->'' ''_to_'' s)"

definition safe_user_ident :: "string \<Rightarrow> string" where
  "safe_user_ident name =
     (let ident = safe_ident name in if starts_with ''__nc_'' ident then ''nc_'' @ ident else ident)"

subsection \<open>ABI names\<close>

definition ABI_VERSION :: string where
  "ABI_VERSION = ''nc-abi-v1''"

definition label_char :: "char \<Rightarrow> bool" where
  "label_char c \<longleftrightarrow> 65 \<le> code c \<and> code c \<le> 90 \<or> 97 \<le> code c \<and> code c \<le> 122 \<or> ascii_digit c \<or> c = CHR ''_''"

text \<open>\<open>re.sub(r"[^A-Za-z0-9_]+", "_", value)\<close>: a run of other characters becomes one underscore.\<close>

fun sub_label :: "bool \<Rightarrow> string \<Rightarrow> string" where
  "sub_label in_run [] = []"
| "sub_label in_run (c # s) =
     (if label_char c then c # sub_label False s
      else if in_run then sub_label True s
      else CHR ''_'' # sub_label True s)"

definition strip_underscores :: "string \<Rightarrow> string" where
  "strip_underscores s = rev (dropWhile (\<lambda>c. c = CHR ''_'') (rev (dropWhile (\<lambda>c. c = CHR ''_'') s)))"

definition abi_label :: "nat \<Rightarrow> string \<Rightarrow> string" where
  "abi_label limit value =
     (let ident = strip_underscores (sub_label False value);
          ident = (if ident = [] then ''anon'' else ident);
          ident = (if py_isdigit (hd ident) then CHR ''_'' # ident else ident)
      in take limit ident)"

text \<open>
  \<open>sha256\<close> gives the hexadecimal digest of a text in UTF-8 (\<open>hashlib.sha256(...).hexdigest()\<close>). The
  limits are the defaults of the code.
\<close>

definition abi_hash :: "(string \<Rightarrow> string) \<Rightarrow> nat \<Rightarrow> string \<Rightarrow> string" where
  "abi_hash sha256 len signature = take len (sha256 (ABI_VERSION @ [char_of (0 :: nat)] @ signature))"

definition abi_symbol :: "(string \<Rightarrow> string) \<Rightarrow> string \<Rightarrow> string \<Rightarrow> string \<Rightarrow> string \<Rightarrow> string" where
  "abi_symbol sha256 kind module_name name signature =
     (let readable = ''__nc_'' @ kind @ ''_'' @ abi_label 48 module_name @ ''_'' @ abi_label 48 name
      in readable @ ''_'' @ abi_hash sha256 10 signature)"

definition module_object_label :: "string \<Rightarrow> string" where
  "module_object_label module_name = abi_label 64 module_name"

subsection \<open>Targets\<close>

record target_spec =
  target_name :: string
  triple :: string
  object_ext :: string
  exe_ext :: string

definition py_lower :: "string \<Rightarrow> string" where
  "py_lower s = List.map (\<lambda>c. if 65 \<le> code c \<and> code c \<le> 90 \<or> 192 \<le> code c \<and> code c \<le> 222 \<and> code c \<noteq> 215
     then char_of (code c + 32) else c) s"

definition resolve_link_lib :: "string \<Rightarrow> string" where
  "resolve_link_lib lib =
     (if lib = [] then lib
      else if starts_with ''-'' lib then lib
      else
        (let lower = py_lower lib in
         if CHR ''/'' \<in> set lib \<or> CHR 0x5C \<in> set lib \<or> ends_with ''.a'' lower \<or> ends_with ''.lib'' lower
            \<or> ends_with ''.o'' lower \<or> ends_with ''.obj'' lower
         then lib
         else ''-l'' @ lib))"

definition WINDOWS_X64 :: target_spec where
  "WINDOWS_X64 = \<lparr>target_name = ''windows-x64'', triple = ''x86_64-w64-windows-gnu'',
     object_ext = ''.obj'', exe_ext = ''.exe''\<rparr>"

definition LINUX_X64 :: target_spec where
  "LINUX_X64 = \<lparr>target_name = ''linux-x64'', triple = ''x86_64-pc-linux-gnu'', object_ext = ''.o'', exe_ext = []\<rparr>"

definition TARGETS :: "(string \<times> target_spec) list" where
  "TARGETS = List.map (\<lambda>t. (target_name t, t)) [WINDOWS_X64, LINUX_X64]"

text \<open>\<open>system\<close> is \<open>platform.system()\<close>, \<open>env\<close> the variable \<open>NC_TARGET\<close>.\<close>

definition host_target_name :: "string \<Rightarrow> string" where
  "host_target_name system = (if starts_with ''win'' (py_lower system) then ''windows-x64'' else ''linux-x64'')"

definition get_target :: "string \<Rightarrow> string option \<Rightarrow> string option \<Rightarrow> target_spec res" where
  "get_target system env name =
     (let truthy = (\<lambda>v. case v of Some (c # s) \<Rightarrow> True | _ \<Rightarrow> False);
          selected = (if truthy name then the name else if truthy env then the env else host_target_name system)
      in case map_of TARGETS selected of
           Some t \<Rightarrow> Inr t
         | None \<Rightarrow> Inl (RuntimeError (''unsupported target '' @ selected @ '', expected one of: ''
             @ join '', '' (sort (List.map fst TARGETS)))))"

subsection \<open>Line and column\<close>

text \<open>\<open>source.count("\\n", 0, pos)\<close> and \<open>source.rfind("\\n", 0, pos)\<close>.\<close>

definition newline :: char where
  "newline = char_of (10 :: nat)"

fun rfind_char :: "char \<Rightarrow> string \<Rightarrow> nat option" where
  "rfind_char c [] = None"
| "rfind_char c (d # s) =
     (case rfind_char c s of Some i \<Rightarrow> Some (Suc i) | None \<Rightarrow> if d = c then Some 0 else None)"

definition line_col_at :: "string \<Rightarrow> nat \<Rightarrow> nat \<times> nat" where
  "line_col_at source pos =
     (let line = count_list (take pos source) newline + 1;
          col = (case rfind_char newline (take pos source) of None \<Rightarrow> pos + 1 | Some last_nl \<Rightarrow> pos - last_nl)
      in (line, col))"

definition line_col_for_node :: "string \<Rightarrow> (nat \<times> nat) option \<Rightarrow> nat \<times> nat" where
  "line_col_for_node source span = (case span of None \<Rightarrow> (0, 0) | Some (pos, _) \<Rightarrow> line_col_at source pos)"

end
