(* ===== verification/NamesProps.thy ===== *)
theory NamesProps
  imports Names
begin

text \<open>
  What the names of the emitted code, the target selection and the source locations promise.
\<close>

subsection \<open>Labels and symbols\<close>

lemma label_char_facts [simp]: "label_char CHR ''_''" "label_char CHR ''a''" "label_char CHR ''n''"
    "label_char CHR ''o''" "label_char CHR ''c''"
  by (simp_all add: label_char_def)

lemma sub_label_chars: "\<forall>c \<in> set (sub_label b s). label_char c"
  by (induction s arbitrary: b) simp_all

lemma strip_underscores_subset: "set (strip_underscores s) \<subseteq> set s"
  by (auto simp: strip_underscores_def dest!: set_dropWhileD)

lemma strip_underscores_hd: "strip_underscores s \<noteq> [] \<Longrightarrow> hd (strip_underscores s) \<noteq> CHR ''_''"
proof -
  let ?u = "\<lambda>c. c = CHR ''_''"
  let ?t = "dropWhile ?u s"
  assume ne: "strip_underscores s \<noteq> []"
  have "?t = strip_underscores s @ rev (takeWhile ?u (rev ?t))"
    using arg_cong [OF takeWhile_dropWhile_id [of ?u "rev ?t"], of rev]
    unfolding strip_underscores_def rev_append rev_rev_ident by (rule sym)
  with ne have "hd (strip_underscores s) = hd ?t" "?t \<noteq> []"
    by (metis hd_append2, metis append_is_Nil_conv)
  then show ?thesis using hd_dropWhile [of ?u s] by simp
qed

lemma label_digit: "label_char c \<Longrightarrow> py_isdigit c = ascii_digit c"
  by (auto simp: label_char_def py_isdigit_def ascii_digit_def)

text \<open>
  C20: a label is an identifier: it has between one character and the limit, all of them letters,
  digits and underscores of ASCII, and does not start with a digit.
\<close>

theorem abi_label_identifier:
  assumes "0 < limit"
  shows "abi_label limit v \<noteq> [] \<and> length (abi_label limit v) \<le> limit
    \<and> (\<forall>c \<in> set (abi_label limit v). label_char c) \<and> \<not> ascii_digit (hd (abi_label limit v))"
proof -
  let ?i = "strip_underscores (sub_label False v)"
  let ?j = "if ?i = [] then ''anon'' else ?i"
  let ?k = "if py_isdigit (hd ?j) then CHR ''_'' # ?j else ?j"
  have j: "?j \<noteq> []" "\<forall>c \<in> set ?j. label_char c"
    using strip_underscores_subset [of "sub_label False v"] sub_label_chars [of False v] by auto
  have k: "?k \<noteq> []" "\<forall>c \<in> set ?k. label_char c" "\<not> ascii_digit (hd ?k)"
    using j label_digit [of "hd ?j"] by (auto simp: ascii_digit_def)
  have "abi_label limit v = take limit ?k" by (simp add: abi_label_def Let_def)
  moreover have "hd (take limit ?k) = hd ?k" using assms by (rule hd_take)
  moreover have "take limit ?k \<noteq> []" using k(1) assms by (simp only: take_eq_Nil) simp
  moreover have "\<forall>c \<in> set (take limit ?k). label_char c" using k(2) by (blast dest: in_set_takeD)
  ultimately show ?thesis using k(3) by (simp only: length_take min.cobounded2) simp
qed

lemma abi_label_identifier_witness: "abi_label 48 ''9*a..b_'' = ''_9_a_b'' \<and> abi_label 48 ''9*a..b_'' \<noteq> []"
proof -
  have "abi_label 48 ''9*a..b_'' = ''_9_a_b''" by code_simp
  with abi_label_identifier [of 48 "''9*a..b_''"] show ?thesis by simp
qed

text \<open>
  symbols of different signatures are different as far as the hash tells them apart: equal
  symbols have equal hashes, whatever their kinds, modules and names are.
\<close>

theorem abi_symbol_hash:
  assumes "\<And>s. 10 \<le> length (sha256 s)"
    and "abi_symbol sha256 k m n s = abi_symbol sha256 k' m' n' s'"
  shows "abi_hash sha256 10 s = abi_hash sha256 10 s'"
proof -
  have len: "length (abi_hash sha256 10 s) = length (abi_hash sha256 10 s')"
    using assms(1) by (simp add: abi_hash_def min_absorb2)
  let ?r = "\<lambda>k m n. ''__nc_'' @ k @ ''_'' @ abi_label 48 m @ ''_'' @ abi_label 48 n @ ''_''"
  have "?r k m n @ abi_hash sha256 10 s = ?r k' m' n' @ abi_hash sha256 10 s'"
    using assms(2) by (simp add: abi_symbol_def Let_def)
  with len show ?thesis by (metis append_eq_append_conv)
qed

lemma abi_symbol_hash_witness:
  "abi_hash (\<lambda>s. replicate 64 CHR ''a'') 10 ''f'' = abi_hash (\<lambda>s. replicate 64 CHR ''a'') 10 ''g''"
  by (rule abi_symbol_hash [of _ "''fn''" "''m''" "''f''" _ "''fn''" "''m''" "''f''"])
    (simp_all add: abi_symbol_def abi_hash_def)

text \<open>
  a type of the program never gets a name of the runtime (\<open>__nc_...\<close>), but two types can get
  the same name: the struct \<open>b_c\<close> of module \<open>a\<close> and the struct \<open>c\<close> of module \<open>a_b\<close>.
\<close>

theorem safe_user_ident_names:
  "\<not> starts_with ''__nc_'' (safe_user_ident n)
   \<and> safe_user_ident ''a.b_c'' = safe_user_ident ''a_b.c''"
proof
  show "\<not> starts_with ''__nc_'' (safe_user_ident n)"
    by (simp add: safe_user_ident_def Let_def)
  show "safe_user_ident ''a.b_c'' = safe_user_ident ''a_b.c''" by code_simp
qed

subsection \<open>Targets\<close>

lemma starts_with_dash: "starts_with ''-'' (CHR ''-'' # s)"
  by simp

text \<open>
  a target is one of the two the compiler knows, under its own name, and any other name is an
  error; a link argument is left alone by a second resolution.
\<close>

theorem target_selection:
  "(\<forall>t. get_target sys env name = Inr t \<longrightarrow> t \<in> {WINDOWS_X64, LINUX_X64})
   \<and> ((\<exists>e. get_target sys env (Some n) = Inl e) \<longleftrightarrow>
        (if n = [] then \<exists>e. get_target sys env None = Inl e else n \<notin> {''windows-x64'', ''linux-x64''}))
   \<and> resolve_link_lib (resolve_link_lib lib) = resolve_link_lib lib"
proof (intro conjI)
  show "\<forall>t. get_target sys env name = Inr t \<longrightarrow> t \<in> {WINDOWS_X64, LINUX_X64}"
    by (auto simp: get_target_def Let_def TARGETS_def split: option.splits if_splits)
  show "(\<exists>e. get_target sys env (Some n) = Inl e) \<longleftrightarrow>
      (if n = [] then \<exists>e. get_target sys env None = Inl e else n \<notin> {''windows-x64'', ''linux-x64''})"
    by (cases n) (auto simp: get_target_def Let_def TARGETS_def WINDOWS_X64_def LINUX_X64_def split: option.splits)
  show "resolve_link_lib (resolve_link_lib lib) = resolve_link_lib lib"
    by (simp add: resolve_link_lib_def Let_def)
qed

lemma target_selection_witness: "get_target ''Linux'' None None = Inr LINUX_X64 \<and> LINUX_X64 \<in> {WINDOWS_X64, LINUX_X64}"
proof -
  have "get_target ''Linux'' None None = Inr LINUX_X64" by code_simp
  then show ?thesis using target_selection [of "''Linux''" None None] by blast
qed

subsection \<open>Locations\<close>

text \<open>The position a line starts at, counting lines from 0.\<close>

fun line_start :: "nat \<Rightarrow> string \<Rightarrow> nat" where
  "line_start 0 s = 0"
| "line_start (Suc k) [] = 0"
| "line_start (Suc k) (c # s) = Suc (if c = newline then line_start k s else line_start (Suc k) s)"

lemma rfind_char_bound: "rfind_char c s = Some i \<Longrightarrow> i < length s"
  by (induction s arbitrary: i) (auto split: option.splits if_splits)

lemma rfind_char_None: "rfind_char c s = None \<longleftrightarrow> c \<notin> set s"
  by (induction s) (auto split: option.splits)

lemma line_start_count:
  "pos \<le> length s \<Longrightarrow> line_start (count_list (take pos s) newline) s =
     (case rfind_char newline (take pos s) of None \<Rightarrow> 0 | Some i \<Rightarrow> Suc i)"
proof (induction s arbitrary: pos)
  case (Cons c s)
  show ?case
  proof (cases pos)
    case (Suc p)
    have IH: "line_start (count_list (take p s) newline) s =
        (case rfind_char newline (take p s) of None \<Rightarrow> 0 | Some i \<Rightarrow> Suc i)"
      using Cons Suc by simp
    show ?thesis
    proof (cases "rfind_char newline (take p s)")
      case None
      then have "count_list (take p s) newline = 0" by (simp add: rfind_char_None count_list_0_iff)
      with None Suc show ?thesis by simp
    next
      case (Some i)
      then have "count_list (take p s) newline \<noteq> 0"
        by (metis count_list_0_iff option.distinct(1) rfind_char_None)
      then obtain k where "count_list (take p s) newline = Suc k" by (cases "count_list (take p s) newline") auto
      with Some Suc IH show ?thesis by auto
    qed
  qed simp
qed simp

text \<open>
  line and column locate a position: both count from 1, and the start of the line and the
  column give the position back.
\<close>

theorem line_col_locates:
  assumes "pos \<le> length source" and "line_col_for_node source (Some (pos, e)) = (line, col)"
  shows "1 \<le> line \<and> 1 \<le> col \<and> line_start (line - 1) source + (col - 1) = pos"
proof -
  have *: "line = count_list (take pos source) newline + 1"
    "col = (case rfind_char newline (take pos source) of None \<Rightarrow> pos + 1 | Some i \<Rightarrow> pos - i)"
    using assms(2) by (auto simp: line_col_for_node_def line_col_at_def Let_def)
  have "i < pos" if "rfind_char newline (take pos source) = Some i" for i
    using rfind_char_bound [OF that] by simp
  with * line_start_count [OF assms(1)] show ?thesis
    by (cases "rfind_char newline (take pos source)") auto
qed

lemma line_col_locates_witness: "line_start (2 - 1) [CHR ''a'', newline, CHR ''b''] + (1 - 1) = 2"
proof -
  have "line_col_for_node [CHR ''a'', newline, CHR ''b''] (Some (2, 3)) = (2, 1)" by code_simp
  then show ?thesis by (rule line_col_locates [THEN conjunct2, THEN conjunct2, rotated]) simp
qed

end
