(* ===== verification/Layout.thy ===== *)
theory Layout
  imports TypeRefProps Names Builtins
begin

text \<open>
  \<open>compiler/llvm_layout.py\<close>: the LLVM type of a type of the language, its size and alignment, and, of
  \<open>llvm_codegen.py\<close>, the registration of enums and structs with the check that no struct contains
  itself. LLVM types are the part of \<open>llvmlite.ir\<close> the code builds.
\<close>

subsection \<open>LLVM types\<close>

datatype irt =
    IntType nat
  | FloatT
  | DoubleT
  | VoidT
  | Pointer irt
  | LiteralStruct "irt list"
  | Fn irt "irt list"
  | Identified string

definition I8PTR :: irt where
  "I8PTR = Pointer (IntType 8)"

definition INT_TYPES :: "(string \<times> irt) list" where
  "INT_TYPES = [(''i8'', IntType 8), (''i16'', IntType 16), (''i32'', IntType 32), (''i64'', IntType 64),
     (''u8'', IntType 8), (''u16'', IntType 16), (''u32'', IntType 32), (''u64'', IntType 64),
     (''bool'', IntType 1), (''rune'', IntType 32)]"

definition LLVM_FLOAT_TYPES :: "(string \<times> irt) list" where
  "LLVM_FLOAT_TYPES = [(''f32'', FloatT), (''f64'', DoubleT)]"

definition STR_TYPE :: irt where
  "STR_TYPE = LiteralStruct [I8PTR, IntType 64]"

definition MAP_DESC_TYPE :: irt where
  "MAP_DESC_TYPE = LiteralStruct (replicate 6 (IntType 64) @
     [Pointer (Fn (IntType 64) [I8PTR]), Pointer (Fn (IntType 32) [I8PTR, I8PTR])])"

definition MAP_TYPE :: irt where
  "MAP_TYPE = LiteralStruct [Pointer MAP_DESC_TYPE, I8PTR, IntType 64, IntType 64, IntType 64]"

definition RAW_SLICE_TYPE :: irt where
  "RAW_SLICE_TYPE = LiteralStruct [I8PTR, IntType 64, IntType 64]"

definition ERROR_TYPE :: irt where
  "ERROR_TYPE = LiteralStruct [STR_TYPE, RAW_SLICE_TYPE]"

text \<open>
  The module's dictionaries: fields of the structs, the identified types registered for them,
  variants of the enums, and the names of the interfaces.
\<close>

record layout_env =
  STRUCT_FIELDS :: "(string \<times> (string \<times> tref) list) list"
  STRUCT_TYPES :: "(string \<times> string) list"
  ENUM_VARIANTS :: "(string \<times> (string \<times> nat) list) list"
  IFACE_METHODS :: "string list"

definition backend_error :: "string \<Rightarrow> tref \<Rightarrow> 'a res" where
  "backend_error what t = Inl (NotImplementedError (''LLVM backend '' @ what @ format_type_ref t))"

text \<open>The tests on the key of the type that come before the shape of the type is looked at.\<close>

definition llvm_named :: "layout_env \<Rightarrow> tref \<Rightarrow> irt option" where
  "llvm_named E t =
     (if named t ''void'' then Some VoidT
      else
        (case map_of INT_TYPES (type_key t) of
           Some ty \<Rightarrow> Some ty
         | None \<Rightarrow>
             (case map_of LLVM_FLOAT_TYPES (type_key t) of
                Some ty \<Rightarrow> Some ty
              | None \<Rightarrow>
                  if named t ''str'' then Some STR_TYPE
                  else if named t ''error'' then Some ERROR_TYPE
                  else if named t ''nc_map'' \<or> as_map_type t \<noteq> None then Some MAP_TYPE
                  else if named_in t (IFACE_METHODS E) then Some (LiteralStruct [I8PTR, I8PTR])
                  else if named_in t [''*void'', ''?*void''] then Some I8PTR
                  else if named t ''raw'' then Some I8PTR
                  else None)))"

definition llvm_declared :: "layout_env \<Rightarrow> tref \<Rightarrow> irt option" where
  "llvm_declared E t =
     (if has_key (ENUM_VARIANTS E) (type_key t) then Some (IntType 32)
      else map_option Identified (map_of (STRUCT_TYPES E) (type_key t)))"

definition or_else :: "'a option \<Rightarrow> 'a res \<Rightarrow> 'a res" where
  "or_else v k = (case v of Some x \<Rightarrow> Inr x | None \<Rightarrow> k)"

lemma or_else_cong [fundef_cong]: "v = v' \<Longrightarrow> (v' = None \<Longrightarrow> k = k') \<Longrightarrow> or_else v k = or_else v' k'"
  by (cases v') (simp_all add: or_else_def)

fun llvm_type :: "layout_env \<Rightarrow> tref \<Rightarrow> irt res" where
  "llvm_type E (FunctionType ps r fallible) =
     or_else (llvm_named E (FunctionType ps r fallible))
       (rbind (llvm_type E r) (\<lambda>ret. rbind (rmap (llvm_type E) ps) (\<lambda>args.
         Inr (LiteralStruct [Pointer (Fn ret (I8PTR # args)), I8PTR]))))"
| "llvm_type E (PointerType r nullable) =
     or_else (llvm_named E (PointerType r nullable)) (rbind (llvm_type E r) (\<lambda>ty. Inr (Pointer ty)))"
| "llvm_type E (SliceType r) =
     or_else (llvm_named E (SliceType r)) (or_else (llvm_declared E (SliceType r))
       (rbind (llvm_type E r) (\<lambda>ty. Inr (LiteralStruct [Pointer ty, IntType 64, IntType 64]))))"
| "llvm_type E (ArrayTypeRef n r) =
     or_else (llvm_named E (ArrayTypeRef n r)) (or_else (llvm_declared E (ArrayTypeRef n r))
       (rbind (llvm_type E r) (\<lambda>ty. Inr (Pointer ty))))"
| "llvm_type E t =
     or_else (llvm_named E t) (or_else (llvm_declared E t) (backend_error ''does not support type: '' t))"

subsection \<open>Size and alignment\<close>

definition align_to :: "nat \<Rightarrow> nat \<Rightarrow> nat" where
  "align_to value alignment = (value + alignment - 1) div alignment * alignment"

definition place_field ::
  "(tref \<Rightarrow> nat res) \<Rightarrow> (tref \<Rightarrow> nat res) \<Rightarrow> tref \<Rightarrow> nat \<times> nat \<Rightarrow> (nat \<times> nat) res" where
  "place_field align_of size_of t = (\<lambda>(offset, max_align).
     rbind (align_of t) (\<lambda>align. rbind (size_of t) (\<lambda>size. Inr (align_to offset align + size, max max_align align))))"

definition sizeof_fields_by :: "(tref \<Rightarrow> nat res) \<Rightarrow> (tref \<Rightarrow> nat res) \<Rightarrow> tref list \<Rightarrow> nat res" where
  "sizeof_fields_by align_of size_of ts =
     rbind (rfold (place_field align_of size_of) ts (0, 1)) (\<lambda>(offset, max_align). Inr (align_to offset max_align))"

definition max_default :: "nat \<Rightarrow> nat list \<Rightarrow> nat" where
  "max_default d ns = (case ns of [] \<Rightarrow> d | n # ns \<Rightarrow> foldl max n ns)"

text \<open>
  The recursion goes through the fields of structs; \<open>n\<close> bounds how deep structs are nested in
  each other.
\<close>

fun alignof_type :: "nat \<Rightarrow> layout_env \<Rightarrow> tref \<Rightarrow> nat res" where
  "alignof_type 0 E t = Inl OutOfFuel"
| "alignof_type (Suc n) E t =
     (if named t ''void'' then Inl (NotImplementedError ''LLVM backend cannot alignof void'')
      else if named_in t [''i8'', ''u8'', ''bool''] then Inr 1
      else if named_in t [''i16'', ''u16''] then Inr 2
      else if named_in t [''i32'', ''u32'', ''f32'', ''rune''] \<or> has_key (ENUM_VARIANTS E) (type_key t) then Inr 4
      else if named_in t [''i64'', ''u64'', ''f64'', ''str'', ''error'', ''nc_map''] \<or> as_map_type t \<noteq> None then Inr 8
      else if as_pointer_type t \<noteq> None then Inr 8
      else if as_function_type t \<noteq> None \<or> named_in t (IFACE_METHODS E) then Inr 8
      else if as_slice_type t \<noteq> None then Inr 8
      else if as_array_type t \<noteq> None then Inr 8
      else
        (case map_of (STRUCT_FIELDS E) (type_key t) of
           Some fs \<Rightarrow> rbind (rmap (alignof_type n E) (map snd fs)) (\<lambda>aligns. Inr (max_default 1 aligns))
         | None \<Rightarrow> backend_error ''cannot alignof '' t))"

fun sizeof_type :: "nat \<Rightarrow> layout_env \<Rightarrow> tref \<Rightarrow> nat res" where
  "sizeof_type 0 E t = Inl OutOfFuel"
| "sizeof_type (Suc n) E t =
     (if named t ''void'' then Inl (NotImplementedError ''LLVM backend cannot sizeof void'')
      else if named_in t [''i8'', ''u8'', ''bool''] then Inr 1
      else if named_in t [''i16'', ''u16''] then Inr 2
      else if named_in t [''i32'', ''u32'', ''f32'', ''rune''] \<or> has_key (ENUM_VARIANTS E) (type_key t) then Inr 4
      else if named_in t [''i64'', ''u64'', ''f64''] then Inr 8
      else if named t ''str'' then Inr 16
      else if named t ''error'' then Inr 40
      else if named t ''nc_map'' \<or> as_map_type t \<noteq> None then Inr 40
      else if named t ''raw'' then Inr 8
      else if as_pointer_type t \<noteq> None then Inr 8
      else if as_function_type t \<noteq> None then Inr 16
      else if named_in t (IFACE_METHODS E) then Inr 16
      else if as_slice_type t \<noteq> None then Inr 24
      else if as_array_type t \<noteq> None then Inr 8
      else
        (case map_of (STRUCT_FIELDS E) (type_key t) of
           Some fs \<Rightarrow> sizeof_fields_by (alignof_type n E) (sizeof_type n E) (map snd fs)
         | None \<Rightarrow> backend_error ''cannot sizeof '' t))"

definition sizeof_fields :: "nat \<Rightarrow> layout_env \<Rightarrow> tref list \<Rightarrow> nat res" where
  "sizeof_fields n E ts = sizeof_fields_by (alignof_type n E) (sizeof_type n E) ts"

definition aligned_sizeof_type :: "nat \<Rightarrow> layout_env \<Rightarrow> tref \<Rightarrow> nat res" where
  "aligned_sizeof_type n E t =
     rbind (sizeof_type n E t) (\<lambda>s. rbind (alignof_type n E t) (\<lambda>a. Inr (align_to s a)))"

subsection \<open>Registration\<close>

text \<open>\<open>inline_struct_deps\<close>: the struct whose value is part of a value of the type.\<close>

fun inline_struct_deps :: "layout_env \<Rightarrow> tref \<Rightarrow> string list" where
  "inline_struct_deps E (ArrayTypeRef n r) =
     (if has_key (STRUCT_FIELDS E) (type_key (ArrayTypeRef n r)) then [type_key (ArrayTypeRef n r)]
      else inline_struct_deps E r)"
| "inline_struct_deps E t = (if has_key (STRUCT_FIELDS E) (type_key t) then [type_key t] else [])"

definition fields_of :: "layout_env \<Rightarrow> string \<Rightarrow> tref list" where
  "fields_of E name = (case map_of (STRUCT_FIELDS E) name of Some fs \<Rightarrow> map snd fs | None \<Rightarrow> [])"

definition struct_deps :: "layout_env \<Rightarrow> string \<Rightarrow> string list" where
  "struct_deps E name = concat (map (inline_struct_deps E) (fields_of E name))"

text \<open>
  \<open>visit\<close>: \<open>visiting\<close> is the path to the struct, \<open>visited\<close> the structs that are done. A path has no
  struct twice, so one step for each struct and one for the end are enough.
\<close>

fun visit :: "nat \<Rightarrow> layout_env \<Rightarrow> string list \<Rightarrow> string \<Rightarrow> string list \<Rightarrow> string list res" where
  "visit 0 E visiting name visited = Inl OutOfFuel"
| "visit (Suc n) E visiting name visited =
     (if name \<in> set visiting then
        Inl (RuntimeError (''struct '' @ name @ '': direct recursive field cycle ''
          @ join '' -> '' (dropWhile (\<lambda>m. m \<noteq> name) visiting @ [name])))
      else if name \<in> set visited then Inr visited
      else
        rbind (rfold (visit n E (visiting @ [name])) (struct_deps E name) visited)
          (\<lambda>visited. Inr (name # visited)))"

definition reject_direct_recursive_structs :: "layout_env \<Rightarrow> unit res" where
  "reject_direct_recursive_structs E =
     rbind (rfold (visit (length (STRUCT_FIELDS E) + 2) E []) (map fst (STRUCT_FIELDS E)) []) (\<lambda>_. Inr ())"

definition register_enums :: "(string \<times> string list) list \<Rightarrow> layout_env \<Rightarrow> layout_env" where
  "register_enums enums E = E\<lparr>ENUM_VARIANTS := foldl (\<lambda>d (name, variants).
     dict_set name (foldl (\<lambda>d (i, v). dict_set v i d) [] (enumerate 0 variants)) d) [] enums\<rparr>"

text \<open>
  \<open>register_structs\<close>: the fields, the check, the names of the identified types, and their bodies.
  The result is the environment and the bodies given to the identified types.
\<close>

definition register_structs ::
  "(string \<times> (string \<times> tref) list) list \<Rightarrow> layout_env \<Rightarrow> (layout_env \<times> (string \<times> irt list) list) res" where
  "register_structs structs E =
     (let E = E\<lparr>STRUCT_FIELDS := foldl (\<lambda>d (name, fs). dict_set name fs d) [] structs, STRUCT_TYPES := []\<rparr>
      in rbind (reject_direct_recursive_structs E) (\<lambda>_.
         let E = E\<lparr>STRUCT_TYPES := foldl (\<lambda>d (name, _). dict_set name (safe_user_ident name) d) [] structs\<rparr>
         in rbind (rmap (\<lambda>(name, fs). rbind (rmap (llvm_type E) (map snd fs))
              (\<lambda>tys. Inr (safe_user_ident name, tys))) structs) (\<lambda>bodies. Inr (E, bodies))))"

end
