(* ===== verification/LayoutProps.thy ===== *)
theory LayoutProps
  imports Layout
begin

text \<open>
  Sizes and alignments: the rounding, the check for structs that contain themselves, which makes
  the computation of sizes end, and the agreement with the layout LLVM gives to the emitted types.
\<close>

subsection \<open>Rounding\<close>

lemma align_to_facts:
  assumes "0 < a"
  shows "a dvd align_to v a \<and> v \<le> align_to v a \<and> align_to v a < v + a
     \<and> (\<forall>m. a dvd m \<and> v \<le> m \<longrightarrow> align_to v a \<le> m)"
proof -
  have "align_to v a + (v + a - 1) mod a = v + a - 1"
    by (simp add: align_to_def)
  moreover have "(v + a - 1) mod a < a" using assms by simp
  ultimately have 1: "v \<le> align_to v a" "align_to v a < v + a" using assms by linarith+
  have 2: "a dvd align_to v a" by (simp add: align_to_def)
  have "align_to v a \<le> m" if "a dvd m" "v \<le> m" for m
  proof -
    from that(1) 2 obtain i j where m: "m = a * i" "align_to v a = a * j" by (auto elim!: dvdE)
    with 1(2) that(2) have "a * j < a * Suc i" by simp
    then have "j \<le> i" by (simp only: mult_less_cancel1 less_Suc_eq_le)
    then show ?thesis using m by simp
  qed
  with 1 2 show ?thesis by simp
qed

text \<open>
  \<open>align_to\<close> gives the least multiple of the alignment that is not below the value.
\<close>

theorem align_to_least:
  assumes "0 < a"
  shows "a dvd align_to v a \<and> v \<le> align_to v a \<and> align_to v a < v + a
     \<and> (\<forall>m. a dvd m \<and> v \<le> m \<longrightarrow> align_to v a \<le> m)"
  using assms by (rule align_to_facts)

lemma align_to_least_witness: "8 dvd align_to (13::nat) 8 \<and> align_to 13 8 = 16"
  using align_to_least [of 8 13] by (simp add: align_to_def)

subsection \<open>Structs that contain themselves\<close>

definition contains :: "layout_env \<Rightarrow> (string \<times> string) set" where
  "contains E = {(a, b). b \<in> set (struct_deps E a)}"

text \<open>A list of structs in which each one only contains later ones.\<close>

fun topo :: "layout_env \<Rightarrow> string list \<Rightarrow> bool" where
  "topo E [] = True"
| "topo E (n # ns) = (set (struct_deps E n) \<subseteq> set ns \<and> topo E ns)"

abbreviation struct_names :: "layout_env \<Rightarrow> string set" where
  "struct_names E \<equiv> fst ` set (STRUCT_FIELDS E)"

lemma inline_deps_names: "set (inline_struct_deps E t) \<subseteq> struct_names E"
  by (induction E t rule: inline_struct_deps.induct) (auto simp: has_key_iff)

lemma struct_deps_names: "set (struct_deps E n) \<subseteq> struct_names E"
  using inline_deps_names by (fastforce simp: struct_deps_def)

definition done_with :: "layout_env \<Rightarrow> string list \<Rightarrow> string list \<Rightarrow> bool" where
  "done_with E visiting visited \<longleftrightarrow> topo E visited \<and> distinct visited \<and> set visited \<subseteq> struct_names E
     \<and> set visited \<inter> set visiting = {}"

lemma visit_done:
  "visit n E visiting name visited = Inr visited' \<Longrightarrow> done_with E visiting visited \<Longrightarrow> name \<in> struct_names E \<Longrightarrow>
     done_with E visiting visited' \<and> insert name (set visited) \<subseteq> set visited'"
proof (induction n arbitrary: visiting name visited visited')
  case (Suc n)
  have fold: "rfold (visit n E (visiting @ [name])) ms vd = Inr vd' \<Longrightarrow> done_with E (visiting @ [name]) vd \<Longrightarrow>
      set ms \<subseteq> struct_names E \<Longrightarrow> done_with E (visiting @ [name]) vd' \<and> set ms \<union> set vd \<subseteq> set vd'" for ms vd vd'
  proof (induction ms arbitrary: vd)
    case (Cons m ms)
    from Cons.prems(1) obtain w where w: "visit n E (visiting @ [name]) m vd = Inr w"
      and r: "rfold (visit n E (visiting @ [name])) ms w = Inr vd'" by auto
    from Suc.IH [OF w Cons.prems(2)] Cons.prems(3)
    have "done_with E (visiting @ [name]) w" "insert m (set vd) \<subseteq> set w" by auto
    with Cons.IH [OF r] Cons.prems(3) show ?case by auto
  qed simp
  from Suc.prems(1) consider "name \<in> set visited" "visited' = visited"
    | w where "name \<notin> set visiting" "name \<notin> set visited" "visited' = name # w"
        "rfold (visit n E (visiting @ [name])) (struct_deps E name) visited = Inr w"
    by (auto split: if_splits)
  then show ?case
  proof cases
    case 1
    with Suc.prems(2) show ?thesis by auto
  next
    case 2
    have "done_with E (visiting @ [name]) visited"
      using Suc.prems(2) 2(2) by (simp add: done_with_def)
    from fold [OF 2(4) this struct_deps_names]
    have "done_with E (visiting @ [name]) w" "set (struct_deps E name) \<union> set visited \<subseteq> set w" by auto
    with 2(1,3) Suc.prems(3) show ?thesis by (auto simp: done_with_def)
  qed
qed simp

lemma visit_fuel:
  "distinct visiting \<Longrightarrow> set visiting \<subseteq> struct_names E \<Longrightarrow> name \<in> struct_names E \<Longrightarrow>
     length (STRUCT_FIELDS E) < n + length visiting \<Longrightarrow> visit n E visiting name visited \<noteq> Inl OutOfFuel"
proof (induction n arbitrary: visiting name visited)
  case 0
  have "length visiting = card (set visiting)" using 0 by (simp add: distinct_card)
  also have "\<dots> \<le> card (struct_names E)" using 0 by (simp add: card_mono)
  also have "\<dots> \<le> length (STRUCT_FIELDS E)"
    using card_image_le [of "set (STRUCT_FIELDS E)" fst] card_length [of "STRUCT_FIELDS E"] by simp
  finally show ?case using 0 by simp
next
  case (Suc n)
  have "rfold (visit n E (visiting @ [name])) ms vd \<noteq> Inl OutOfFuel"
    if "name \<notin> set visiting" "set ms \<subseteq> struct_names E" for ms vd
    using that(2)
  proof (induction ms arbitrary: vd)
    case (Cons m ms)
    then have "visit n E (visiting @ [name]) m vd \<noteq> Inl OutOfFuel"
      using Suc.prems that(1) by (intro Suc.IH) auto
    with Cons show ?case by (auto simp: rbind_eq_Inl)
  qed simp
  with struct_deps_names [of E name] show ?case by (auto simp: rbind_eq_Inl)
qed

lemma visit_cycle:
  "visit n E visiting name visited = Inl e \<Longrightarrow> e \<noteq> OutOfFuel \<Longrightarrow>
     \<forall>m \<in> set visiting. (m, name) \<in> (contains E)\<^sup>+ \<Longrightarrow> \<exists>m. (m, m) \<in> (contains E)\<^sup>+"
proof (induction n arbitrary: visiting name visited)
  case (Suc n)
  show ?case
  proof (cases "name \<in> set visiting")
    case True
    with Suc.prems(3) show ?thesis by blast
  next
    case False
    with Suc.prems(1) have f: "rfold (visit n E (visiting @ [name])) (struct_deps E name) visited = Inl e"
      by (auto simp: rbind_eq_Inl split: if_splits)
    have "rfold (visit n E (visiting @ [name])) ms vd = Inl e \<Longrightarrow> set ms \<subseteq> set (struct_deps E name) \<Longrightarrow>
        \<exists>m. (m, m) \<in> (contains E)\<^sup>+" for ms vd
    proof (induction ms arbitrary: vd)
      case (Cons m ms)
      have edge: "(name, m) \<in> contains E" using Cons.prems(2) by (simp add: contains_def)
      with Suc.prems(3) have path: "\<forall>k \<in> set (visiting @ [name]). (k, m) \<in> (contains E)\<^sup>+"
        by (auto intro: trancl_into_trancl)
      from Cons.prems(1) consider "visit n E (visiting @ [name]) m vd = Inl e"
        | w where "rfold (visit n E (visiting @ [name])) ms w = Inl e"
        by (auto simp: rbind_eq_Inl)
      then show ?case
      proof cases
        case 1
        then show ?thesis using Suc.IH Suc.prems(2) path by blast
      next
        case 2
        then show ?thesis using Cons.IH Cons.prems(2) by simp
      qed
    qed simp
    from this [OF f subset_refl] show ?thesis .
  qed
qed simp

lemma topo_closed: "topo E ns \<Longrightarrow> m \<in> set ns \<Longrightarrow> (m, k) \<in> (contains E)\<^sup>+ \<Longrightarrow> k \<in> set ns"
proof -
  have step: "topo E ns \<Longrightarrow> m \<in> set ns \<Longrightarrow> (m, k) \<in> contains E \<Longrightarrow> k \<in> set ns" for m k
    by (induction ns) (auto simp: contains_def)
  assume "topo E ns" "m \<in> set ns" "(m, k) \<in> (contains E)\<^sup>+"
  then show "k \<in> set ns" by (induction rule: trancl_induct [OF \<open>(m, k) \<in> (contains E)\<^sup>+\<close>]) (auto intro: step)
qed

lemma topo_acyclic: "topo E ns \<Longrightarrow> distinct ns \<Longrightarrow> m \<in> set ns \<Longrightarrow> (m, m) \<notin> (contains E)\<^sup>+"
proof (induction ns)
  case (Cons n ns)
  show ?case
  proof (cases "m \<in> set ns")
    case False
    with Cons.prems have m: "m = n" by simp
    show ?thesis
    proof
      assume "(m, m) \<in> (contains E)\<^sup>+"
      then obtain k where k: "(m, k) \<in> contains E" "k = m \<or> (k, m) \<in> (contains E)\<^sup>+"
        by (meson converse_tranclE)
      have "k \<in> set ns" using k(1) Cons.prems(1) m by (auto simp: contains_def)
      with k(2) topo_closed [of E ns k m] Cons.prems(1) False show False by auto
    qed
  qed (use Cons in simp)
qed simp

lemma contains_names: "(m, k) \<in> (contains E)\<^sup>+ \<Longrightarrow> m \<in> struct_names E"
proof (induction rule: converse_trancl_induct)
  case (base y)
  then have "fields_of E y \<noteq> []" by (auto simp: contains_def struct_deps_def)
  then show ?case by (force simp: fields_of_def split: option.splits dest: map_of_SomeD)
next
  case (step y z)
  then have "fields_of E y \<noteq> []" by (auto simp: contains_def struct_deps_def)
  then show ?case by (force simp: fields_of_def split: option.splits dest: map_of_SomeD)
qed

lemma visits_done:
  "rfold (visit n E []) ms vd = Inr vd' \<Longrightarrow> done_with E [] vd \<Longrightarrow> set ms \<subseteq> struct_names E \<Longrightarrow>
     done_with E [] vd' \<and> set ms \<subseteq> set vd' \<and> set vd \<subseteq> set vd'"
proof (induction ms arbitrary: vd)
  case (Cons m ms)
  then obtain w where "visit n E [] m vd = Inr w" "rfold (visit n E []) ms w = Inr vd'" by auto
  with visit_done [of n E "[]" m vd w] Cons show ?case by fastforce
qed simp

lemma reject_Inr:
  assumes "reject_direct_recursive_structs E = Inr ()"
  obtains ns where "topo E ns" "distinct ns" "set ns = struct_names E"
proof -
  from assms obtain ns where "rfold (visit (length (STRUCT_FIELDS E) + 2) E []) (map fst (STRUCT_FIELDS E)) [] = Inr ns"
    by (auto simp: reject_direct_recursive_structs_def)
  from visits_done [OF this] have "done_with E [] ns \<and> struct_names E \<subseteq> set ns"
    by (simp add: done_with_def)
  with that show thesis by (auto simp: done_with_def)
qed

text \<open>
  C21: \<open>reject_direct_recursive_structs\<close> accepts exactly the programs in which no struct contains
  itself, directly, through other structs or through arrays, and otherwise raises RuntimeError;
  the recursion of its depth-first search ends.
\<close>

theorem reject_recursive_structs:
  "(reject_direct_recursive_structs E = Inr () \<longleftrightarrow> acyclic (contains E))
   \<and> reject_direct_recursive_structs E \<noteq> Inl OutOfFuel"

proof -
  have fuel: "rfold (visit (length (STRUCT_FIELDS E) + 2) E []) ms vd \<noteq> Inl OutOfFuel"
    if "set ms \<subseteq> struct_names E" for ms vd
    using that
  proof (induction ms arbitrary: vd)
    case (Cons m ms)
    have "visit (length (STRUCT_FIELDS E) + 2) E [] m vd \<noteq> Inl OutOfFuel"
      by (rule visit_fuel) (use Cons.prems in simp_all)
    with Cons show ?case by (auto simp only: rfold.simps rbind_eq_Inl set_simps)
  qed simp
  then have f: "reject_direct_recursive_structs E \<noteq> Inl OutOfFuel"
    by (simp add: reject_direct_recursive_structs_def rbind_eq_Inl)
  have cycle: "rfold (visit n E []) ms vd = Inl e \<Longrightarrow> e \<noteq> OutOfFuel \<Longrightarrow> \<not> acyclic (contains E)" for n ms vd e
    by (induction ms arbitrary: vd) (auto simp: rbind_eq_Inl acyclic_def dest: visit_cycle)
  show ?thesis
  proof (cases "reject_direct_recursive_structs E")
    case (Inl e)
    with f have "e \<noteq> OutOfFuel" by auto
    moreover have "\<not> acyclic (contains E)"
      using Inl calculation by (auto simp: reject_direct_recursive_structs_def rbind_eq_Inl dest: cycle)
    ultimately show ?thesis using Inl by simp
  next
    case (Inr u)
    then obtain ns where ns: "topo E ns" "distinct ns" "set ns = struct_names E"
      by (metis reject_Inr old.unit.exhaust)
    then have "acyclic (contains E)"
      using topo_acyclic contains_names by (metis acyclic_def)
    with Inr show ?thesis by simp
  qed
qed

subsection \<open>The computation of sizes ends\<close>

lemma rmap_Inl_ex: "rmap f xs = Inl e \<Longrightarrow> \<exists>x \<in> set xs. f x = Inl e"
  by (rule rmap_Inl)

lemma rfold_Inl: "rfold f xs s = Inl e \<Longrightarrow> \<exists>x \<in> set xs. \<exists>u. f x u = Inl e"
  by (induction xs arbitrary: s) (auto simp: rbind_eq_Inl)

lemma struct_key_deps:
  assumes "map_of (STRUCT_FIELDS E) n = Some fs" and "t \<in> set (map snd fs)" and "has_key (STRUCT_FIELDS E) (type_key t)"
  shows "type_key t \<in> set (struct_deps E n)"
proof -
  have "inline_struct_deps E t = [type_key t]"
    using assms(3) by (cases t) simp_all
  with assms(1,2) show ?thesis by (force simp: struct_deps_def fields_of_def)
qed

lemma alignof_leaf: "\<not> has_key (STRUCT_FIELDS E) (type_key t) \<Longrightarrow> alignof_type (Suc n) E t \<noteq> Inl OutOfFuel"
  by (simp add: has_key_def backend_error_def)

lemma sizeof_leaf: "\<not> has_key (STRUCT_FIELDS E) (type_key t) \<Longrightarrow> sizeof_type (Suc n) E t \<noteq> Inl OutOfFuel"
  by (simp add: has_key_def backend_error_def)

lemma alignof_struct:
  assumes "alignof_type (Suc n) E t = Inl OutOfFuel"
  obtains fs ft where "map_of (STRUCT_FIELDS E) (type_key t) = Some fs" "ft \<in> set (map snd fs)"
    "alignof_type n E ft = Inl OutOfFuel"
proof (cases "map_of (STRUCT_FIELDS E) (type_key t)")
  case None
  with assms alignof_leaf show ?thesis by (simp add: has_key_def)
next
  case (Some fs)
  with assms have "rmap (alignof_type n E) (map snd fs) = Inl OutOfFuel"
    by (simp only: alignof_type.simps option.case) (auto simp: rbind_eq_Inl split: if_splits)
  from rmap_Inl [OF this] that [OF Some] show ?thesis by blast
qed

lemma sizeof_struct:
  assumes "sizeof_type (Suc n) E t = Inl OutOfFuel"
  obtains fs ft where "map_of (STRUCT_FIELDS E) (type_key t) = Some fs" "ft \<in> set (map snd fs)"
    "alignof_type n E ft = Inl OutOfFuel \<or> sizeof_type n E ft = Inl OutOfFuel"
proof (cases "map_of (STRUCT_FIELDS E) (type_key t)")
  case None
  with assms sizeof_leaf show ?thesis by (simp add: has_key_def)
next
  case (Some fs)
  with assms have "sizeof_fields_by (alignof_type n E) (sizeof_type n E) (map snd fs) = Inl OutOfFuel"
    by (simp only: sizeof_type.simps option.case) (auto split: if_splits)
  then have "rfold (place_field (alignof_type n E) (sizeof_type n E)) (map snd fs) (0, 1) = Inl OutOfFuel"
    by (auto simp: sizeof_fields_by_def rbind_eq_Inl)
  from rfold_Inl [OF this] obtain ft u where ft: "ft \<in> set (map snd fs)"
    "place_field (alignof_type n E) (sizeof_type n E) ft u = Inl OutOfFuel" by blast
  from ft(2) have "alignof_type n E ft = Inl OutOfFuel \<or> sizeof_type n E ft = Inl OutOfFuel"
    by (auto simp: place_field_def rbind_eq_Inl split: prod.splits)
  with that [OF Some ft(1)] show ?thesis by blast
qed

lemma layout_fuel:
  "topo E ns \<Longrightarrow> length ns < n \<Longrightarrow> (has_key (STRUCT_FIELDS E) (type_key t) \<longrightarrow> type_key t \<in> set ns) \<Longrightarrow>
     alignof_type n E t \<noteq> Inl OutOfFuel \<and> sizeof_type n E t \<noteq> Inl OutOfFuel"
proof (induction ns arbitrary: n t)
  case Nil
  then obtain k where "n = Suc k" by (cases n) auto
  with Nil alignof_leaf sizeof_leaf show ?case by simp
next
  case (Cons m ms)
  from Cons.prems(2) obtain k where k: "n = Suc k" "length ms < k" by (cases n) auto
  show ?case
  proof (cases "type_key t = m")
    case True
    have field: "alignof_type k E ft \<noteq> Inl OutOfFuel \<and> sizeof_type k E ft \<noteq> Inl OutOfFuel"
      if "map_of (STRUCT_FIELDS E) m = Some fs" "ft \<in> set (map snd fs)" for fs ft
      by (rule Cons.IH) (use Cons.prems(1) k(2) struct_key_deps [OF that] in auto)
    show ?thesis
      unfolding k(1) using field by (auto simp only: True elim!: alignof_struct sizeof_struct)
  next
    case False
    with Cons.prems k show ?thesis by (intro Cons.IH) auto
  qed
qed

text \<open>
  C22: once the check has accepted the structs of a program, the recursion through their fields
  ends: the size and the alignment of every type are computed, or fail with an exception of the
  code, within one step for each struct.
\<close>

theorem layout_terminates:
  assumes "reject_direct_recursive_structs E = Inr ()" and "length (STRUCT_FIELDS E) < n"
  shows "sizeof_type n E t \<noteq> Inl OutOfFuel \<and> alignof_type n E t \<noteq> Inl OutOfFuel"
proof -
  obtain ns where ns: "topo E ns" "distinct ns" "set ns = struct_names E"
    using assms(1) by (rule reject_Inr)
  have "length ns = card (struct_names E)" using ns(2,3) by (simp flip: distinct_card)
  also have "\<dots> \<le> length (STRUCT_FIELDS E)"
    using card_image_le [of "set (STRUCT_FIELDS E)" fst] card_length [of "STRUCT_FIELDS E"] by simp
  finally have "length ns < n" using assms(2) by simp
  with layout_fuel [OF ns(1), of n t] ns(3) show ?thesis by (simp add: has_key_iff)
qed

definition sample_env :: layout_env where
  "sample_env = \<lparr>STRUCT_FIELDS = [(''P'', [(''a'', NamedType ''i8''), (''b'', NamedType ''u64'')])],
     STRUCT_TYPES = [(''P'', ''P'')], ENUM_VARIANTS = [], IFACE_METHODS = []\<rparr>"

lemma sample_env_accepted: "reject_direct_recursive_structs sample_env = Inr ()"
  by code_simp

lemma layout_terminates_witness:
  "sizeof_type 2 sample_env (NamedType ''P'') \<noteq> Inl OutOfFuel \<and> sizeof_type 2 sample_env (NamedType ''P'') = Inr 16"
proof -
  have "sizeof_type 2 sample_env (NamedType ''P'') = Inr 16" by code_simp
  moreover have "length (STRUCT_FIELDS sample_env) < 2" by code_simp
  ultimately show ?thesis
    using layout_terminates [OF sample_env_accepted, of 2 "NamedType ''P''"] by blast
qed

subsection \<open>Agreement with LLVM\<close>

text \<open>
  What LLVM documents of the layout of types on the two targets (64-bit pointers, integers and
  floats aligned to their size, structs laid out in order): the fields of a struct are placed at the
  next multiple of their alignment, and its size is rounded up to the largest of these. An
  identified struct is laid out like its body.
\<close>

definition round_up :: "nat \<Rightarrow> nat \<Rightarrow> nat" where
  "round_up v a = (if v mod a = 0 then v else v + (a - v mod a))"

fun struct_end :: "('t \<Rightarrow> nat) \<Rightarrow> ('t \<Rightarrow> nat) \<Rightarrow> nat \<Rightarrow> 't list \<Rightarrow> nat" where
  "struct_end sz al offset [] = offset"
| "struct_end sz al offset (t # ts) = struct_end sz al (round_up offset (al t) + sz t) ts"

definition struct_align :: "('t \<Rightarrow> nat) \<Rightarrow> 't list \<Rightarrow> nat" where
  "struct_align al ts = foldl max 1 (map al ts)"

definition struct_size :: "('t \<Rightarrow> nat) \<Rightarrow> ('t \<Rightarrow> nat) \<Rightarrow> 't list \<Rightarrow> nat" where
  "struct_size sz al ts = round_up (struct_end sz al 0 ts) (struct_align al ts)"

locale data_layout =
  fixes sz al :: "irt \<Rightarrow> nat" and bodies :: "(string \<times> irt list) list"
  assumes int_layout: "(w, b) \<in> {(1, 1), (8, 1), (16, 2), (32, 4), (64, 8)} \<Longrightarrow>
      sz (IntType w) = b \<and> al (IntType w) = b"
    and float_layout: "sz FloatT = 4 \<and> al FloatT = 4" "sz DoubleT = 8 \<and> al DoubleT = 8"
    and pointer_layout: "sz (Pointer t) = 8 \<and> al (Pointer t) = 8"
    and struct_layout: "sz (LiteralStruct ts) = struct_size sz al ts \<and> al (LiteralStruct ts) = struct_align al ts"
    and body_layout: "(n, ts) \<in> set bodies \<Longrightarrow>
      sz (Identified n) = struct_size sz al ts \<and> al (Identified n) = struct_align al ts"

lemma round_up_align: "0 < a \<Longrightarrow> round_up v a = align_to v a"
proof -
  assume a: "0 < a"
  note f = align_to_facts [OF a, of v]
  have lt: "v mod a < a" using a by simp
  have d: "a dvd round_up v a"
  proof (cases "v mod a = 0")
    case True
    then show ?thesis by (simp add: round_up_def mod_eq_0_iff_dvd)
  next
    case False
    have "v + (a - v mod a) = v div a * a + a"
      using lt div_mult_mod_eq [of v a] by linarith
    with False show ?thesis by (simp add: round_up_def)
  qed
  have "v \<le> round_up v a" "round_up v a < v + a" using a lt by (auto simp: round_up_def)
  with f d have "align_to v a \<le> round_up v a" "round_up v a < align_to v a + a" by auto
  moreover obtain i j where "round_up v a = a * i" "align_to v a = a * j"
    using d f by (auto elim!: dvdE)
  moreover from calculation have "a * i < a * Suc j" "a * j \<le> a * i" by simp_all
  ultimately show ?thesis using a by (simp only: mult_less_cancel1 mult_le_cancel1 less_Suc_eq_le) auto
qed

lemma foldl_max_mono: "(m :: nat) \<le> foldl max m ns"
  by (induction ns arbitrary: m) (auto intro: le_trans [OF max.cobounded1])



lemma alignof_pos: "alignof_type n E t = Inr a \<Longrightarrow> 1 \<le> a"
proof (induction n arbitrary: t a)
  case (Suc n)
  have "1 \<le> max_default 1 as" if "rmap (alignof_type n E) ts = Inr as" for ts as
  proof (cases as)
    case (Cons b bs)
    with that Suc.IH have "1 \<le> b" by (cases ts) auto
    with Cons foldl_max_mono [of b bs] show ?thesis by (simp add: max_default_def)
  qed (simp add: max_default_def)
  with Suc.prems show ?case
    by (auto simp: backend_error_def split: if_splits option.splits)
qed simp

text \<open>The names a program declares: not those of built-in types, and of one kind each.\<close>

definition builtin_names :: "string list" where
  "builtin_names = [''void'', ''i8'', ''i16'', ''i32'', ''i64'', ''u8'', ''u16'', ''u32'', ''u64'', ''bool'', ''rune'',
     ''f32'', ''f64'', ''str'', ''error'', ''nc_map'', ''raw'']"

lemma builtin_names_ok: "\<forall>n \<in> set builtin_names. type_name_ok n"
  by code_simp

definition env_ok :: "layout_env \<Rightarrow> bool" where
  "env_ok E \<longleftrightarrow>
     (\<forall>n \<in> struct_names E \<union> fst ` set (ENUM_VARIANTS E) \<union> set (IFACE_METHODS E). type_name_ok n \<and> n \<notin> set builtin_names)
     \<and> struct_names E \<inter> fst ` set (ENUM_VARIANTS E) = {} \<and> struct_names E \<inter> set (IFACE_METHODS E) = {}
     \<and> fst ` set (ENUM_VARIANTS E) \<inter> set (IFACE_METHODS E) = {}"

context data_layout begin

lemma scalar_layout [simp]:
  "sz (IntType (Suc 0)) = 1" "sz (IntType 8) = 1" "sz (IntType 16) = 2" "sz (IntType 32) = 4" "sz (IntType 64) = 8"
  "al (IntType (Suc 0)) = 1" "al (IntType 8) = 1" "al (IntType 16) = 2" "al (IntType 32) = 4" "al (IntType 64) = 8"
  "sz FloatT = 4" "al FloatT = 4" "sz DoubleT = 8" "al DoubleT = 8" "sz (Pointer t) = 8" "al (Pointer t) = 8"
  using int_layout [of 1 1] int_layout [of 8 1] int_layout [of 16 2] int_layout [of 32 4] int_layout [of 64 8]
    float_layout pointer_layout by auto

lemma composite_layout [simp]:
  "sz (LiteralStruct [Pointer a, Pointer b]) = 16" "al (LiteralStruct [Pointer a, Pointer b]) = 8"
  "sz (LiteralStruct [Pointer a, IntType 64, IntType 64]) = 24" "al (LiteralStruct [Pointer a, IntType 64, IntType 64]) = 8"
  "sz STR_TYPE = 16" "al STR_TYPE = 8" "sz MAP_TYPE = 40" "al MAP_TYPE = 8" "sz ERROR_TYPE = 40" "al ERROR_TYPE = 8"
  by (simp_all add: STR_TYPE_def MAP_TYPE_def ERROR_TYPE_def RAW_SLICE_TYPE_def I8PTR_def struct_layout
      struct_size_def struct_align_def round_up_def)

lemma builtin_layout:
  assumes "x \<in> set builtin_names" and "env_ok E" and "sizeof_type (Suc n) E (NamedType x) = Inr s"
    and "alignof_type (Suc n) E (NamedType x) = Inr a" and "llvm_type E (NamedType x) = Inr ty"
  shows "sz ty = s \<and> al ty = a"
proof -
  have "\<not> has_key (ENUM_VARIANTS E) x" "x \<notin> set (IFACE_METHODS E)" "map_of (STRUCT_FIELDS E) x = None"
    using assms(1,2) by (auto simp: env_ok_def has_key_iff map_of_eq_None_iff)
  note env = this and eval = named_def named_in_def type_key_def llvm_named_def INT_TYPES_def
    LLVM_FLOAT_TYPES_def or_else_def I8PTR_def backend_error_def
  from assms(1) show ?thesis
    unfolding builtin_names_def set_simps insert_iff empty_iff
    by (elim disjE) (use assms(3-5) env in \<open>simp_all add: eval, safe?, simp_all\<close>)
qed

end

context data_layout begin

lemma fields_layout:
  assumes "\<And>t s a ty. t \<in> set ts \<Longrightarrow> size_of t = Inr s \<Longrightarrow> align_of t = Inr a \<Longrightarrow> llvm_type E t = Inr ty \<Longrightarrow>
      sz ty = s \<and> al ty = a \<and> 1 \<le> a"
    and "rfold (place_field align_of size_of) ts (offset, m) = Inr (offset', m')"
    and "rmap align_of ts = Inr as" and "rmap (llvm_type E) ts = Inr tys"
  shows "offset' = struct_end sz al offset tys \<and> m' = foldl max m (map al tys) \<and> as = map al tys"
  using assms
proof (induction ts arbitrary: offset m as tys)
  case (Cons t ts)
  from Cons.prems(3,4) obtain a as' ty tys' where a: "align_of t = Inr a" "rmap align_of ts = Inr as'" "as = a # as'"
    and ty: "llvm_type E t = Inr ty" "rmap (llvm_type E) ts = Inr tys'" "tys = ty # tys'"
    by auto
  from Cons.prems(2) obtain p where p: "place_field align_of size_of t (offset, m) = Inr p"
    and rest: "rfold (place_field align_of size_of) ts p = Inr (offset', m')"
    by auto
  from p a(1) obtain s where s0: "size_of t = Inr s" "p = (align_to offset a + s, max m a)"
    by (auto simp: place_field_def)
  have r: "rfold (place_field align_of size_of) ts (align_to offset a + s, max m a) = Inr (offset', m')"
    using rest s0(2) by simp
  note s = s0(1)
  have t: "sz ty = s \<and> al ty = a \<and> 1 \<le> a" using Cons.prems(1) [of t s a ty] s a(1) ty(1) by simp
  have "offset' = struct_end sz al (align_to offset a + s) tys' \<and> m' = foldl max (max m a) (map al tys')
      \<and> as' = map al tys'"
    by (rule Cons.IH [OF _ r a(2) ty(2)]) (use Cons.prems(1) in auto)
  with t a(3) ty(3) show ?case by (simp add: round_up_align)
qed simp

lemma struct_fields_layout:
  assumes "\<And>t s a ty. t \<in> set ts \<Longrightarrow> size_of t = Inr s \<Longrightarrow> align_of t = Inr a \<Longrightarrow> llvm_type E t = Inr ty \<Longrightarrow>
      sz ty = s \<and> al ty = a \<and> 1 \<le> a"
    and "sizeof_fields_by align_of size_of ts = Inr s" and "rmap align_of ts = Inr as"
    and "rmap (llvm_type E) ts = Inr tys" and "\<forall>a \<in> set as. 1 \<le> a"
  shows "struct_size sz al tys = s \<and> struct_align al tys = max_default 1 as"
proof -
  from assms(2) obtain offset m where r: "rfold (place_field align_of size_of) ts (0, 1) = Inr (offset, m)"
    and s: "s = align_to offset m" by (auto simp: sizeof_fields_by_def)
  have f: "offset = struct_end sz al 0 tys \<and> m = foldl max 1 (map al tys) \<and> as = map al tys"
    by (rule fields_layout [OF _ r assms(3,4)]) (rule assms(1))
  then have "0 < m" using foldl_max_mono [of 1 "map al tys"] by simp
  with f s have "struct_size sz al tys = s"
    by (simp add: struct_size_def struct_align_def round_up_align)
  moreover have "max_default 1 as = foldl max 1 as"
    using assms(5) by (cases as) (simp_all add: max_default_def max_absorb2)
  ultimately show ?thesis using f by (simp add: struct_align_def)
qed

lemma llvm_named_user:
  assumes "x \<notin> set builtin_names" and "x \<noteq> ''*void''" and "x \<noteq> ''?*void''"
  shows "llvm_named E (NamedType x) = (if x \<in> set (IFACE_METHODS E) then Some (LiteralStruct [I8PTR, I8PTR]) else None)"
proof -
  have "map_of INT_TYPES x = None" "map_of LLVM_FLOAT_TYPES x = None"
    using assms(1) by (simp_all add: builtin_names_def INT_TYPES_def LLVM_FLOAT_TYPES_def)
  moreover have "\<not> named (NamedType x) n" if "n \<in> set builtin_names" for n
    using that assms(1) by (auto simp: named_def type_key_def)
  ultimately show ?thesis
    using assms(2,3) by (simp add: llvm_named_def named_in_def type_key_def builtin_names_def)
qed

lemma layout_user:
  assumes "x \<notin> set builtin_names" and "\<not> has_key (ENUM_VARIANTS E) x" and "x \<notin> set (IFACE_METHODS E)"
  shows "alignof_type (Suc n) E (NamedType x) = (case map_of (STRUCT_FIELDS E) x of
       Some fs \<Rightarrow> rbind (rmap (alignof_type n E) (map snd fs)) (\<lambda>aligns. Inr (max_default 1 aligns))
     | None \<Rightarrow> backend_error ''cannot alignof '' (NamedType x))"
    and "sizeof_type (Suc n) E (NamedType x) = (case map_of (STRUCT_FIELDS E) x of
       Some fs \<Rightarrow> sizeof_fields_by (alignof_type n E) (sizeof_type n E) (map snd fs)
     | None \<Rightarrow> backend_error ''cannot sizeof '' (NamedType x))"
  using assms by (simp_all add: builtin_names_def named_def named_in_def type_key_def)

lemma not_pointer_name: "type_name_ok x \<Longrightarrow> x \<noteq> ''*void'' \<and> x \<noteq> ''?*void''"
  by (auto simp: type_name_ok_def name_char_def ident_char_def py_char_defs)

lemma layout_agreement:
  assumes ok: "env_ok E"
    and bodies: "\<And>x fs. map_of (STRUCT_FIELDS E) x = Some fs \<Longrightarrow>
      \<exists>i tys. map_of (STRUCT_TYPES E) x = Some i \<and> rmap (llvm_type E) (map snd fs) = Inr tys \<and> (i, tys) \<in> set bodies"
    and types: "\<And>x i. map_of (STRUCT_TYPES E) x = Some i \<Longrightarrow> has_key (STRUCT_FIELDS E) x"
  shows "sizeof_type n E t = Inr s \<Longrightarrow> alignof_type n E t = Inr a \<Longrightarrow> llvm_type E t = Inr ty \<Longrightarrow>
     sz ty = s \<and> al ty = a"
proof (induction n arbitrary: t s a ty)
  case (Suc n)
  have names: "x \<notin> set (IFACE_METHODS E) \<and> \<not> has_key (ENUM_VARIANTS E) x \<and> \<not> has_key (STRUCT_FIELDS E) x
      \<and> map_of (STRUCT_TYPES E) x = None \<and> x \<notin> set builtin_names" if "\<not> type_name_ok x" for x
  proof -
    have "x \<notin> struct_names E \<union> fst ` set (ENUM_VARIANTS E) \<union> set (IFACE_METHODS E)"
      using ok that by (auto simp: env_ok_def)
    moreover have "map_of (STRUCT_TYPES E) x = None"
      using types [of x] calculation by (cases "map_of (STRUCT_TYPES E) x") (auto simp: has_key_iff)
    moreover have "x \<notin> set builtin_names" using that builtin_names_ok by blast
    ultimately show ?thesis by (simp add: has_key_iff)
  qed
  show ?case
  proof (cases "\<exists>x. t = NamedType x")
    case False
    then have key: "type_key t \<notin> set (IFACE_METHODS E)" "\<not> has_key (ENUM_VARIANTS E) (type_key t)"
      "map_of (STRUCT_FIELDS E) (type_key t) = None" "map_of (STRUCT_TYPES E) (type_key t) = None"
      "type_key t \<notin> set builtin_names"
      using names [OF key_not_name, of t] by (auto simp: has_key_def)
    have named: "llvm_named E t = (if as_map_type t \<noteq> None then Some MAP_TYPE
        else if named_in t [''*void'', ''?*void''] then Some I8PTR else None)"
      and declared: "llvm_declared E t = None"
      using key by (simp_all add: llvm_named_def llvm_declared_def named_def named_in_def builtin_names_def
          INT_TYPES_def LLVM_FLOAT_TYPES_def)
    have sizes: "s = (if as_map_type t \<noteq> None then 40 else if as_pointer_type t \<noteq> None then 8
        else if as_function_type t \<noteq> None then 16 else if as_slice_type t \<noteq> None then 24 else 8)"
      "a = 8" "as_map_type t \<noteq> None \<or> as_pointer_type t \<noteq> None \<or> as_function_type t \<noteq> None
        \<or> as_slice_type t \<noteq> None \<or> as_array_type t \<noteq> None"
      using key Suc.prems(1,2)
      by (simp_all add: named_def named_in_def builtin_names_def backend_error_def split: if_splits)
    show ?thesis
    proof (cases t)
      case (NamedType x)
      with False show ?thesis by blast
    next
      case (PointerType r b)
      with Suc.prems(3) named sizes show ?thesis
        by (auto simp: or_else_def I8PTR_def split: if_splits)
    next
      case (SliceType r)
      then have "\<not> named_in t [''*void'', ''?*void'']" by (simp add: named_in_def type_key_def)
      with SliceType Suc.prems(3) named declared sizes show ?thesis
        by (auto simp: or_else_def)
    next
      case (ArrayTypeRef k r)
      then have "\<not> named_in t [''*void'', ''?*void'']" by (simp add: named_in_def type_key_def)
      with ArrayTypeRef Suc.prems(3) named declared sizes show ?thesis
        by (auto simp: or_else_def)
    next
      case (FunctionType ps r b)
      then have "\<not> named_in t [''*void'', ''?*void'']" by (simp add: named_in_def type_key_def)
      with FunctionType Suc.prems(3) named sizes show ?thesis
        by (auto simp: or_else_def I8PTR_def)
    next
      case (GenericType b as)
      with sizes have "as_map_type t \<noteq> None" by simp
      with Suc.prems(3) named sizes GenericType show ?thesis
        by (auto simp: or_else_def)
    qed
  next
    case True
    then obtain x where t: "t = NamedType x" ..
    consider "x \<in> set builtin_names" | "x \<notin> set builtin_names" "has_key (ENUM_VARIANTS E) x"
      | "x \<notin> set builtin_names" "\<not> has_key (ENUM_VARIANTS E) x" "x \<in> set (IFACE_METHODS E)"
      | fs where "x \<notin> set builtin_names" "\<not> has_key (ENUM_VARIANTS E) x" "x \<notin> set (IFACE_METHODS E)"
          "map_of (STRUCT_FIELDS E) x = Some fs"
      | "x \<notin> set builtin_names" "\<not> has_key (ENUM_VARIANTS E) x" "x \<notin> set (IFACE_METHODS E)"
          "map_of (STRUCT_FIELDS E) x = None"
      by (cases "map_of (STRUCT_FIELDS E) x") auto
    then show ?thesis
    proof cases
      case 1
      then show ?thesis using builtin_layout [OF _ ok] Suc.prems t by blast
    next
      case 2
      then have "x \<notin> set (IFACE_METHODS E)" "type_name_ok x" using ok by (auto simp: env_ok_def has_key_iff)
      with 2 not_pointer_name have "llvm_named E (NamedType x) = None" by (simp add: llvm_named_user)
      with 2 Suc.prems t show ?thesis
        by (auto simp: builtin_names_def named_def named_in_def type_key_def llvm_declared_def or_else_def)
    next
      case 3
      then have "type_name_ok x" using ok by (auto simp: env_ok_def)
      with 3 not_pointer_name have "llvm_named E (NamedType x) = Some (LiteralStruct [I8PTR, I8PTR])"
        by (simp add: llvm_named_user)
      with 3 Suc.prems t show ?thesis
        by (auto simp: builtin_names_def named_def named_in_def type_key_def or_else_def I8PTR_def)

    next
      case (4 fs)
      obtain i tys where b: "map_of (STRUCT_TYPES E) x = Some i" "rmap (llvm_type E) (map snd fs) = Inr tys"
        "(i, tys) \<in> set bodies" using bodies [OF 4(4)] by blast
      from 4(4) Suc.prems(2) t obtain as where
        as: "rmap (alignof_type n E) (map snd fs) = Inr as" "a = max_default 1 as"
        by (auto simp only: layout_user [OF 4(1-3)] option.case rbind_eq_Inr sum.inject)
      from 4(4) Suc.prems(1) t have s: "sizeof_fields_by (alignof_type n E) (sizeof_type n E) (map snd fs) = Inr s"
        by (simp only: layout_user [OF 4(1-3)] option.case)
      have "x \<in> struct_names E" using imageI [OF map_of_SomeD [OF 4(4)], of fst] by simp
      with ok have "type_name_ok x" by (simp add: env_ok_def)
      with 4 not_pointer_name have "llvm_named E (NamedType x) = None" by (simp add: llvm_named_user)
      with 4 b(1) Suc.prems(3) t have ty: "ty = Identified i"
        by (simp add: type_key_def llvm_declared_def or_else_def)
      have "\<forall>a \<in> set as. 1 \<le> a"
        using alignof_pos rmap_Inr_mem [OF as(1)] by blast
      from struct_fields_layout [OF _ s as(1) b(2) this]
      have "struct_size sz al tys = s \<and> struct_align al tys = a"
        using Suc.IH alignof_pos as(2) by blast
      with body_layout [OF b(3)] ty show ?thesis by simp
    next
      case 5
      with Suc.prems(1) t show ?thesis
        by (simp only: layout_user [OF 5(1-3)] option.case) (simp add: backend_error_def)
    qed
  qed
qed simp

end

lemma foldl_dict_get:
  "distinct (map fst kvs) \<Longrightarrow> map_of (foldl (\<lambda>d (k, v). dict_set k (f k v) d) d kvs) x =
     (case map_of kvs x of Some v \<Rightarrow> Some (f x v) | None \<Rightarrow> map_of d x)"
proof (induction kvs arbitrary: d)
  case (Cons kv kvs)
  then show ?case
    by (cases kv) (auto split: option.splits simp: map_of_eq_None_iff image_iff dest: map_of_SomeD)
qed simp

text \<open>
  C23: the size and the alignment the compiler computes for a type are those LLVM gives to the
  type it emits for it: after \<open>register_structs\<close>, for every target data layout with the documented
  rules, in which each identified type is laid out like the body it was given.
\<close>

theorem layout_agrees:
  assumes "register_structs structs E0 = Inr (E, bodies)" and "distinct (map fst structs)" and "env_ok E"
    and "data_layout sz al bodies"
    and "sizeof_type n E t = Inr s" and "alignof_type n E t = Inr a" and "llvm_type E t = Inr ty"
  shows "sz ty = s \<and> al ty = a"
proof -
  from assms(1) have E: "E = E0\<lparr>STRUCT_FIELDS := foldl (\<lambda>d (name, fs). dict_set name fs d) [] structs,
      STRUCT_TYPES := foldl (\<lambda>d (name, _). dict_set name (safe_user_ident name) d) [] structs\<rparr>"
    and b: "rmap (\<lambda>(name, fs). rbind (rmap (llvm_type E) (map snd fs)) (\<lambda>tys. Inr (safe_user_ident name, tys)))
      structs = Inr bodies"
    by (auto simp: register_structs_def Let_def)
  have fs: "map_of (STRUCT_FIELDS E) x = map_of structs x" for x
    using foldl_dict_get [OF assms(2), of "\<lambda>k v. v" "[]" x] by (simp add: E split: option.splits)
  have types: "map_of (STRUCT_TYPES E) x = map_option (\<lambda>_. safe_user_ident x) (map_of structs x)" for x
    using foldl_dict_get [OF assms(2), of "\<lambda>k v. safe_user_ident k" "[]" x] by (simp add: E split: option.splits)
  show ?thesis
  proof (rule data_layout.layout_agreement [OF assms(4,3) _ _ assms(5,6,7)])
    show "\<exists>i tys. map_of (STRUCT_TYPES E) x = Some i \<and> rmap (llvm_type E) (map snd f) = Inr tys \<and> (i, tys) \<in> set bodies"
      if "map_of (STRUCT_FIELDS E) x = Some f" for x f
    proof -
      from that have m: "map_of structs x = Some f" by (simp add: fs)
      from b have "list_all2 (\<lambda>(name, fs) p. \<exists>tys. rmap (llvm_type E) (map snd fs) = Inr tys
          \<and> p = (safe_user_ident name, tys)) structs bodies"
        unfolding rmap_Inr_conv [of "\<lambda>(name, fs). rbind (f name fs) (g name)" for f g] by (rule list_all2_mono) auto
      with map_of_SomeD [OF m] obtain tys where "rmap (llvm_type E) (map snd f) = Inr tys"
        "(safe_user_ident x, tys) \<in> set bodies"
        by (fastforce simp: list_all2_conv_all_nth in_set_conv_nth)
      with m show ?thesis by (simp add: types)
    qed
    show "has_key (STRUCT_FIELDS E) x" if "map_of (STRUCT_TYPES E) x = Some i" for x i
      using that by (auto simp: types fs has_key_def)
  qed
qed

subsection \<open>The rules as an instance\<close>

text \<open>
  The documented rules, computed: \<open>ids\<close> gives size and alignment of the identified types. They are a
  \<open>data_layout\<close> for the bodies the table agrees with.
\<close>

definition lay :: "(nat \<times> nat) list \<Rightarrow> nat \<times> nat" where
  "lay ps = (struct_size fst snd ps, struct_align snd ps)"

primrec x64 :: "(string \<times> nat \<times> nat) list \<Rightarrow> irt \<Rightarrow> nat \<times> nat" where
  "x64 ids (IntType w) = ((w + 7) div 8, (w + 7) div 8)"
| "x64 ids FloatT = (4, 4)"
| "x64 ids DoubleT = (8, 8)"
| "x64 ids VoidT = (0, 1)"
| "x64 ids (Pointer t) = (8, 8)"
| "x64 ids (LiteralStruct ts) = lay (map (x64 ids) ts)"
| "x64 ids (Fn r ps) = (0, 1)"
| "x64 ids (Identified n) = (case map_of ids n of Some p \<Rightarrow> p | None \<Rightarrow> (0, 1))"

abbreviation "x64_size ids \<equiv> \<lambda>ty. fst (x64 ids ty)"
abbreviation "x64_align ids \<equiv> \<lambda>ty. snd (x64 ids ty)"

definition laid_out :: "(string \<times> nat \<times> nat) list \<Rightarrow> (string \<times> irt list) list \<Rightarrow> (string \<times> irt list) list" where
  "laid_out ids bodies = filter (\<lambda>(n, ts). map_of ids n = Some (lay (map (x64 ids) ts))) bodies"

lemma struct_end_map: "struct_end fst snd v (map f ts) = struct_end (\<lambda>t. fst (f t)) (\<lambda>t. snd (f t)) v ts"
  by (induction ts arbitrary: v) simp_all

lemma lay_map: "lay (map f ts) = (struct_size (\<lambda>t. fst (f t)) (\<lambda>t. snd (f t)) ts, struct_align (\<lambda>t. snd (f t)) ts)"
  by (simp add: lay_def struct_size_def struct_align_def struct_end_map comp_def)

interpretation x64: data_layout "x64_size ids" "x64_align ids" "laid_out ids bodies" for ids bodies
proof unfold_locales
  show "x64_size ids (IntType w) = b \<and> x64_align ids (IntType w) = b"
    if "(w, b) \<in> {(1, 1), (8, 1), (16, 2), (32, 4), (64, 8)}" for w b
    using that by auto
  show "x64_size ids (Identified n) = struct_size (x64_size ids) (x64_align ids) ts
      \<and> x64_align ids (Identified n) = struct_align (x64_align ids) ts"
    if "(n, ts) \<in> set (laid_out ids bodies)" for n ts
    using that by (simp add: laid_out_def lay_map)
qed (simp_all add: lay_map)

definition sample_structs :: "(string \<times> (string \<times> tref) list) list" where
  "sample_structs = [(''P'', [(''a'', NamedType ''i8''), (''b'', NamedType ''u64'')])]"

definition sample_bodies :: "(string \<times> irt list) list" where
  "sample_bodies = [(safe_user_ident ''P'', [IntType 8, IntType 64])]"

definition sample_ids :: "(string \<times> nat \<times> nat) list" where
  "sample_ids = [(safe_user_ident ''P'', 16, 8)]"

definition sample_base :: layout_env where
  "sample_base = \<lparr>STRUCT_FIELDS = [], STRUCT_TYPES = [], ENUM_VARIANTS = [], IFACE_METHODS = []\<rparr>"

definition sample_after :: layout_env where
  "sample_after = sample_base\<lparr>STRUCT_FIELDS := sample_structs, STRUCT_TYPES := [(''P'', safe_user_ident ''P'')]\<rparr>"

lemma sample_laid_out: "laid_out sample_ids sample_bodies = sample_bodies"
  by code_simp

lemma layout_agrees_witness:
  "x64_size sample_ids (Identified (safe_user_ident ''P'')) = 16 \<and> x64_align sample_ids (Identified (safe_user_ident ''P'')) = 8"
proof (rule layout_agrees [of sample_structs sample_base sample_after sample_bodies])
  show "register_structs sample_structs sample_base = Inr (sample_after, sample_bodies)" by code_simp
  show "distinct (map fst sample_structs)" by code_simp
  show "env_ok sample_after"
    unfolding env_ok_def sample_after_def sample_base_def sample_structs_def
    by (simp, code_simp)
  show "data_layout (x64_size sample_ids) (x64_align sample_ids) sample_bodies"
    using x64.data_layout_axioms [of sample_ids sample_bodies] by (simp add: sample_laid_out)
  show "sizeof_type 2 sample_after (NamedType ''P'') = Inr 16" by code_simp
  show "alignof_type 2 sample_after (NamedType ''P'') = Inr 8" by code_simp
  show "llvm_type sample_after (NamedType ''P'') = Inr (Identified (safe_user_ident ''P''))" by code_simp
qed

end
