(* ===== verification/Modules.thy ===== *)
theory Modules
  imports SymTab Parser Names
begin

text \<open>
  \<open>compiler/__init__.py\<close>: modules. Parsing the files of a directory, expanding its type aliases,
  loading the imported modules in dependency order, and qualifying the names of an imported module.
  A module is its files; the directories of the project and of the standard library are given by
  their names and the \<open>.nc\<close> files in them, in the order of their names.
\<close>

subsection \<open>Walking a tree\<close>

definition ropt :: "('a \<Rightarrow> 'b res) \<Rightarrow> 'a option \<Rightarrow> 'b option res" where
  "ropt f v = (case v of None \<Rightarrow> Inr None | Some x \<Rightarrow> rbind (f x) (\<lambda>y. Inr (Some y)))"

definition rblock :: "(node \<Rightarrow> node res) \<Rightarrow> node block \<Rightarrow> node block res" where
  "rblock f b = rbind (rmap f (statements b)) (\<lambda>ss. Inr (Block ss))"

definition rparam :: "(node \<Rightarrow> node res) \<Rightarrow> node param \<Rightarrow> node param res" where
  "rparam f p = rbind (ropt f (pdefault p)) (\<lambda>d. Inr (Param (pname p) (ptype p) d))"

definition rpair :: "('a \<Rightarrow> 'c res) \<Rightarrow> ('b \<Rightarrow> 'd res) \<Rightarrow> 'a \<times> 'b \<Rightarrow> ('c \<times> 'd) res" where
  "rpair f g p = rbind (f (fst p)) (\<lambda>a. rbind (g (snd p)) (\<lambda>b. Inr (a, b)))"

text \<open>
  The end of the two walks: every node in the attributes of a node, in their order, those in lists
  and in tuples of lists included, and none in the signatures of an interface.
\<close>

definition map_children :: "(node \<Rightarrow> node res) \<Rightarrow> node \<Rightarrow> node res" where
  "map_children f n =
     (case n of
        VariableDeclaration sp x init ann \<Rightarrow> rbind (f init) (\<lambda>i. Inr (VariableDeclaration sp x i ann))
      | ExpressionStatement e \<Rightarrow> rbind (f e) (\<lambda>e. Inr (ExpressionStatement e))
      | Assignment t e opr \<Rightarrow> rbind (f t) (\<lambda>t. rbind (f e) (\<lambda>e. Inr (Assignment t e opr)))
      | Update t opr \<Rightarrow> rbind (f t) (\<lambda>t. Inr (Update t opr))
      | ForCondition c b \<Rightarrow> rbind (f c) (\<lambda>c. rbind (rblock f b) (\<lambda>b. Inr (ForCondition c b)))
      | ForIn i v it b s e \<Rightarrow>
          rbind (ropt f it) (\<lambda>it. rbind (rblock f b) (\<lambda>b. rbind (ropt f s) (\<lambda>s. rbind (ropt f e) (\<lambda>e.
            Inr (ForIn i v it b s e)))))
      | ExternBlock sp lib fns \<Rightarrow> rbind (rmap f fns) (\<lambda>fns. Inr (ExternBlock sp lib fns))
      | StructLiteral sp x fs heap \<Rightarrow> rbind (rmap (rpair Inr f) fs) (\<lambda>fs. Inr (StructLiteral sp x fs heap))
      | FieldAccess obj x \<Rightarrow> rbind (f obj) (\<lambda>obj. Inr (FieldAccess obj x))
      | ArrayLiteral sp k t es \<Rightarrow> rbind (rmap f es) (\<lambda>es. Inr (ArrayLiteral sp k t es))
      | SliceLiteral sp t es \<Rightarrow> rbind (rmap f es) (\<lambda>es. Inr (SliceLiteral sp t es))
      | MapLiteral sp t kvs \<Rightarrow> rbind (rmap (rpair f f) kvs) (\<lambda>kvs. Inr (MapLiteral sp t kvs))
      | IndexAccess obj i cand \<Rightarrow> rbind (f obj) (\<lambda>obj. rbind (f i) (\<lambda>i. Inr (IndexAccess obj i cand)))
      | SliceExpr obj s e \<Rightarrow>
          rbind (f obj) (\<lambda>obj. rbind (f s) (\<lambda>s. rbind (ropt f e) (\<lambda>e. Inr (SliceExpr obj s e))))
      | ErrReturn sp e \<Rightarrow> rbind (f e) (\<lambda>e. Inr (ErrReturn sp e))
      | Defer sp b \<Rightarrow> rbind (rblock f b) (\<lambda>b. Inr (Defer sp b))
      | SpawnStmt sp e \<Rightarrow> rbind (f e) (\<lambda>e. Inr (SpawnStmt sp e))
      | TryStatement sp c sb sn en eb \<Rightarrow>
          rbind (f c) (\<lambda>c. rbind (rblock f sb) (\<lambda>sb. rbind (ropt (rblock f) eb) (\<lambda>eb.
            Inr (TryStatement sp c sb sn en eb))))
      | FunctionDeclaration x ps ret b rn rt r1 tps tcs r2 lib ext esym \<Rightarrow>
          rbind (rmap (rparam f) ps) (\<lambda>ps. rbind (rblock f b) (\<lambda>b.
            Inr (FunctionDeclaration x ps ret b rn rt r1 tps tcs r2 lib ext esym)))
      | FunctionExpr sp ps ret b r1 r2 \<Rightarrow>
          rbind (rmap (rparam f) ps) (\<lambda>ps. rbind (rblock f b) (\<lambda>b. Inr (FunctionExpr sp ps ret b r1 r2)))
      | Return sp e \<Rightarrow> rbind (ropt f e) (\<lambda>e. Inr (Return sp e))
      | FallibleOp sp e opr \<Rightarrow> rbind (f e) (\<lambda>e. Inr (FallibleOp sp e opr))
      | ErrorHandlerExpr sp e x b \<Rightarrow> rbind (f e) (\<lambda>e. rbind (rblock f b) (\<lambda>b. Inr (ErrorHandlerExpr sp e x b)))
      | ErrorMatchExpr sp e x arms \<Rightarrow>
          rbind (f e) (\<lambda>e. rbind (rmap (rpair (ropt f) f) arms) (\<lambda>arms. Inr (ErrorMatchExpr sp e x arms)))
      | IfExpr sp c t e \<Rightarrow>
          rbind (f c) (\<lambda>c. rbind (rblock f t) (\<lambda>t. rbind (ropt (rblock f) e) (\<lambda>e. Inr (IfExpr sp c t e))))
      | BlockExpr sp b \<Rightarrow> rbind (rblock f b) (\<lambda>b. Inr (BlockExpr sp b))
      | MatchExpr sp e arms \<Rightarrow>
          rbind (f e) (\<lambda>e. rbind (rmap (rpair (ropt f) f) arms) (\<lambda>arms. Inr (MatchExpr sp e arms)))
      | InterpolatedString sp ps \<Rightarrow> rbind (rmap f ps) (\<lambda>ps. Inr (InterpolatedString sp ps))
      | BinaryOp l opr r \<Rightarrow> rbind (f l) (\<lambda>l. rbind (f r) (\<lambda>r. Inr (BinaryOp l opr r)))
      | UnaryOp opr e \<Rightarrow> rbind (f e) (\<lambda>e. Inr (UnaryOp opr e))
      | FunctionCall sp x as targs \<Rightarrow> rbind (rmap f as) (\<lambda>as. Inr (FunctionCall sp x as targs))
      | MethodCall sp obj x as \<Rightarrow> rbind (f obj) (\<lambda>obj. rbind (rmap f as) (\<lambda>as. Inr (MethodCall sp obj x as)))
      | _ \<Rightarrow> Inr n)"

lemma ropt_cong [fundef_cong]: "v = v' \<Longrightarrow> (\<And>x. v' = Some x \<Longrightarrow> f x = g x) \<Longrightarrow> ropt f v = ropt g v'"
  by (cases v') (simp_all add: ropt_def)

lemma rblock_cong [fundef_cong]:
  "b = b' \<Longrightarrow> (\<And>x. x \<in> set (statements b') \<Longrightarrow> f x = g x) \<Longrightarrow> rblock f b = rblock g b'"
  unfolding rblock_def by (auto intro!: rbind_cong rmap_cong)

lemma rpair_cong [fundef_cong]:
  "p = p' \<Longrightarrow> f (fst p') = f' (fst p') \<Longrightarrow> g (snd p') = g' (snd p') \<Longrightarrow> rpair f g p = rpair f' g' p'"
  unfolding rpair_def by (auto intro!: rbind_cong)

lemma rparam_cong [fundef_cong]:
  "p = p' \<Longrightarrow> (\<And>x. pdefault p' = Some x \<Longrightarrow> f x = g x) \<Longrightarrow> rparam f p = rparam g p'"
  unfolding rparam_def by (auto intro!: rbind_cong ropt_cong)

lemma param_size: "p \<in> set ps \<Longrightarrow> pdefault p = Some d \<Longrightarrow> size d < size_list (size_param size) ps"
proof (induction ps)
  case (Cons q ps)
  then show ?case by (cases q) auto
qed simp

lemma map_children_cong [fundef_cong]:
  assumes "n = n'" and "\<And>m. size m < size n' \<Longrightarrow> f m = g m"
  shows "map_children f n = map_children g n'"
proof -
  have block: "size_block size b < size n' \<Longrightarrow> rblock f b = rblock g b" for b
    by (rule rblock_cong [OF refl], rule assms(2)) (auto dest: list_size)
  have list: "size_list size es < size n' \<Longrightarrow> rmap f es = rmap g es" for es
    by (rule rmap_cong [OF refl], rule assms(2)) (auto dest: list_size)
  have opt: "size_option size v < size n' \<Longrightarrow> ropt f v = ropt g v" for v
    by (rule ropt_cong [OF refl], rule assms(2)) auto
  have optblock: "size_option (size_block size) v < size n' \<Longrightarrow> ropt (rblock f) v = ropt (rblock g) v" for v
    by (rule ropt_cong [OF refl], rule block) auto
  have params: "size_list (size_param size) ps < size n' \<Longrightarrow> rmap (rparam f) ps = rmap (rparam g) ps" for ps
    by (rule rmap_cong [OF refl], rule rparam_cong [OF refl], rule assms(2)) (auto dest: param_size)
  have arms: "size_list (size_prod (size_option size) size) as < size n' \<Longrightarrow>
      rmap (rpair (ropt f) f) as = rmap (rpair (ropt g) g) as" for as
  proof (rule rmap_cong [OF refl], rule rpair_cong [OF refl])
    fix p assume as: "size_list (size_prod (size_option size) size) as < size n'" "p \<in> set as"
    show "f (snd p) = g (snd p)" using as arm_size(1) [of "fst p" "snd p" as] by (intro assms(2)) simp
    show "ropt f (fst p) = ropt g (fst p)"
      using as by (cases p) (auto intro!: ropt_cong assms(2) dest!: arm_size(2))
  qed
  have entries: "size_list (size_prod size size) es < size n' \<Longrightarrow> rmap (rpair f f) es = rmap (rpair g g) es" for es
    by (rule rmap_cong [OF refl], rule rpair_cong [OF refl]) (auto intro!: assms(2) dest: entry_size)
  have fields: "size_list (size_prod (\<lambda>_. 0) size) es < size n' \<Longrightarrow>
      rmap (rpair Inr f) es = rmap (rpair Inr g) es" for es :: "(string \<times> node) list"
    by (rule rmap_cong [OF refl], rule rpair_cong [OF refl]) (auto intro!: assms(2) dest: field_size)
  have sb: "size_block size = (\<lambda>b :: node block. Suc (size_list size (statements b)))"
    by (rule ext) simp
  show ?thesis
    unfolding assms(1)
    by (cases n') (simp_all add: map_children_def block list opt optblock [unfolded sb] params arms entries fields
        assms(2))
qed

subsection \<open>Type aliases\<close>

text \<open>
  \<open>_expand_type_str\<close>: \<open>stack\<close> holds the aliases being expanded, all of them different, so the depth
  is bounded by the number of aliases.
\<close>

primrec expand_type :: "nat \<Rightarrow> (string \<times> tref) list \<Rightarrow> string list \<Rightarrow> tref \<Rightarrow> tref res" where
  "expand_type 0 aliases stack t = Inl OutOfFuel"
| "expand_type (Suc n) aliases stack t =
     rewrite_type_ref (\<lambda>name.
       case map_of aliases name of
         None \<Rightarrow> Inr (ReplText name)
       | Some target \<Rightarrow>
           if name \<in> set stack then Inl (RuntimeError (''type alias cycle: '' @ join '' -> '' (stack @ [name])))
           else rbind (expand_type n aliases (stack @ [name]) target) (\<lambda>r. Inr (ReplType r))) t"

definition expand_alias :: "(string \<times> tref) list \<Rightarrow> tref \<Rightarrow> tref res" where
  "expand_alias aliases t = expand_type (length aliases + 2) aliases [] t"

definition collect_aliases :: "node list \<Rightarrow> (string \<times> tref) list \<Rightarrow> (string \<times> tref) list res" where
  "collect_aliases = rfold (\<lambda>stmt aliases.
     case stmt of
       TypeAlias _ name target \<Rightarrow>
         if has_key aliases name then Inl (RuntimeError (''duplicate type alias '' @ name))
         else Inr (dict_set name target aliases)
     | _ \<Rightarrow> Inr aliases)"

fun is_alias :: "node \<Rightarrow> bool" where
  "is_alias (TypeAlias _ _ _) = True"
| "is_alias _ = False"

definition param_types :: "(tref \<Rightarrow> tref res) \<Rightarrow> node param list \<Rightarrow> node param list res" where
  "param_types X = rmap (\<lambda>p. rbind (ropt X (ptype p)) (\<lambda>t. Inr (Param (pname p) t (pdefault p))))"

definition iface_types ::
  "(tref \<Rightarrow> tref res) \<Rightarrow> (string \<times> node param list \<times> tref \<times> bool) list \<Rightarrow>
     (string \<times> node param list \<times> tref \<times> bool) list res" where
  "iface_types X = rmap (\<lambda>(m, ps, ret, fallible).
     rbind (param_types X ps) (\<lambda>ps. rbind (X ret) (\<lambda>ret. Inr (m, ps, ret, fallible))))"

text \<open>
  What the walk does to the attributes of one node. The name of a struct literal is the text of a
  type.
\<close>

fun expand_attrs :: "(tref \<Rightarrow> tref res) \<Rightarrow> node \<Rightarrow> node res" where
  "expand_attrs X (FunctionDeclaration x ps ret b rn rt r1 tps tcs r2 lib ext esym) =
     rbind (param_types X ps) (\<lambda>ps. rbind (ropt X ret) (\<lambda>ret. rbind (ropt X rt) (\<lambda>rt.
       Inr (FunctionDeclaration x ps ret b rn rt r1 tps tcs r2 lib ext esym))))"
| "expand_attrs X (StructDecl x fs tps tcs es) =
     rbind (rmap (rpair Inr X) fs) (\<lambda>fs. Inr (StructDecl x fs tps tcs es))"
| "expand_attrs X (IfaceDecl x ms es) =
     rbind (iface_types X ms) (\<lambda>ms. rbind (rmap X es) (\<lambda>es. Inr (IfaceDecl x ms es)))"
| "expand_attrs X (FunctionExpr sp ps ret b r1 r2) =
     rbind (param_types X ps) (\<lambda>ps. rbind (ropt X ret) (\<lambda>ret. Inr (FunctionExpr sp ps ret b r1 r2)))"
| "expand_attrs X (StructLiteral sp x fs heap) =
     rbind (parse_type_ref x) (\<lambda>t. rbind (X t) (\<lambda>t. Inr (StructLiteral sp (format_type_ref t) fs heap)))"
| "expand_attrs X (MapLiteral sp t kvs) = rbind (ropt X t) (\<lambda>t. Inr (MapLiteral sp t kvs))"
| "expand_attrs X (FunctionCall sp x as targs) =
     rbind (rmap X targs) (\<lambda>targs. Inr (FunctionCall sp x as targs))"
| "expand_attrs X (GenericFunctionValue x targs) = rbind (rmap X targs) (\<lambda>targs. Inr (GenericFunctionValue x targs))"
| "expand_attrs X (IndexAccess obj i cand) = rbind (ropt (rmap X) cand) (\<lambda>cand. Inr (IndexAccess obj i cand))"
| "expand_attrs X (SizeOfType sp t) = rbind (X t) (\<lambda>t. Inr (SizeOfType sp t))"
| "expand_attrs X (VariableDeclaration sp x init ann) =
     rbind (ropt X ann) (\<lambda>ann. Inr (VariableDeclaration sp x init ann))"
| "expand_attrs X (ArrayLiteral sp k t es) = rbind (X t) (\<lambda>t. Inr (ArrayLiteral sp k t es))"
| "expand_attrs X (SliceLiteral sp t es) = rbind (ropt X t) (\<lambda>t. Inr (SliceLiteral sp t es))"
| "expand_attrs X n = Inr n"

lemma param_types_size:
  "param_types X ps = Inr qs \<Longrightarrow> size_list (size_param size) qs = size_list (size_param size) ps"
proof (induction ps arbitrary: qs)
  case (Cons p ps)
  then show ?case by (cases p) (auto simp: param_types_def)
qed (simp add: param_types_def)

lemma iface_types_size:
  "iface_types X ms = Inr ns \<Longrightarrow>
     size_list (size_prod (\<lambda>_. 0) (size_prod (size_list (size_param size)) (\<lambda>_. 0))) ns =
     size_list (size_prod (\<lambda>_. 0) (size_prod (size_list (size_param size)) (\<lambda>_. 0))) ms"
  by (induction ms arbitrary: ns) (auto simp: iface_types_def dest: param_types_size)

lemma expand_attrs_size: "expand_attrs X n = Inr m \<Longrightarrow> size m = size n"
  by (cases n) (auto dest: param_types_size iface_types_size)

function expand_node :: "(tref \<Rightarrow> tref res) \<Rightarrow> node \<Rightarrow> node res" where
  "expand_node X n = rbind (expand_attrs X n) (map_children (expand_node X))"
  by pat_completeness auto
termination
  by (relation "measure (\<lambda>(X, n). size n)") (auto dest: expand_attrs_size)

declare expand_node.simps [simp del]

subsection \<open>Modules\<close>

record source_file =
  sf_path :: string
  sf_ast :: "node list"

record module =
  m_name :: string
  m_trusted :: bool
  m_files :: "source_file list"

definition module_stmts :: "module \<Rightarrow> node list" where
  "module_stmts m = concat (map sf_ast (m_files m))"

definition map_asts :: "(node list \<Rightarrow> node list res) \<Rightarrow> module \<Rightarrow> module res" where
  "map_asts f m =
     rbind (rmap (\<lambda>sf. rbind (f (sf_ast sf)) (\<lambda>ast. Inr (sf\<lparr>sf_ast := ast\<rparr>))) (m_files m))
       (\<lambda>fs. Inr (m\<lparr>m_files := fs\<rparr>))"

definition expand_type_aliases_in_module :: "module \<Rightarrow> module res" where
  "expand_type_aliases_in_module m =
     rbind (collect_aliases (module_stmts m) []) (\<lambda>aliases.
     rbind (map_asts (\<lambda>ast. Inr (filter (\<lambda>s. \<not> is_alias s) ast)) m) (\<lambda>m.
       if aliases = [] then Inr m
       else
         rbind (rmap (\<lambda>(name, _). expand_alias aliases (NamedType name)) aliases) (\<lambda>_.
           map_asts (rmap (expand_node (expand_alias aliases))) m)))"

text \<open>
  \<open>parse_module_sources\<close> for the sources of a directory of this name. What \<open>trusted_stdlib\<close> sets on
  the external functions and \<open>annotate_source_file\<close> on every node is kept once, with the module.
\<close>

definition parse_module_sources :: "string \<Rightarrow> bool \<Rightarrow> (string \<times> string) list \<Rightarrow> module res" where
  "parse_module_sources name trusted sources =
     rbind (rmap (\<lambda>(path, text). rbind (lex text) (\<lambda>tokens. Inr (path, tokens))) sources) (\<lambda>token_lists.
       let imported = fold (\<lambda>(_, tokens) ms. fold List.insert (scan_imports tokens) ms) token_lists []
       in rbind (rmap (\<lambda>(path, tokens). rbind (parse tokens imported)
              (\<lambda>ast. Inr \<lparr>sf_path = path, sf_ast = ast\<rparr>)) token_lists) (\<lambda>files.
          expand_type_aliases_in_module \<lparr>m_name = name, m_trusted = trusted, m_files = files\<rparr>))"

definition module_imports :: "module \<Rightarrow> string list" where
  "module_imports m = List.map_filter (\<lambda>s. case s of ImportDecl _ name \<Rightarrow> Some name | _ \<Rightarrow> None) (module_stmts m)"

subsection \<open>Qualified names\<close>

fun declared_names :: "node \<Rightarrow> string list" where
  "declared_names (FunctionDeclaration x _ _ _ rn _ _ _ _ _ _ _ _) = (case rn of None \<Rightarrow> [x] | Some _ \<Rightarrow> [])"
| "declared_names (StructDecl x _ _ _ _) = [x]"
| "declared_names (IfaceDecl x _ _) = [x]"
| "declared_names (EnumDecl x _) = [x]"
| "declared_names (ExternBlock _ _ fns) =
     concat (map (\<lambda>fn. case fn of FunctionDeclaration x _ _ _ _ _ _ _ _ _ _ _ _ \<Rightarrow> [x] | _ \<Rightarrow> []) fns)"
| "declared_names _ = []"

definition top_names :: "module \<Rightarrow> string list" where
  "top_names m = concat (map declared_names (module_stmts m))"

definition qual_name :: "string \<Rightarrow> string list \<Rightarrow> string \<Rightarrow> string" where
  "qual_name module_name local_names name =
     (if CHR ''.'' \<notin> set name \<and> name \<in> set local_names then module_name @ ''.'' @ name else name)"

definition qual_type :: "string \<Rightarrow> string list \<Rightarrow> tref \<Rightarrow> tref res" where
  "qual_type module_name local_names t =
     rewrite_type_ref (\<lambda>name. Inr (ReplText (qual_name module_name local_names name))) t"

text \<open>What the walk of \<open>_rewrite_module_names\<close> does to the attributes of one node.\<close>

fun qualify_attrs :: "(string \<Rightarrow> string) \<Rightarrow> (tref \<Rightarrow> tref res) \<Rightarrow> node \<Rightarrow> node res" where
  "qualify_attrs q Q (FunctionDeclaration x ps ret b rn rt r1 tps tcs r2 lib ext esym) =
     rbind (ropt Q ret) (\<lambda>ret. rbind (param_types Q ps) (\<lambda>ps. rbind (ropt Q rt) (\<lambda>rt.
       Inr (FunctionDeclaration (if rn = None then q x else x) ps ret b rn rt r1 tps tcs r2 lib ext esym))))"
| "qualify_attrs q Q (StructDecl x fs tps tcs es) =
     rbind (rmap (rpair Inr Q) fs) (\<lambda>fs. Inr (StructDecl (q x) fs tps tcs es))"
| "qualify_attrs q Q (IfaceDecl x ms es) =
     rbind (iface_types Q ms) (\<lambda>ms. rbind (rmap Q es) (\<lambda>es. Inr (IfaceDecl (q x) ms es)))"
| "qualify_attrs q Q (EnumDecl x vs) = Inr (EnumDecl (q x) vs)"
| "qualify_attrs q Q (ExternBlock sp lib fns) =
     rbind (rmap (\<lambda>fn. case fn of
         FunctionDeclaration x ps ret b rn rt r1 tps tcs r2 lib ext esym \<Rightarrow>
           rbind (ropt Q ret) (\<lambda>ret. rbind (param_types Q ps) (\<lambda>ps.
             Inr (FunctionDeclaration (q x) ps ret b rn rt r1 tps tcs r2 lib ext esym)))
       | _ \<Rightarrow> Inl AttributeError) fns) (\<lambda>fns. Inr (ExternBlock sp lib fns))"
| "qualify_attrs q Q (FunctionExpr sp ps ret b r1 r2) =
     rbind (ropt Q ret) (\<lambda>ret. rbind (param_types Q ps) (\<lambda>ps. Inr (FunctionExpr sp ps ret b r1 r2)))"
| "qualify_attrs q Q (FunctionCall sp x as targs) = Inr (FunctionCall sp (q x) as targs)"
| "qualify_attrs q Q (GenericFunctionValue x targs) =
     rbind (rmap Q targs) (\<lambda>targs. Inr (GenericFunctionValue (q x) targs))"
| "qualify_attrs q Q (IndexAccess obj i cand) = rbind (ropt (rmap Q) cand) (\<lambda>cand. Inr (IndexAccess obj i cand))"
| "qualify_attrs q Q (SizeOfType sp t) = rbind (Q t) (\<lambda>t. Inr (SizeOfType sp t))"
| "qualify_attrs q Q (Identifier sp x targs) = Inr (Identifier sp (q x) targs)"
| "qualify_attrs q Q (StructLiteral sp x fs heap) = Inr (StructLiteral sp (q x) fs heap)"
| "qualify_attrs q Q (MapLiteral sp t kvs) = rbind (ropt Q t) (\<lambda>t. Inr (MapLiteral sp t kvs))"
| "qualify_attrs q Q (EnumRef x v) = Inr (EnumRef (q x) v)"
| "qualify_attrs q Q n = Inr n"

lemma qualify_extern_size:
  "rmap (\<lambda>fn. case fn of
         FunctionDeclaration x ps ret b rn rt r1 tps tcs r2 lib ext esym \<Rightarrow>
           rbind (ropt Q ret) (\<lambda>ret. rbind (param_types Q ps) (\<lambda>ps.
             Inr (FunctionDeclaration (q x) ps ret b rn rt r1 tps tcs r2 lib ext esym)))
       | _ \<Rightarrow> Inl AttributeError) fns = Inr gns \<Longrightarrow> size_list size gns = size_list size fns"
  by (induction fns arbitrary: gns) (auto split: node.splits dest: param_types_size)

lemma qualify_attrs_size: "qualify_attrs q Q n = Inr m \<Longrightarrow> size m = size n"
  by (cases n) (auto dest: param_types_size iface_types_size qualify_extern_size)

function qualify_node :: "(string \<Rightarrow> string) \<Rightarrow> (tref \<Rightarrow> tref res) \<Rightarrow> node \<Rightarrow> node res" where
  "qualify_node q Q n = rbind (qualify_attrs q Q n) (map_children (qualify_node q Q))"
  by pat_completeness auto
termination
  by (relation "measure (\<lambda>(q, Q, n). size n)") (auto dest: qualify_attrs_size)

declare qualify_node.simps [simp del]

definition rewrite_module_names :: "module \<Rightarrow> bool \<Rightarrow> module res" where
  "rewrite_module_names m is_entry =
     (if is_entry then Inr m
      else map_asts (rmap (qualify_node (qual_name (m_name m) (top_names m)) (qual_type (m_name m) (top_names m)))) m)"

subsection \<open>Loading\<close>

definition STDLIB_SOURCE_MODULES :: "string list" where
  "STDLIB_SOURCE_MODULES = [''fs'', ''os'', ''strings'', ''strconv'', ''math'', ''sort'', ''linux'', ''json'', ''sync'']"

definition BUILTIN_MODULES :: "string list" where
  "BUILTIN_MODULES = [''io'', ''runtime'', ''fs'', ''os'', ''strings'', ''strconv'', ''math'', ''sort'', ''types'',
     ''linux'', ''json'']"

text \<open>
  The directories: those beside the entry directory, those of the standard library, and the names
  of the modules of the latter that have a C file. \<open>os.listdir\<close> fails on a missing directory of the
  standard library; the model has \<open>KeyError\<close> for that \<open>OSError\<close>.
\<close>

record project =
  pr_dirs :: "(string \<times> (string \<times> string) list) list"
  pr_stdlib :: "(string \<times> (string \<times> string) list) list"
  pr_support :: "string list"

record load_state =
  ld_loaded :: "string list"
  ld_order :: "module list"
  ld_support :: "string list"

definition add_stdlib_support_c :: "project \<Rightarrow> string \<Rightarrow> load_state \<Rightarrow> load_state" where
  "add_stdlib_support_c P name st =
     (if name \<notin> set (pr_support P) \<or> name \<in> set (ld_support st) then st
      else st\<lparr>ld_support := ld_support st @ [name]\<rparr>)"

definition find_module :: "project \<Rightarrow> string \<Rightarrow> string \<Rightarrow> module option res" where
  "find_module P tgt name =
     (if name = ''linux'' \<and> tgt \<noteq> ''linux-x64''
      then Inl (RuntimeError ''module linux is only available for target linux-x64'')
      else if name \<in> set STDLIB_SOURCE_MODULES then
        (case map_of (pr_stdlib P) name of
           None \<Rightarrow> Inl KeyError
         | Some files \<Rightarrow> rbind (parse_module_sources name True files) (\<lambda>m. Inr (Some m)))
      else if name \<in> set BUILTIN_MODULES then Inr None
      else
        (case map_of (pr_dirs P) name of
           None \<Rightarrow> Inl (RuntimeError (''module '' @ name @ '' not found''))
         | Some [] \<Rightarrow> Inl (RuntimeError (''module '' @ name @ '' has no .nc files''))
         | Some files \<Rightarrow> rbind (parse_module_sources name False files) (\<lambda>m. Inr (Some m))))"

definition load_import ::
  "(module \<Rightarrow> load_state \<Rightarrow> load_state res) \<Rightarrow> project \<Rightarrow> string \<Rightarrow> string \<Rightarrow> load_state \<Rightarrow> load_state res" where
  "load_import load P tgt name st =
     rbind (find_module P tgt name) (\<lambda>found. case found of
         None \<Rightarrow> Inr st
       | Some child \<Rightarrow>
           load child (if name \<in> set STDLIB_SOURCE_MODULES then add_stdlib_support_c P name st else st))"

text \<open>
  \<open>load\<close>, with the stack of the modules being loaded: all different, and all but the entry found in
  a directory, so the depth is bounded by the number of directories.
\<close>

primrec load :: "nat \<Rightarrow> project \<Rightarrow> string \<Rightarrow> string list \<Rightarrow> module \<Rightarrow> load_state \<Rightarrow> load_state res" where
  "load 0 P tgt stack m st = Inl OutOfFuel"
| "load (Suc n) P tgt stack m st =
     (if m_name m \<in> set stack then Inl (RuntimeError (''import cycle: '' @ join '' -> '' (stack @ [m_name m])))
      else if m_name m \<in> set (ld_loaded st) then Inr st
      else
        rbind (rfold (load_import (load n P tgt (stack @ [m_name m])) P tgt) (module_imports m)
            (st\<lparr>ld_loaded := ld_loaded st @ [m_name m]\<rparr>)) (\<lambda>st.
          Inr (st\<lparr>ld_order := ld_order st @ [m]\<rparr>)))"

definition load_fuel :: "project \<Rightarrow> nat" where
  "load_fuel P = length (pr_dirs P) + length (pr_stdlib P) + 3"

definition load_project :: "project \<Rightarrow> string \<Rightarrow> module \<Rightarrow> load_state res" where
  "load_project P tgt entry =
     load (load_fuel P) P tgt [] entry \<lparr>ld_loaded = [], ld_order = [], ld_support = []\<rparr>"

text \<open>
  \<open>parse_project_sources\<close>: the target selected on this system and environment, the entry directory
  under its name with its sources. The result is the files of all modules, with the name and the
  C files.
\<close>

definition parse_project_sources ::
  "string \<Rightarrow> string option \<Rightarrow> string option \<Rightarrow> project \<Rightarrow> string \<Rightarrow> (string \<times> string) list \<Rightarrow>
     (module list \<times> string list) res" where
  "parse_project_sources system env target P entry_name sources =
     rbind (get_target system env target) (\<lambda>spec.
     rbind (parse_module_sources entry_name False sources) (\<lambda>entry.
     rbind (load_project P (target_name spec) entry) (\<lambda>st.
     rbind (rmap (\<lambda>m. rewrite_module_names m (m_name m = m_name entry)) (ld_order st)) (\<lambda>ms.
       Inr (ms, ld_support st)))))"

text \<open>\<open>to_program\<close>: the statements of all files, in the order of the modules.\<close>

definition to_program :: "module list \<Rightarrow> node list" where
  "to_program ms = concat (map module_stmts ms)"

definition link_libs :: "node list \<Rightarrow> tokval list" where
  "link_libs = List.map_filter (\<lambda>s. case s of ExternBlock _ lib _ \<Rightarrow> lib | _ \<Rightarrow> None)"

end
