(* ===== verification/ModulesProps.thy ===== *)
theory ModulesProps
  imports Modules LexerProps ParserProps TypeRefProps
begin

text \<open>
  Modules: the expansion of aliases is complete and ends, the modules are loaded in the order of
  their imports, and what qualification does to the names of an imported module.
\<close>

subsection \<open>Names in a type\<close>

fun tnames :: "tref \<Rightarrow> string set" where
  "tnames (NamedType n) = {n}"
| "tnames (PointerType r _) = tnames r"
| "tnames (SliceType r) = tnames r"
| "tnames (ArrayTypeRef _ r) = tnames r"
| "tnames (FunctionType ps r _) = \<Union> (tnames ` set ps) \<union> tnames r"
| "tnames (GenericType b as) = tnames b \<union> \<Union> (tnames ` set as)"

text \<open>A rewriting of names rewrites a type name by name, and leaves its names in the types it puts in.\<close>

lemma rewrite_names:
  "rewrite_type_ref fn t = Inr r \<Longrightarrow> x \<in> tnames r \<Longrightarrow> \<exists>y \<in> tnames t. \<exists>s. rewrite_name fn y = Inr s \<and> x \<in> tnames s"
proof (induction fn t arbitrary: r x rule: rewrite_type_ref.induct)
  case (5 fn ps r0 fallible)
  from "5.prems"(1) obtain ps' r' where p: "rmap (rewrite_type_ref fn) ps = Inr ps'" and r': "rewrite_type_ref fn r0 = Inr r'"
    and r: "r = FunctionType ps' r' fallible" by auto
  from "5.prems"(2) r consider p' where "p' \<in> set ps'" "x \<in> tnames p'" | "x \<in> tnames r'" by auto
  then show ?case
  proof cases
    case 1
    from rmap_Inr_mem [OF p 1(1)] obtain q where q: "q \<in> set ps" "rewrite_type_ref fn q = Inr p'" by blast
    from "5.IH"(1) [OF q 1(2)] q(1) show ?thesis by fastforce
  next
    case 2
    from "5.IH"(2) [OF p r' 2] show ?thesis by fastforce
  qed
next
  case (6 fn b as)
  from "6.prems"(1) obtain b' as' where b: "rewrite_type_ref fn b = Inr b'" and a: "rmap (rewrite_type_ref fn) as = Inr as'"
    and r: "r = GenericType b' as'" by auto
  from "6.prems"(2) r consider p' where "p' \<in> set as'" "x \<in> tnames p'" | "x \<in> tnames b'" by auto
  then show ?case
  proof cases
    case 1
    from rmap_Inr_mem [OF a 1(1)] obtain q where q: "q \<in> set as" "rewrite_type_ref fn q = Inr p'" by blast
    from "6.IH"(2) [OF b q 1(2)] q(1) show ?thesis by fastforce
  next
    case 2
    from "6.IH"(1) [OF b 2] show ?thesis by fastforce
  qed
qed auto

lemma rewrite_succeeds:
  "(\<And>y. y \<in> tnames t \<Longrightarrow> \<exists>s. rewrite_name fn y = Inr s) \<Longrightarrow> \<exists>r. rewrite_type_ref fn t = Inr r"
proof (induction fn t rule: rewrite_type_ref.induct)
  case (5 fn ps r0 fallible)
  have "\<exists>p'. rewrite_type_ref fn p = Inr p'" if "p \<in> set ps" for p
    using "5.IH"(1) [OF that] "5.prems" that by auto
  then have "\<exists>ps'. rmap (rewrite_type_ref fn) ps = Inr ps'"
    by (induction ps) auto
  moreover from this "5.IH"(2) "5.prems" have "\<exists>r'. rewrite_type_ref fn r0 = Inr r'" by auto
  ultimately show ?case by auto
next
  case (6 fn b as)
  from "6.IH"(1) "6.prems" obtain b' where b: "rewrite_type_ref fn b = Inr b'" by auto
  have "\<exists>p'. rewrite_type_ref fn p = Inr p'" if "p \<in> set as" for p
    using "6.IH"(2) [OF b that] "6.prems" that by auto
  then have "\<exists>as'. rmap (rewrite_type_ref fn) as = Inr as'"
    by (induction as) auto
  with b show ?case by auto
qed auto

lemma rewrite_fails:
  "rewrite_type_ref fn t = Inl e \<Longrightarrow> \<exists>y \<in> tnames t. rewrite_name fn y = Inl e"
proof (induction fn t rule: rewrite_type_ref.induct)
  case (5 fn ps r0 fallible)
  from "5.prems" consider "rmap (rewrite_type_ref fn) ps = Inl e"
    | ps' where "rmap (rewrite_type_ref fn) ps = Inr ps'" "rewrite_type_ref fn r0 = Inl e"
    by (auto simp: rbind_eq_Inl)
  then show ?case
  proof cases
    case 1
    from rmap_Inl [OF 1] obtain q where q: "q \<in> set ps" "rewrite_type_ref fn q = Inl e" by blast
    from "5.IH"(1) [OF q] q(1) show ?thesis by fastforce
  next
    case 2
    from "5.IH"(2) [OF 2] show ?thesis by auto
  qed
next
  case (6 fn b as)
  from "6.prems" consider "rewrite_type_ref fn b = Inl e"
    | b' where "rewrite_type_ref fn b = Inr b'" "rmap (rewrite_type_ref fn) as = Inl e"
    by (auto simp: rbind_eq_Inl)
  then show ?case
  proof cases
    case 1
    from "6.IH"(1) [OF 1] show ?thesis by auto
  next
    case 2
    from rmap_Inl [OF 2(2)] obtain q where q: "q \<in> set as" "rewrite_type_ref fn q = Inl e" by blast
    from "6.IH"(2) [OF 2(1) q] q(1) show ?thesis by fastforce
  qed
qed (auto simp: rbind_eq_Inl)

subsection \<open>Aliases\<close>

lemma eq_text_name: "type_name_ok x \<Longrightarrow> eq_text r x = Inr (r = NamedType x)"
proof -
  assume ok: "type_name_ok x"
  then have "eq_text r x = Inr (type_key r = x)"
    by (simp add: eq_text_def type_key_text_def read_name)
  moreover have "type_key r = x \<longleftrightarrow> r = NamedType x"
    using key_not_name [of r] ok by (cases "\<exists>n. r = NamedType n") (auto simp: type_key_def)
  ultimately show ?thesis by simp
qed

definition aliases_ok :: "(string \<times> tref) list \<Rightarrow> bool" where
  "aliases_ok A \<longleftrightarrow> (\<forall>x \<in> fst ` set A. type_name_ok x)"

abbreviation expand_name :: "nat \<Rightarrow> (string \<times> tref) list \<Rightarrow> string list \<Rightarrow> string \<Rightarrow> replacement res" where
  "expand_name n A stack \<equiv> (\<lambda>name.
       case map_of A name of
         None \<Rightarrow> Inr (ReplText name)
       | Some target \<Rightarrow>
           if name \<in> set stack then Inl (RuntimeError (''type alias cycle: '' @ join '' -> '' (stack @ [name])))
           else rbind (expand_type n A (stack @ [name]) target) (\<lambda>r. Inr (ReplType r)))"

lemma expand_no_alias:
  "aliases_ok A \<Longrightarrow> expand_type n A stack t = Inr r \<Longrightarrow> x \<in> tnames r \<Longrightarrow> map_of A x = None"
proof (induction n arbitrary: stack t r x)
  case (Suc n)
  from rewrite_names [of "expand_name n A stack", OF _ Suc.prems(3)] Suc.prems(2) obtain y s where
    s: "rewrite_name (expand_name n A stack) y = Inr s" "x \<in> tnames s"
    unfolding expand_type.simps by blast
  show ?case
  proof (cases "map_of A y")
    case None
    with s show ?thesis by (auto simp: rewrite_name_def)
  next
    case (Some target)
    with s(1) obtain r' where r': "expand_type n A (stack @ [y]) target = Inr r'"
      and eq: "rbind (eq_text r' y) (\<lambda>eq. Inr (if eq then NamedType y else r')) = Inr s"
      by (auto simp: rewrite_name_def split: if_splits)
    have "type_name_ok y"
      using Suc.prems(1) imageI [OF map_of_SomeD [OF Some], of fst] unfolding aliases_ok_def fst_conv by blast
    with eq have "s = r'" by (auto simp: eq_text_name split: if_splits)
    with s(2) show ?thesis using Suc.IH [OF Suc.prems(1) r'] by simp
  qed
qed simp

text \<open>The model's own exception is not raised: a result that is not \<open>OutOfFuel\<close>, and what keeps it so.\<close>

definition nofuel :: "'a res \<Rightarrow> bool" where
  "nofuel r \<longleftrightarrow> r \<noteq> Inl OutOfFuel"

lemma nofuel_simps [simp]: "nofuel (Inr x)" "nofuel (Inl e) \<longleftrightarrow> e \<noteq> OutOfFuel"
  by (simp_all add: nofuel_def)

lemma nofuel_rbind: "nofuel m \<Longrightarrow> (\<And>x. m = Inr x \<Longrightarrow> nofuel (f x)) \<Longrightarrow> nofuel (rbind m f)"
  by (cases m) auto

lemma nofuel_rmap: "(\<And>x. x \<in> set xs \<Longrightarrow> nofuel (f x)) \<Longrightarrow> nofuel (rmap f xs)"
  by (induction xs) (auto intro!: nofuel_rbind)

lemma nofuel_rfold: "(\<And>x u. x \<in> set xs \<Longrightarrow> nofuel (f x u)) \<Longrightarrow> nofuel (rfold f xs s)"
  by (induction xs arbitrary: s) (auto intro!: nofuel_rbind)

lemma nofuel_ropt: "(\<And>x. v = Some x \<Longrightarrow> nofuel (f x)) \<Longrightarrow> nofuel (ropt f v)"
  by (cases v) (auto simp: ropt_def intro!: nofuel_rbind)

lemma nofuel_rpair: "nofuel (f (fst p)) \<Longrightarrow> nofuel (g (snd p)) \<Longrightarrow> nofuel (rpair f g p)"
  by (auto simp: rpair_def intro!: nofuel_rbind)

lemma nofuel_parse_type: "nofuel (parse_type_ref s)"
  using parse_type_ref_exn [of s] by (cases "parse_type_ref s") (auto simp: type_exn_def)

lemma nofuel_eq_text: "nofuel (eq_text r n)"
  using nofuel_parse_type [of n]
  by (cases "parse_type_ref n") (auto simp: eq_text_def type_key_text_def split: exn.splits)

lemma nofuel_rewrite: "(\<And>y. nofuel (fn y)) \<Longrightarrow> nofuel (rewrite_type_ref fn t)"
proof -
  assume fn: "\<And>y. nofuel (fn y)"
  have "nofuel (rewrite_name fn y)" for y
    using fn [of y] nofuel_parse_type nofuel_eq_text
    by (auto simp: rewrite_name_def intro!: nofuel_rbind split: replacement.splits)
  then show ?thesis using rewrite_fails [of fn t OutOfFuel] by (auto simp: nofuel_def)
qed

lemma expand_fuel:
  "distinct stack \<Longrightarrow> set stack \<subseteq> fst ` set A \<Longrightarrow> length A < n + length stack \<Longrightarrow>
     nofuel (expand_type n A stack t)"
proof (induction n arbitrary: stack t)
  case 0
  have "length stack = card (set stack)" using 0 by (simp add: distinct_card)
  also have "\<dots> \<le> card (fst ` set A)" using 0 by (simp add: card_mono)
  also have "\<dots> \<le> length A" using card_image_le [of "set A" fst] card_length [of A] by simp
  finally show ?case using 0 by simp
next
  case (Suc n)
  have "nofuel (expand_type n A (stack @ [y]) target)" if "map_of A y = Some target" "y \<notin> set stack" for y target
    using that(2) Suc.prems imageI [OF map_of_SomeD [OF that(1)], of fst] by (intro Suc.IH) auto
  then show ?case
    unfolding expand_type.simps by (intro nofuel_rewrite) (auto intro!: nofuel_rbind split: option.splits)
qed

lemma nofuel_alias: "nofuel (expand_alias A t)"
  unfolding expand_alias_def by (rule expand_fuel) simp_all

text \<open>
  C30: the expansion of type aliases is complete and ends: no name of an expanded type is an alias,
  the recursion stays within the number of aliases, and when the aliases themselves have been
  expanded without a cycle, as the first pass checks, every type of the module can be expanded.
\<close>

theorem alias_expansion:
  assumes "\<forall>x \<in> fst ` set A. type_name_ok x"
  shows "expand_alias A t \<noteq> Inl OutOfFuel
    \<and> (\<forall>r x. expand_alias A t = Inr r \<and> x \<in> tnames r \<longrightarrow> \<not> has_key A x)
    \<and> ((\<forall>x \<in> fst ` set A. \<exists>r. expand_alias A (NamedType x) = Inr r) \<longrightarrow> (\<exists>r. expand_alias A t = Inr r))"
proof (intro conjI allI impI)
  have ok: "aliases_ok A" using assms by (simp add: aliases_ok_def)
  show "expand_alias A t \<noteq> Inl OutOfFuel"
    using nofuel_alias by (simp add: nofuel_def)
  show "\<not> has_key A x" if "expand_alias A t = Inr r \<and> x \<in> tnames r" for r x
  proof -
    have "expand_type (length A + 2) A [] t = Inr r" using that by (simp only: expand_alias_def)
    from expand_no_alias [OF ok this] that show ?thesis by (simp add: has_key_def)
  qed
  assume all: "\<forall>x \<in> fst ` set A. \<exists>r. expand_alias A (NamedType x) = Inr r"
  have "\<exists>s. rewrite_name (expand_name (Suc (length A)) A []) y = Inr s" for y
  proof (cases "map_of A y")
    case None
    then show ?thesis by (simp add: rewrite_name_def)
  next
    case (Some target)
    then have "y \<in> fst ` set A" using imageI [OF map_of_SomeD [OF Some], of fst] by simp
    with all have "\<exists>r. expand_alias A (NamedType y) = Inr r" by blast
    then show ?thesis by (simp add: expand_alias_def numeral_2_eq_2)
  qed
  then show "\<exists>r. expand_alias A t = Inr r"
    using rewrite_succeeds [of t "expand_name (Suc (length A)) A []"]
    by (simp add: expand_alias_def numeral_2_eq_2)
qed

lemma alias_expansion_witness:
  "expand_alias [(''A'', PointerType (NamedType ''B'') False), (''B'', NamedType ''i32'')] (SliceType (NamedType ''A''))
     = Inr (SliceType (PointerType (NamedType ''i32'') False))
   \<and> \<not> has_key [(''A'', PointerType (NamedType ''B'') False), (''B'', NamedType ''i32'')] ''i32''"
proof -
  let ?A = "[(''A'', PointerType (NamedType ''B'') False), (''B'', NamedType ''i32'')]"
  have ok: "\<forall>x \<in> fst ` set ?A. type_name_ok x"
    by (simp add: type_name_ok_def name_char_def ident_char_def py_char_defs)
  then have "type_name_ok ''A''" "type_name_ok ''B''" by simp_all
  then have "expand_alias ?A (SliceType (NamedType ''A'')) = Inr (SliceType (PointerType (NamedType ''i32'') False))"
    by (simp add: expand_alias_def rewrite_name_def eq_text_name)
  with alias_expansion [OF ok, of "SliceType (NamedType ''A'')"] show ?thesis by fastforce
qed

subsection \<open>Loading\<close>

text \<open>The import of a name brings in a module: it is neither built in nor an error.\<close>

definition brings :: "project \<Rightarrow> string \<Rightarrow> string \<Rightarrow> bool" where
  "brings P tgt name \<longleftrightarrow> (\<exists>m. find_module P tgt name = Inr (Some m))"

definition module_names :: "module list \<Rightarrow> string set" where
  "module_names ms = m_name ` set ms"

text \<open>Every module comes after the modules it imports.\<close>

fun imports_first :: "project \<Rightarrow> string \<Rightarrow> string set \<Rightarrow> module list \<Rightarrow> bool" where
  "imports_first P tgt before [] \<longleftrightarrow> True"
| "imports_first P tgt before (m # ms) \<longleftrightarrow>
     (\<forall>name \<in> set (module_imports m). brings P tgt name \<longrightarrow> name \<in> before)
     \<and> imports_first P tgt (insert (m_name m) before) ms"

lemma imports_first_snoc:
  "imports_first P tgt before (ms @ [m]) \<longleftrightarrow> imports_first P tgt before ms
     \<and> (\<forall>name \<in> set (module_imports m). brings P tgt name \<longrightarrow> name \<in> before \<union> module_names ms)"
  by (induction ms arbitrary: before) (auto simp: module_names_def)

definition load_inv :: "project \<Rightarrow> string \<Rightarrow> string list \<Rightarrow> load_state \<Rightarrow> bool" where
  "load_inv P tgt stack st \<longleftrightarrow> imports_first P tgt {} (ld_order st)
     \<and> distinct (map m_name (ld_order st) @ stack)
     \<and> set (ld_loaded st) = module_names (ld_order st) \<union> set stack"

lemma map_asts_name: "map_asts f m = Inr m' \<Longrightarrow> m_name m' = m_name m"
  by (auto simp: map_asts_def)

lemma parse_module_name: "parse_module_sources name b files = Inr m \<Longrightarrow> m_name m = name"
  by (auto simp: parse_module_sources_def expand_type_aliases_in_module_def Let_def dest!: map_asts_name
      split: if_splits)

lemma find_module_name: "find_module P tgt name = Inr (Some m) \<Longrightarrow> m_name m = name"
  by (auto simp: find_module_def dest!: parse_module_name split: if_splits option.splits list.splits)

lemma load_inv_support: "load_inv P tgt stack (add_stdlib_support_c P name st) = load_inv P tgt stack st"
    "ld_order (add_stdlib_support_c P name st) = ld_order st"
  by (simp_all add: load_inv_def add_stdlib_support_c_def)

lemma load_ok:
  "load n P tgt stack m st = Inr st' \<Longrightarrow> load_inv P tgt stack st \<Longrightarrow>
     load_inv P tgt stack st' \<and> (\<exists>ms. ld_order st' = ld_order st @ ms) \<and> m_name m \<in> module_names (ld_order st')
     \<and> (m_name m \<notin> set (ld_loaded st) \<longrightarrow> last (ld_order st') = m)"
proof (induction n arbitrary: stack m st st')
  case (Suc n)
  let ?stack = "stack @ [m_name m]"
  have fold: "rfold (load_import (load n P tgt ?stack) P tgt) names s = Inr s' \<Longrightarrow> load_inv P tgt ?stack s \<Longrightarrow>
      load_inv P tgt ?stack s' \<and> (\<exists>ms. ld_order s' = ld_order s @ ms)
      \<and> (\<forall>name \<in> set names. brings P tgt name \<longrightarrow> name \<in> module_names (ld_order s'))" for names s s'
  proof (induction names arbitrary: s)
    case (Cons name names)
    from Cons.prems(1) obtain u where u: "load_import (load n P tgt ?stack) P tgt name s = Inr u"
      and r: "rfold (load_import (load n P tgt ?stack) P tgt) names u = Inr s'" by auto
    have step: "load_inv P tgt ?stack u \<and> (\<exists>ms. ld_order u = ld_order s @ ms)
        \<and> (brings P tgt name \<longrightarrow> name \<in> module_names (ld_order u))"
    proof (cases "find_module P tgt name")
      case (Inl e)
      with u show ?thesis by (simp add: load_import_def)
    next
      case (Inr found)
      show ?thesis
      proof (cases found)
        case None
        with u Inr Cons.prems(2) show ?thesis by (simp add: load_import_def brings_def)
      next
        case (Some child)
        let ?s = "if name \<in> set STDLIB_SOURCE_MODULES then add_stdlib_support_c P name s else s"
        from u Inr Some have l: "load n P tgt ?stack child ?s = Inr u" by (simp add: load_import_def)
        have "load_inv P tgt ?stack ?s" using Cons.prems(2) by (simp add: load_inv_support)
        from Suc.IH [OF l this] find_module_name [of P tgt name child] Inr Some show ?thesis
          by (auto simp: load_inv_support split: if_splits)
      qed
    qed
    from Cons.IH [OF r] step show ?case by (auto simp: module_names_def)
  qed simp
  from Suc.prems(1) consider "m_name m \<notin> set stack" "m_name m \<in> set (ld_loaded st)" "st' = st"
    | u where "m_name m \<notin> set stack" "m_name m \<notin> set (ld_loaded st)"
        "rfold (load_import (load n P tgt ?stack) P tgt) (module_imports m)
           (st\<lparr>ld_loaded := ld_loaded st @ [m_name m]\<rparr>) = Inr u"
        "st' = u\<lparr>ld_order := ld_order u @ [m]\<rparr>"
    by (auto split: if_splits)
  then show ?case
  proof cases
    case 1
    with Suc.prems(2) show ?thesis by (auto simp: load_inv_def)
  next
    case 2
    have "load_inv P tgt ?stack (st\<lparr>ld_loaded := ld_loaded st @ [m_name m]\<rparr>)"
      using Suc.prems(2) 2(1,2) by (auto simp: load_inv_def module_names_def)
    from fold [OF 2(3) this] have u: "load_inv P tgt ?stack u" "\<exists>ms. ld_order u = ld_order st @ ms"
      "\<forall>name \<in> set (module_imports m). brings P tgt name \<longrightarrow> name \<in> module_names (ld_order u)" by auto
    from u(1,3) have "load_inv P tgt stack st'"
      by (auto simp: load_inv_def 2(4) imports_first_snoc module_names_def)
    with u(2) show ?thesis by (auto simp: 2(4) module_names_def)
  qed
qed simp

lemma nofuel_children:
  assumes "\<And>m. size m < size n \<Longrightarrow> nofuel (f m)"
  shows "nofuel (map_children f n)"
proof -
  have block: "size_block size b < size n \<Longrightarrow> nofuel (rblock f b)" for b
    unfolding rblock_def by (rule nofuel_rbind, rule nofuel_rmap, rule assms) (auto dest: list_size)
  have list: "size_list size es < size n \<Longrightarrow> nofuel (rmap f es)" for es
    by (rule nofuel_rmap, rule assms) (auto dest: list_size)
  have opt: "size_option size v < size n \<Longrightarrow> nofuel (ropt f v)" for v
    by (rule nofuel_ropt, rule assms) auto
  have optblock: "size_option (size_block size) v < size n \<Longrightarrow> nofuel (ropt (rblock f) v)" for v
    by (rule nofuel_ropt, rule block) auto
  have params: "size_list (size_param size) ps < size n \<Longrightarrow> nofuel (rmap (rparam f) ps)" for ps
    by (rule nofuel_rmap, unfold rparam_def, rule nofuel_rbind, rule nofuel_ropt, rule assms) (auto dest: param_size)
  have arms: "size_list (size_prod (size_option size) size) as < size n \<Longrightarrow> nofuel (rmap (rpair (ropt f) f) as)" for as
  proof (rule nofuel_rmap, rule nofuel_rpair)
    fix p assume as: "size_list (size_prod (size_option size) size) as < size n" "p \<in> set as"
    show "nofuel (f (snd p))" using as arm_size(1) [of "fst p" "snd p" as] by (intro assms) simp
    show "nofuel (ropt f (fst p))"
      using as by (cases p) (auto intro!: nofuel_ropt assms dest!: arm_size(2))
  qed
  have entries: "size_list (size_prod size size) es < size n \<Longrightarrow> nofuel (rmap (rpair f f) es)" for es
    by (rule nofuel_rmap, rule nofuel_rpair) (auto intro!: assms dest: entry_size)
  have fields: "size_list (size_prod (\<lambda>_. 0) size) es < size n \<Longrightarrow>
      nofuel (rmap (rpair Inr f) es)" for es :: "(string \<times> node) list"
    by (rule nofuel_rmap, rule nofuel_rpair) (auto intro!: assms dest: field_size)
  have sb: "size_block size = (\<lambda>b :: node block. Suc (size_list size (statements b)))"
    by (rule ext) simp
  note rules = nofuel_rbind assms block list opt optblock [unfolded sb] params arms entries fields
  have "nofuel (case n of x \<Rightarrow> map_children f x)"
    by (cases n; simp only: map_children_def node.case; (rule rules | (simp; fail))+)
  then show ?thesis by simp
qed

lemma nofuel_param_types: "(\<And>t. nofuel (X t)) \<Longrightarrow> nofuel (param_types X ps)"
  unfolding param_types_def by (intro nofuel_rmap nofuel_rbind nofuel_ropt) auto

lemma nofuel_iface_types: "(\<And>t. nofuel (X t)) \<Longrightarrow> nofuel (iface_types X ms)"
  unfolding iface_types_def by (auto intro!: nofuel_rmap nofuel_rbind nofuel_param_types)

lemma nofuel_expand_attrs:
  assumes "\<And>t. nofuel (X t)"
  shows "nofuel (expand_attrs X n)"
  by (cases n; simp only: expand_attrs.simps;
      (rule nofuel_rbind nofuel_param_types nofuel_iface_types nofuel_ropt nofuel_rmap nofuel_rpair
        nofuel_parse_type assms | (simp; fail))+)

lemma nofuel_expand_node:
  assumes "\<And>t. nofuel (X t)"
  shows "nofuel (expand_node X n)"
proof (induction n rule: measure_induct_rule [of size])
  case (less n)
  show ?case
    unfolding expand_node.simps [of X n]
    by (rule nofuel_rbind, rule nofuel_expand_attrs [OF assms], rule nofuel_children, rule less)
      (simp add: expand_attrs_size)
qed

lemma nofuel_map_asts: "(\<And>a. nofuel (f a)) \<Longrightarrow> nofuel (map_asts f m)"
  unfolding map_asts_def by (intro nofuel_rbind nofuel_rmap) auto

lemma nofuel_collect: "nofuel (collect_aliases ss A)"
  unfolding collect_aliases_def by (rule nofuel_rfold) (simp split: node.split)

lemma nofuel_expand_module: "nofuel (expand_type_aliases_in_module m)"
  unfolding expand_type_aliases_in_module_def
  by (auto intro!: nofuel_rbind nofuel_rmap nofuel_map_asts nofuel_collect nofuel_alias nofuel_expand_node)

lemma nofuel_lex: "nofuel (lex s)"
  using lex_from_error [of 0 s] by (cases "lex s") (auto simp: lex_def lex_error_def)

lemma nofuel_parse: "lex s = Inr ts \<Longrightarrow> nofuel (parse ts mods)"
  using parse_outcome [of s ts mods] by auto

lemma parse_module_fuel: "parse_module_sources name b files \<noteq> Inl OutOfFuel"
proof -
  have "nofuel (parse_module_sources name b files)"
    unfolding parse_module_sources_def Let_def
  proof (intro nofuel_rbind nofuel_rmap nofuel_expand_module)
    fix tls p
    assume t: "rmap (\<lambda>(path, text). rbind (lex text) (\<lambda>tokens. Inr (path, tokens))) files = Inr tls" "p \<in> set tls"
    from rmap_Inr_mem [OF t] obtain s where "lex s = Inr (snd p)" by (auto split: prod.splits)
    then show "nofuel (case p of (path, tokens) \<Rightarrow> rbind (parse tokens
        (fold (\<lambda>(_, tokens) ms. fold List.insert (scan_imports tokens) ms) tls []))
        (\<lambda>ast. Inr \<lparr>sf_path = path, sf_ast = ast\<rparr>))"
      by (cases p) (auto intro!: nofuel_rbind nofuel_parse)
  qed (auto intro!: nofuel_rbind nofuel_lex)
  then show ?thesis by (simp add: nofuel_def)
qed

lemma load_fuel_enough:
  "distinct stack \<Longrightarrow> set stack \<subseteq> K \<Longrightarrow> finite K \<Longrightarrow> m_name m \<in> K \<Longrightarrow> card K < n + length stack \<Longrightarrow>
     (\<And>name c. find_module P tgt name = Inr (Some c) \<Longrightarrow> name \<in> K) \<Longrightarrow> load n P tgt stack m st \<noteq> Inl OutOfFuel"
proof (induction n arbitrary: stack m st)
  case 0
  have "length stack = card (set stack)" using 0 by (simp add: distinct_card)
  also have "\<dots> \<le> card K" using 0 by (intro card_mono)
  finally show ?case using 0 by simp
next
  case (Suc n)
  have find: "find_module P tgt name \<noteq> Inl OutOfFuel" for name
    using parse_module_fuel by (auto simp: find_module_def rbind_eq_Inl split: option.splits list.splits)
  have "rfold (load_import (load n P tgt (stack @ [m_name m])) P tgt) names s \<noteq> Inl OutOfFuel"
    if "m_name m \<notin> set stack" for names s
  proof (induction names arbitrary: s)
    case (Cons name names)
    have "load_import (load n P tgt (stack @ [m_name m])) P tgt name s \<noteq> Inl OutOfFuel"
    proof (cases "find_module P tgt name")
      case (Inl e)
      with find [of name] show ?thesis by (auto simp: load_import_def)
    next
      case (Inr found)
      show ?thesis
      proof (cases found)
        case (Some child)
        have "load n P tgt (stack @ [m_name m]) child u \<noteq> Inl OutOfFuel" for u
          using Suc.prems that Inr Some find_module_name [of P tgt name child] by (intro Suc.IH) auto
        with Inr Some show ?thesis by (simp add: load_import_def)
      qed (use Inr in \<open>simp add: load_import_def\<close>)
    qed
    with Cons show ?case by (auto simp: rbind_eq_Inl)
  qed simp
  then show ?case by (auto simp: rbind_eq_Inl)
qed

text \<open>
  C31: the modules of a program are loaded once each, every module after all the modules it imports
  and the entry last, so no module imports itself through others; a cycle of imports is an error
  and the loading always ends.
\<close>

theorem load_order:
  "load_project P tgt entry \<noteq> Inl OutOfFuel
   \<and> (\<forall>st. load_project P tgt entry = Inr st \<longrightarrow> distinct (map m_name (ld_order st))
        \<and> imports_first P tgt {} (ld_order st) \<and> last (ld_order st) = entry)"
proof (intro conjI allI impI)
  let ?K = "insert (m_name entry) (fst ` set (pr_dirs P) \<union> fst ` set (pr_stdlib P))"
  have "card ?K \<le> Suc (card (fst ` set (pr_dirs P) \<union> fst ` set (pr_stdlib P)))"
    by (simp add: card_insert_if)
  also have "\<dots> \<le> Suc (card (fst ` set (pr_dirs P)) + card (fst ` set (pr_stdlib P)))"
    by (simp add: card_Un_le)
  also have "\<dots> \<le> Suc (length (pr_dirs P) + length (pr_stdlib P))"
    using card_image_le [of "set (pr_dirs P)" fst] card_length [of "pr_dirs P"]
      card_image_le [of "set (pr_stdlib P)" fst] card_length [of "pr_stdlib P"] by simp
  finally have K: "card ?K < load_fuel P + length []" by (simp add: load_fuel_def)
  have "name \<in> ?K" if "find_module P tgt name = Inr (Some c)" for name c
    using that by (auto simp: find_module_def split: if_splits option.splits dest!: map_of_SomeD intro: rev_image_eqI)
  then show "load_project P tgt entry \<noteq> Inl OutOfFuel"
    unfolding load_project_def by (intro load_fuel_enough [OF _ _ _ _ K]) auto
  fix st assume "load_project P tgt entry = Inr st"
  then have l: "load (load_fuel P) P tgt [] entry \<lparr>ld_loaded = [], ld_order = [], ld_support = []\<rparr> = Inr st"
    by (simp add: load_project_def)
  have "load_inv P tgt [] \<lparr>ld_loaded = [], ld_order = [], ld_support = []\<rparr>"
    by (simp add: load_inv_def module_names_def)
  from load_ok [OF l this] show "distinct (map m_name (ld_order st))"
    "imports_first P tgt {} (ld_order st)" "last (ld_order st) = entry"
    by (simp_all add: load_inv_def)
qed

definition hello :: module where
  "hello = \<lparr>m_name = ''app'', m_trusted = False,
     m_files = [\<lparr>sf_path = ''main.nc'', sf_ast = [ImportDecl None ''io'']\<rparr>]\<rparr>"

lemma load_order_witness:
  "\<exists>st. load_project \<lparr>pr_dirs = [], pr_stdlib = [], pr_support = []\<rparr> ''linux-x64'' hello = Inr st
     \<and> ld_order st = [hello] \<and> last (ld_order st) = hello"
proof -
  let ?P = "\<lparr>pr_dirs = [], pr_stdlib = [], pr_support = []\<rparr>"
  have none: "module_imports hello = [''io'']"
    by (simp add: module_imports_def module_stmts_def hello_def List.map_filter_simps)
  have l: "load_project ?P ''linux-x64'' hello =
      Inr \<lparr>ld_loaded = [''app''], ld_order = [hello], ld_support = []\<rparr>"
    by (simp add: load_project_def load_fuel_def numeral_3_eq_3 none load_import_def find_module_def
        STDLIB_SOURCE_MODULES_def BUILTIN_MODULES_def) (simp add: hello_def)
  from load_order [of ?P "''linux-x64''" hello] l show ?thesis by (intro exI [of _ "\<lparr>ld_loaded = [''app''],
      ld_order = [hello], ld_support = []\<rparr>"]) auto
qed

subsection \<open>Qualification\<close>

lemma qual_name_dotted: "CHR ''.'' \<in> set x \<Longrightarrow> qual_name m L x = x"
  by (simp add: qual_name_def)

lemma name_ok_dot: "type_name_ok m \<Longrightarrow> type_name_ok x \<Longrightarrow> type_name_ok (m @ ''.'' @ x)"
  by (auto simp: type_name_ok_def name_char_def)

lemma qual_rewrite:
  assumes "type_name_ok m" and "\<forall>x \<in> set L. type_name_ok x"
  shows "rewrite_name (\<lambda>name. Inr (ReplText (qual_name m L name))) y = Inr (NamedType (qual_name m L y))"
proof (cases "qual_name m L y = y")
  case False
  then have "y \<in> set L" "qual_name m L y = m @ ''.'' @ y" by (auto simp: qual_name_def split: if_splits)
  with assms False name_ok_dot [of m y] show ?thesis by (simp add: rewrite_name_def read_name)
qed (simp add: rewrite_name_def)

text \<open>
  C32: qualification of the types of an imported module is total, complete and stable: every name
  in a qualified type is qualified or is not a name of the module, and qualifying again changes
  nothing, which matters because external functions are visited twice.
\<close>

theorem qualified_types:
  assumes "type_name_ok m" and "\<forall>x \<in> set L. type_name_ok x"
  shows "\<exists>r. qual_type m L t = Inr r \<and> (\<forall>x \<in> tnames r. CHR ''.'' \<in> set x \<or> x \<notin> set L)
     \<and> qual_type m L r = Inr r"
proof -
  let ?fn = "\<lambda>name. Inr (ReplText (qual_name m L name))"
  note q = qual_rewrite [OF assms]
  have dot: "CHR ''.'' \<in> set (qual_name m L y) \<or> qual_name m L y \<notin> set L" for y
    by (simp add: qual_name_def)
  have stable: "\<forall>x \<in> tnames r. CHR ''.'' \<in> set x \<or> x \<notin> set L \<Longrightarrow> rewrite_type_ref ?fn r = Inr r" for r
  proof (induction r)
    case (FunctionType ps r b)
    then have "rmap (rewrite_type_ref ?fn) ps = Inr (map (\<lambda>p. p) ps)" by (intro rmap_map_Inr) auto
    with FunctionType show ?case by simp
  next
    case (GenericType b as)
    then have "rmap (rewrite_type_ref ?fn) as = Inr (map (\<lambda>p. p) as)" by (intro rmap_map_Inr) auto
    with GenericType show ?case by simp
  next
    case (NamedType x)
    then have "qual_name m L x = x" by (auto simp: qual_name_def)
    then show ?case using q by simp
  qed simp_all
  obtain r where r: "rewrite_type_ref ?fn t = Inr r" using rewrite_succeeds [of t ?fn] q by blast
  have names: "\<forall>x \<in> tnames r. CHR ''.'' \<in> set x \<or> x \<notin> set L"
  proof
    fix x assume "x \<in> tnames r"
    from rewrite_names [OF r this] q obtain y where "x = qual_name m L y" by auto
    then show "CHR ''.'' \<in> set x \<or> x \<notin> set L" using dot by simp
  qed
  with r stable show ?thesis by (auto simp: qual_type_def)
qed

lemma qualified_types_witness:
  "\<exists>r. qual_type ''m'' [''T''] (SliceType (NamedType ''T'')) = Inr r \<and> tnames r \<noteq> {''T''}"
proof -
  have "type_name_ok ''m''" "\<forall>x \<in> set [''T'']. type_name_ok x"
    by (simp_all add: type_name_ok_def name_char_def ident_char_def py_char_defs)
  from qualified_types [OF this, of "SliceType (NamedType ''T'')"] obtain r where
    r: "qual_type ''m'' [''T''] (SliceType (NamedType ''T'')) = Inr r"
      "\<forall>x \<in> tnames r. CHR ''.'' \<in> set x \<or> x \<notin> set [''T'']" by blast
  have "''T'' \<notin> tnames r" using r(2) by (simp only: list.set insert_iff) auto
  with r(1) show ?thesis by blast
qed

lemma map_children_eqs:
  "map_children f (FunctionDeclaration x ps ret b rn rt r1 tps tcs r2 lib ext esym) =
     rbind (rmap (rparam f) ps) (\<lambda>ps. rbind (rblock f b) (\<lambda>b.
       Inr (FunctionDeclaration x ps ret b rn rt r1 tps tcs r2 lib ext esym)))"
  "map_children f (Return sp e) = rbind (ropt f e) (\<lambda>e. Inr (Return sp e))"
  "map_children f (VariableDeclaration sp x init ann) = rbind (f init) (\<lambda>i. Inr (VariableDeclaration sp x i ann))"
  "map_children f (SliceLiteral sp t es) = rbind (rmap f es) (\<lambda>es. Inr (SliceLiteral sp t es))"
  "map_children f (Identifier sp x targs) = Inr (Identifier sp x targs)"
  "map_children f (StructDecl x fds tps tcs embeds) = Inr (StructDecl x fds tps tcs embeds)"
  "map_children f (NilLiteral sp) = Inr (NilLiteral sp)"
  by (simp_all only: map_children_def node.case)

text \<open>
  qualification does not look at scopes: inside an imported module, the parameter \<open>n\<close> of a
  function keeps its name, but its uses become \<open>m.n\<close> when the module has a function \<open>n\<close>.
\<close>

theorem qualify_captures_parameters:
  "qualify_node (qual_name ''m'' [''n'', ''f'']) (qual_type ''m'' [''n'', ''f''])
     (FunctionDeclaration ''f'' [Param ''n'' (Some (NamedType ''i32'')) None] (Some (NamedType ''i32''))
        (Block [Return None (Some (Identifier None ''n'' []))]) None None True [] [] False None False None)
   = Inr (FunctionDeclaration ''m.f'' [Param ''n'' (Some (NamedType ''i32'')) None] (Some (NamedType ''i32''))
        (Block [Return None (Some (Identifier None ''m.n'' []))]) None None True [] [] False None False None)"
  by (simp add: qualify_node.simps map_children_eqs param_types_def ropt_def rparam_def rblock_def qual_name_def
      qual_type_def rewrite_name_def)

text \<open>
  qualification skips the annotations of variables and the element types of literals: in an
  imported module with a struct \<open>T\<close>, a field of type \<open>T\<close> becomes one of type \<open>m.T\<close>, and a variable
  annotated with \<open>T\<close> keeps a type that is not declared anywhere.
\<close>

theorem qualify_skips_annotations:
  "qualify_node (qual_name ''m'' [''T'']) (qual_type ''m'' [''T'']) (StructDecl ''S'' [(''f'', NamedType ''T'')] [] [] [])
     = Inr (StructDecl ''S'' [(''f'', NamedType ''m.T'')] [] [] [])
   \<and> qualify_node (qual_name ''m'' [''T'']) (qual_type ''m'' [''T''])
       (VariableDeclaration None ''x'' (NilLiteral None) (Some (NamedType ''T'')))
     = Inr (VariableDeclaration None ''x'' (NilLiteral None) (Some (NamedType ''T'')))
   \<and> qualify_node (qual_name ''m'' [''T'']) (qual_type ''m'' [''T'']) (SliceLiteral None (Some (NamedType ''T'')) [])
     = Inr (SliceLiteral None (Some (NamedType ''T'')) [])"
proof -
  have "parse_type_ref ''m.T'' = Inr (NamedType ''m.T'')"
    by (rule read_name) (simp add: type_name_ok_def name_char_def ident_char_def py_char_defs)
  then show ?thesis
    by (simp add: qualify_node.simps map_children_eqs ropt_def rpair_def qual_name_def qual_type_def rewrite_name_def)
qed

end
