(* ===== verification/Generics.thy ===== *)
theory Generics
  imports Modules Builtins
begin

text \<open>
  \<open>compiler/generics.py\<close> and \<open>compiler/erase_generics.py\<close>: every generic struct and function is
  replaced by its instances for the type arguments the program uses. The code changes nodes in
  place and appends to \<open>generated\<close> while it walks it; the model passes the lists on.
\<close>

subsection \<open>The children of a node\<close>

text \<open>
  \<open>_walk_values\<close>: the nodes in the attributes of a node, in their order; with
  \<open>skip_param_defaults\<close> those that are the default value of a parameter are left out.
\<close>

definition kids_opt :: "'a option \<Rightarrow> 'a list" where
  "kids_opt v = (case v of None \<Rightarrow> [] | Some x \<Rightarrow> [x])"

definition kids_optblock :: "node block option \<Rightarrow> node list" where
  "kids_optblock v = (case v of None \<Rightarrow> [] | Some b \<Rightarrow> statements b)"

definition kids_params :: "bool \<Rightarrow> node param list \<Rightarrow> node list" where
  "kids_params skip ps = (if skip then [] else concat (map (\<lambda>p. kids_opt (pdefault p)) ps))"

definition kids_arms :: "(node option \<times> node) list \<Rightarrow> node list" where
  "kids_arms arms = concat (map (\<lambda>(p, b). kids_opt p @ [b]) arms)"

fun kids :: "bool \<Rightarrow> node \<Rightarrow> node list" where
  "kids skip (VariableDeclaration sp x init ann) = [init]"
| "kids skip (ExpressionStatement e) = [e]"
| "kids skip (Assignment t e opr) = [t, e]"
| "kids skip (Update t opr) = [t]"
| "kids skip (ForCondition c b) = c # statements b"
| "kids skip (ForIn i v it b s e) = kids_opt it @ statements b @ kids_opt s @ kids_opt e"
| "kids skip (ExternBlock sp lib fns) = fns"
| "kids skip (StructLiteral sp x fs heap) = map snd fs"
| "kids skip (FieldAccess obj x) = [obj]"
| "kids skip (ArrayLiteral sp k t es) = es"
| "kids skip (SliceLiteral sp t es) = es"
| "kids skip (MapLiteral sp t kvs) = concat (map (\<lambda>(k, v). [k, v]) kvs)"
| "kids skip (IndexAccess obj i cand) = [obj, i]"
| "kids skip (SliceExpr obj s e) = [obj, s] @ kids_opt e"
| "kids skip (ErrReturn sp e) = [e]"
| "kids skip (Defer sp b) = statements b"
| "kids skip (SpawnStmt sp e) = [e]"
| "kids skip (TryStatement sp c sb sn en eb) = c # statements sb @ kids_optblock eb"
| "kids skip (FunctionDeclaration x ps ret b rn rt r1 tps tcs r2 lib ext esym) = kids_params skip ps @ statements b"
| "kids skip (FunctionExpr sp ps ret b r1 r2) = kids_params skip ps @ statements b"
| "kids skip (Return sp e) = kids_opt e"
| "kids skip (FallibleOp sp e opr) = [e]"
| "kids skip (ErrorHandlerExpr sp e x b) = e # statements b"
| "kids skip (ErrorMatchExpr sp e x arms) = e # kids_arms arms"
| "kids skip (IfExpr sp c t e) = c # statements t @ kids_optblock e"
| "kids skip (BlockExpr sp b) = statements b"
| "kids skip (MatchExpr sp e arms) = e # kids_arms arms"
| "kids skip (InterpolatedString sp ps) = ps"
| "kids skip (BinaryOp l opr r) = [l, r]"
| "kids skip (UnaryOp opr e) = [e]"
| "kids skip (FunctionCall sp x as targs) = as"
| "kids skip (MethodCall sp obj x as) = obj # as"
| "kids skip n = []"

text \<open>The node with other children put in, in the same order.\<close>

definition refill_opt :: "'a option \<Rightarrow> 'a list \<Rightarrow> 'a option" where
  "refill_opt v ks = (case v of None \<Rightarrow> None | Some _ \<Rightarrow> Some (hd ks))"

definition refill_block :: "node block \<Rightarrow> node list \<Rightarrow> node block" where
  "refill_block b ks = Block (take (length (statements b)) ks)"

definition refill_optblock :: "node block option \<Rightarrow> node list \<Rightarrow> node block option" where
  "refill_optblock v ks = map_option (\<lambda>b. refill_block b ks) v"

fun refill_params :: "node param list \<Rightarrow> node list \<Rightarrow> node param list" where
  "refill_params [] ks = []"
| "refill_params (p # ps) ks =
     Param (pname p) (ptype p) (refill_opt (pdefault p) ks) # refill_params ps (drop (length (kids_opt (pdefault p))) ks)"

fun refill_arms :: "(node option \<times> node) list \<Rightarrow> node list \<Rightarrow> (node option \<times> node) list" where
  "refill_arms [] ks = []"
| "refill_arms ((p, b) # arms) ks =
     (refill_opt p ks, ks ! length (kids_opt p)) # refill_arms arms (drop (Suc (length (kids_opt p))) ks)"

fun refill_pairs :: "('a \<times> 'a) list \<Rightarrow> 'a list \<Rightarrow> ('a \<times> 'a) list" where
  "refill_pairs [] ks = []"
| "refill_pairs (kv # kvs) ks = (ks ! 0, ks ! 1) # refill_pairs kvs (drop 2 ks)"

definition put_params :: "bool \<Rightarrow> node param list \<Rightarrow> node list \<Rightarrow> node param list" where
  "put_params skip ps ks = (if skip then ps else refill_params ps ks)"

fun with_kids :: "bool \<Rightarrow> node \<Rightarrow> node list \<Rightarrow> node" where
  "with_kids skip (VariableDeclaration sp x init ann) ks = VariableDeclaration sp x (hd ks) ann"
| "with_kids skip (ExpressionStatement e) ks = ExpressionStatement (hd ks)"
| "with_kids skip (Assignment t e opr) ks = Assignment (ks ! 0) (ks ! 1) opr"
| "with_kids skip (Update t opr) ks = Update (hd ks) opr"
| "with_kids skip (ForCondition c b) ks = ForCondition (hd ks) (refill_block b (tl ks))"
| "with_kids skip (ForIn i v it b s e) ks =
     (let ks1 = drop (length (kids_opt it)) ks; ks2 = drop (length (statements b)) ks1;
          ks3 = drop (length (kids_opt s)) ks2
      in ForIn i v (refill_opt it ks) (refill_block b ks1) (refill_opt s ks2) (refill_opt e ks3))"
| "with_kids skip (ExternBlock sp lib fns) ks = ExternBlock sp lib ks"
| "with_kids skip (StructLiteral sp x fs heap) ks = StructLiteral sp x (zip (map fst fs) ks) heap"
| "with_kids skip (FieldAccess obj x) ks = FieldAccess (hd ks) x"
| "with_kids skip (ArrayLiteral sp k t es) ks = ArrayLiteral sp k t ks"
| "with_kids skip (SliceLiteral sp t es) ks = SliceLiteral sp t ks"
| "with_kids skip (MapLiteral sp t kvs) ks = MapLiteral sp t (refill_pairs kvs ks)"
| "with_kids skip (IndexAccess obj i cand) ks = IndexAccess (ks ! 0) (ks ! 1) cand"
| "with_kids skip (SliceExpr obj s e) ks = SliceExpr (ks ! 0) (ks ! 1) (refill_opt e (drop 2 ks))"
| "with_kids skip (ErrReturn sp e) ks = ErrReturn sp (hd ks)"
| "with_kids skip (Defer sp b) ks = Defer sp (refill_block b ks)"
| "with_kids skip (SpawnStmt sp e) ks = SpawnStmt sp (hd ks)"
| "with_kids skip (TryStatement sp c sb sn en eb) ks =
     TryStatement sp (hd ks) (refill_block sb (tl ks)) sn en (refill_optblock eb (drop (Suc (length (statements sb))) ks))"
| "with_kids skip (FunctionDeclaration x ps ret b rn rt r1 tps tcs r2 lib ext esym) ks =
     FunctionDeclaration x (put_params skip ps ks) ret (refill_block b (drop (length (kids_params skip ps)) ks))
       rn rt r1 tps tcs r2 lib ext esym"
| "with_kids skip (FunctionExpr sp ps ret b r1 r2) ks =
     FunctionExpr sp (put_params skip ps ks) ret (refill_block b (drop (length (kids_params skip ps)) ks)) r1 r2"
| "with_kids skip (Return sp e) ks = Return sp (refill_opt e ks)"
| "with_kids skip (FallibleOp sp e opr) ks = FallibleOp sp (hd ks) opr"
| "with_kids skip (ErrorHandlerExpr sp e x b) ks = ErrorHandlerExpr sp (hd ks) x (refill_block b (tl ks))"
| "with_kids skip (ErrorMatchExpr sp e x arms) ks = ErrorMatchExpr sp (hd ks) x (refill_arms arms (tl ks))"
| "with_kids skip (IfExpr sp c t e) ks =
     IfExpr sp (hd ks) (refill_block t (tl ks)) (refill_optblock e (drop (Suc (length (statements t))) ks))"
| "with_kids skip (BlockExpr sp b) ks = BlockExpr sp (refill_block b ks)"
| "with_kids skip (MatchExpr sp e arms) ks = MatchExpr sp (hd ks) (refill_arms arms (tl ks))"
| "with_kids skip (InterpolatedString sp ps) ks = InterpolatedString sp ks"
| "with_kids skip (BinaryOp l opr r) ks = BinaryOp (ks ! 0) opr (ks ! 1)"
| "with_kids skip (UnaryOp opr e) ks = UnaryOp opr (hd ks)"
| "with_kids skip (FunctionCall sp x as targs) ks = FunctionCall sp x ks targs"
| "with_kids skip (MethodCall sp obj x as) ks = MethodCall sp (hd ks) x (tl ks)"
| "with_kids skip n ks = n"

lemma kids_params_size: "k \<in> set (kids_params skip ps) \<Longrightarrow> size k < size_list (size_param size) ps"
  by (auto simp: kids_params_def kids_opt_def split: if_splits option.splits dest!: param_size [OF _ sym])

lemma kids_arms_size: "k \<in> set (kids_arms arms) \<Longrightarrow> size k < size_list (size_prod (size_option size) size) arms"
  by (auto simp: kids_arms_def kids_opt_def split: option.splits dest: arm_size)

lemma kids_size: "k \<in> set (kids skip n) \<Longrightarrow> size k < size n"
  by (cases n) (auto simp: kids_opt_def kids_optblock_def split: option.splits
      dest!: node_sizes kids_params_size kids_arms_size)

function subnodes :: "bool \<Rightarrow> node \<Rightarrow> node list" where
  "subnodes skip n = n # concat (map (subnodes skip) (kids skip n))"
  by pat_completeness auto
termination
  by (relation "measure (\<lambda>(skip, n). size n)") (auto dest: kids_size)

declare subnodes.simps [simp del]

subsection \<open>Names and substitution\<close>

definition mangle_type :: "tref \<Rightarrow> string" where
  "mangle_type t = strip_underscores (sub_label False (type_key t))"

definition instance_name :: "string \<Rightarrow> tref list \<Rightarrow> string" where
  "instance_name name args = name @ ''__'' @ join ''__'' (map mangle_type args)"

type_synonym subst = "(string \<times> tref) list"

definition sub_type :: "subst \<Rightarrow> tref \<Rightarrow> tref res" where
  "sub_type \<sigma> t = rewrite_type_ref (\<lambda>name. Inr (case map_of \<sigma> name of
     Some r \<Rightarrow> ReplType r | None \<Rightarrow> ReplText name)) t"

text \<open>\<open>dict(zip(params, args))\<close>\<close>

definition zip_dict :: "string list \<Rightarrow> tref list \<Rightarrow> subst" where
  "zip_dict ps args = foldl (\<lambda>d (p, a). dict_set p a d) [] (zip ps args)"

text \<open>The name and the type arguments of a call whose name is the text of a type application.\<close>

definition normalize_call :: "string \<Rightarrow> tref list \<Rightarrow> (string \<times> tref list) res" where
  "normalize_call x targs =
     (if targs \<noteq> [] then Inr (x, targs)
      else
        rbind (parse_type_ref x) (\<lambda>t.
          case parse_type_app t of
            None \<Rightarrow> Inr (x, targs)
          | Some (base, as) \<Rightarrow> rbind (rmap parse_type_ref as) (\<lambda>as. Inr (base, as))))"

text \<open>What \<open>_substitute_node\<close> does to the attributes of one node.\<close>

fun substitute_attrs :: "subst \<Rightarrow> node \<Rightarrow> node res" where
  "substitute_attrs \<sigma> (FunctionDeclaration x ps ret b rn rt r1 tps tcs r2 lib ext esym) =
     rbind (param_types (sub_type \<sigma>) ps) (\<lambda>ps. rbind (ropt (sub_type \<sigma>) ret) (\<lambda>ret. rbind (ropt (sub_type \<sigma>) rt) (\<lambda>rt.
       Inr (FunctionDeclaration x ps ret b rn rt r1 [] [] r2 lib ext esym))))"
| "substitute_attrs \<sigma> (StructDecl x fs tps tcs es) =
     rbind (rmap (rpair Inr (sub_type \<sigma>)) fs) (\<lambda>fs. Inr (StructDecl x fs [] [] es))"
| "substitute_attrs \<sigma> (StructLiteral sp x fs heap) =
     rbind (parse_type_ref x) (\<lambda>t. rbind (sub_type \<sigma> t) (\<lambda>t. Inr (StructLiteral sp (format_type_ref t) fs heap)))"
| "substitute_attrs \<sigma> (MapLiteral sp t kvs) = rbind (ropt (sub_type \<sigma>) t) (\<lambda>t. Inr (MapLiteral sp t kvs))"
| "substitute_attrs \<sigma> (FunctionCall sp x as targs) =
     rbind (normalize_call x targs) (\<lambda>(x, targs). rbind (rmap (sub_type \<sigma>) targs) (\<lambda>targs.
       Inr (FunctionCall sp x as targs)))"
| "substitute_attrs \<sigma> (GenericFunctionValue x targs) =
     rbind (rmap (sub_type \<sigma>) targs) (\<lambda>targs. Inr (GenericFunctionValue x targs))"
| "substitute_attrs \<sigma> (IndexAccess obj i cand) =
     rbind (ropt (rmap (sub_type \<sigma>)) cand) (\<lambda>cand. Inr (IndexAccess obj i cand))"
| "substitute_attrs \<sigma> (SizeOfType sp t) = rbind (sub_type \<sigma> t) (\<lambda>t. Inr (SizeOfType sp t))"
| "substitute_attrs \<sigma> (VariableDeclaration sp x init ann) =
     rbind (ropt (sub_type \<sigma>) ann) (\<lambda>ann. Inr (VariableDeclaration sp x init ann))"
| "substitute_attrs \<sigma> (ArrayLiteral sp k t es) = rbind (sub_type \<sigma> t) (\<lambda>t. Inr (ArrayLiteral sp k t es))"
| "substitute_attrs \<sigma> (SliceLiteral sp t es) = rbind (ropt (sub_type \<sigma>) t) (\<lambda>t. Inr (SliceLiteral sp t es))"
| "substitute_attrs \<sigma> n = Inr n"

lemma substitute_attrs_size: "substitute_attrs \<sigma> n = Inr m \<Longrightarrow> size m = size n"
  by (cases n) (auto dest: param_types_size)

function substitute_node :: "subst \<Rightarrow> node \<Rightarrow> node res" where
  "substitute_node \<sigma> n = rbind (substitute_attrs \<sigma> n) (map_children (substitute_node \<sigma>))"
  by pat_completeness auto
termination
  by (relation "measure (\<lambda>(\<sigma>, n). size n)") (auto dest: substitute_attrs_size)

declare substitute_node.simps [simp del]

subsection \<open>Templates and erasure\<close>

fun type_params :: "node \<Rightarrow> string list" where
  "type_params (FunctionDeclaration _ _ _ _ _ _ _ tps _ _ _ _ _) = tps"
| "type_params (StructDecl _ _ tps _ _) = tps"
| "type_params _ = []"

fun type_param_constraints :: "node \<Rightarrow> (string \<times> string) list" where
  "type_param_constraints (FunctionDeclaration _ _ _ _ _ _ _ _ tcs _ _ _ _) = tcs"
| "type_param_constraints (StructDecl _ _ _ tcs _) = tcs"
| "type_param_constraints _ = []"

fun decl_params :: "node \<Rightarrow> node param list" where
  "decl_params (FunctionDeclaration _ ps _ _ _ _ _ _ _ _ _ _ _) = ps"
| "decl_params _ = []"

fun decl_return :: "node \<Rightarrow> tref option" where
  "decl_return (FunctionDeclaration _ _ ret _ _ _ _ _ _ _ _ _ _) = ret"
| "decl_return _ = None"

fun decl_body :: "node \<Rightarrow> node list" where
  "decl_body (FunctionDeclaration _ _ _ b _ _ _ _ _ _ _ _ _) = statements b"
| "decl_body _ = []"

fun decl_name :: "node \<Rightarrow> string" where
  "decl_name (FunctionDeclaration x _ _ _ _ _ _ _ _ _ _ _ _) = x"
| "decl_name (StructDecl x _ _ _ _) = x"
| "decl_name _ = []"

fun rename :: "string \<Rightarrow> node \<Rightarrow> node" where
  "rename x (FunctionDeclaration _ ps ret b rn rt r1 tps tcs r2 lib ext esym) =
     FunctionDeclaration x ps ret b rn rt r1 tps tcs r2 lib ext esym"
| "rename x (StructDecl _ fs tps tcs es) = StructDecl x fs tps tcs es"
| "rename x n = n"

definition constraint_of :: "node \<Rightarrow> string \<Rightarrow> string" where
  "constraint_of tmpl param = (case map_of (type_param_constraints tmpl) param of Some c \<Rightarrow> c | None \<Rightarrow> ''any'')"

text \<open>\<open>t in names\<close> for a type that may be missing.\<close>

definition opt_named_in :: "tref option \<Rightarrow> string list \<Rightarrow> bool" where
  "opt_named_in t names = (case t of None \<Rightarrow> False | Some t \<Rightarrow> named_in t names)"

text \<open>\<open>_single_tail_expr\<close>: the expression of a body that is one \<open>return\<close> or expression statement.\<close>

fun single_tail_expr :: "node list \<Rightarrow> node option" where
  "single_tail_expr [Return _ e] = e"
| "single_tail_expr [ExpressionStatement e] = Some e"
| "single_tail_expr _ = None"

fun ident_name :: "node option \<Rightarrow> string option" where
  "ident_name (Some (Identifier _ x _)) = Some x"
| "ident_name _ = None"

definition block_identifier_name :: "node block \<Rightarrow> string option" where
  "block_identifier_name b = ident_name (single_tail_expr (statements b))"

definition can_erase_stage1 :: "node \<Rightarrow> bool" where
  "can_erase_stage1 tmpl \<longleftrightarrow>
     (\<forall>param \<in> set (type_params tmpl). constraint_of tmpl param = ''any'')
     \<and> (\<forall>p \<in> set (decl_params tmpl). pdefault p = None)
     \<and> decl_params tmpl \<noteq> [] \<and> opt_named_in (decl_return tmpl) (type_params tmpl)
     \<and> (\<forall>p \<in> set (decl_params tmpl). opt_named_in (ptype p) (type_params tmpl))
     \<and> (case ident_name (single_tail_expr (decl_body tmpl)) of
          None \<Rightarrow> False
        | Some x \<Rightarrow> x \<in> pname ` set (decl_params tmpl))"

definition can_erase_stage2_ord_min :: "node \<Rightarrow> bool" where
  "can_erase_stage2_ord_min tmpl =
     (case (type_params tmpl, decl_params tmpl) of
        ([T], [a, b]) \<Rightarrow>
          constraint_of tmpl T = ORD_CONSTRAINT \<and> pdefault a = None \<and> pdefault b = None
          \<and> opt_named_in (decl_return tmpl) [T] \<and> opt_named_in (ptype a) [T] \<and> opt_named_in (ptype b) [T]
          \<and> (case single_tail_expr (decl_body tmpl) of
               Some (IfExpr _ (BinaryOp l opr r) thn (Some els)) \<Rightarrow>
                 opr = ''<'' \<and> ident_name (Some l) = Some (pname a) \<and> ident_name (Some r) = Some (pname b)
                 \<and> block_identifier_name thn = Some (pname a) \<and> block_identifier_name els = Some (pname b)
             | _ \<Rightarrow> False)
      | _ \<Rightarrow> False)"

definition can_erase :: "node \<Rightarrow> bool" where
  "can_erase tmpl \<longleftrightarrow> can_erase_stage1 tmpl \<or> can_erase_stage2_ord_min tmpl"

definition RAW_TYPE :: string where
  "RAW_TYPE = ''raw''"

definition erased_func_name :: "string \<Rightarrow> string" where
  "erased_func_name base_name = ''__erased_'' @ base_name"

definition find_param :: "node \<Rightarrow> node \<Rightarrow> node param option" where
  "find_param tmpl e =
     (case ident_name (Some e) of None \<Rightarrow> None | Some x \<Rightarrow> List.find (\<lambda>p. pname p = x) (decl_params tmpl))"

text \<open>The comparison of two parameters of the same type parameter, for which \<open>lt\<close> is needed.\<close>

fun needs_lt :: "node \<Rightarrow> node \<Rightarrow> bool" where
  "needs_lt tmpl (BinaryOp l opr r) =
     (opr \<in> {''<'', ''<='', ''>'', ''>=''} \<and>
      (case (find_param tmpl l, find_param tmpl r) of
         (Some p, Some q) \<Rightarrow>
           opt_named_in (ptype p) (type_params tmpl) \<and> map_option type_key (ptype q) = map_option type_key (ptype p)
       | _ \<Rightarrow> False))"
| "needs_lt tmpl _ = False"

definition collect_ops_for_func :: "node \<Rightarrow> string set" where
  "collect_ops_for_func tmpl =
     (let size = (if (\<exists>p \<in> set (decl_params tmpl). opt_named_in (ptype p) (type_params tmpl))
            \<or> opt_named_in (decl_return tmpl) (type_params tmpl) then {''size''} else {});
          lt = (if \<exists>n \<in> set (concat (map (subnodes False) (decl_body tmpl))). needs_lt tmpl n then {''lt''} else {});
          ops = size \<union> lt
      in if ops = {} then {''size''} else ops)"

definition erase_param :: "string list \<Rightarrow> node param \<Rightarrow> node param" where
  "erase_param tps p =
     (if opt_named_in (ptype p) tps then Param (pname p) (Some (NamedType RAW_TYPE)) (pdefault p) else p)"

definition erase_function :: "node \<Rightarrow> node" where
  "erase_function fn =
     (let params = Param ''_desc'' (Some (NamedType RAW_TYPE)) None # map (erase_param (type_params fn)) (decl_params fn);
          return_type = (if opt_named_in (decl_return fn) (type_params fn) then Some (NamedType RAW_TYPE) else decl_return fn);
          body = (case decl_params fn of
              p # _ \<Rightarrow> if (case return_type of None \<Rightarrow> False | Some t \<Rightarrow> named t RAW_TYPE)
                then [Return None (Some (Identifier None (pname p) []))] else []
            | [] \<Rightarrow> [])
      in FunctionDeclaration (erased_func_name (decl_name fn)) params return_type (Block body)
           None None False [] [] False None False None)"

definition erase_call_site :: "node list \<Rightarrow> node \<Rightarrow> string list \<Rightarrow> node" where
  "erase_call_site args fn type_args =
     (let suffix = decl_name fn @ ''_'' @ join ''_'' type_args;
          desc = [Identifier None (''__desc_'' @ suffix) []];
          ret = (if opt_named_in (decl_return fn) (type_params fn) then [Identifier None (''__ret_'' @ suffix) []] else [])
      in FunctionCall None (erased_func_name (decl_name fn)) (desc @ ret @ args) [])"

subsection \<open>Requests for instances\<close>

text \<open>
  The dictionaries of templates do not change after the first loop over the program. An item of
  \<open>generated\<close> is a declaration, with the template when it is an erased function. A declaration a
  call can name is found by its place, since the code goes on changing the node.
\<close>

record templates =
  generic_funcs :: "(string \<times> node) list"
  generic_structs :: "(string \<times> node) list"

datatype place = Ordinary nat | Generated nat

record mono =
  ordinary :: "node list"
  generated :: "(node \<times> node option) list"
  made_funcs :: "(string \<times> string list) list"
  made_erased :: "string list"
  made_structs :: "(string \<times> string list) list"
  concrete_funcs :: "(string \<times> place) list"

definition check_type_args :: "string \<Rightarrow> string \<Rightarrow> node \<Rightarrow> tref list \<Rightarrow> unit res" where
  "check_type_args what base tmpl args =
     (if length args \<noteq> length (type_params tmpl)
      then Inl (GenericError (''generic '' @ what @ base @ '': expected '' @ show_nat (length (type_params tmpl))
        @ '' type args, got '' @ show_nat (length args)))
      else rfold (\<lambda>(param, arg) _.
        if satisfies_constraint (type_key arg) (constraint_of tmpl param) then Inr ()
        else Inl (GenericError (''generic '' @ what @ base @ '': type arg '' @ type_key arg @ '' does not satisfy ''
          @ constraint_of tmpl param))) (zip (type_params tmpl) args) ())"

definition instance_of :: "node \<Rightarrow> string \<Rightarrow> tref list \<Rightarrow> node res" where
  "instance_of tmpl base args =
     rbind (substitute_node (zip_dict (type_params tmpl) args) tmpl) (\<lambda>inst. Inr (rename (instance_name base args) inst))"

definition add_generated :: "node \<times> node option \<Rightarrow> mono \<Rightarrow> mono" where
  "add_generated item s = s\<lparr>generated := generated s @ [item]\<rparr>"

definition add_concrete :: "string \<Rightarrow> mono \<Rightarrow> mono" where
  "add_concrete name s = s\<lparr>concrete_funcs := dict_set name (Generated (length (generated s))) (concrete_funcs s)\<rparr>"

definition request_struct :: "templates \<Rightarrow> string \<Rightarrow> tref list \<Rightarrow> mono \<Rightarrow> (unit \<times> mono) res" where
  "request_struct G base args s =
     (case map_of (generic_structs G) base of
        None \<Rightarrow> if args \<noteq> [] then Inl (GenericError (''type '' @ base @ '' is not generic'')) else Inr ((), s)
      | Some tmpl \<Rightarrow>
          rbind (check_type_args ''type '' base tmpl args) (\<lambda>_.
            let key = (base, map type_key args) in
            if key \<in> set (made_structs s) then Inr ((), s)
            else
              rbind (instance_of tmpl base args) (\<lambda>inst.
                Inr ((), add_generated (inst, None) (s\<lparr>made_structs := key # made_structs s\<rparr>)))))"

definition request_func :: "templates \<Rightarrow> string \<Rightarrow> tref list \<Rightarrow> mono \<Rightarrow> (string \<times> mono) res" where
  "request_func G base args s =
     (case map_of (generic_funcs G) base of
        None \<Rightarrow> if args \<noteq> [] then Inl (GenericError (''function '' @ base @ '' is not generic'')) else Inr (base, s)
      | Some tmpl \<Rightarrow>
          rbind (check_type_args ''function '' base tmpl args) (\<lambda>_.
            let key = (base, map type_key args); name = (if can_erase tmpl then erased_func_name base else instance_name base args)
            in
            if key \<in> set (made_funcs s) then Inr (name, s)
            else
              let s = s\<lparr>made_funcs := key # made_funcs s\<rparr> in
              if \<not> can_erase tmpl then
                rbind (instance_of tmpl base args) (\<lambda>inst. Inr (name, add_generated (inst, None) (add_concrete name s)))
              else if base \<in> set (made_erased s) then Inr (name, s)
              else
                Inr (name, add_generated (erase_function tmpl, Some tmpl)
                  (add_concrete name (s\<lparr>made_erased := base # made_erased s\<rparr>)))))"

subsection \<open>Rewriting\<close>

text \<open>\<open>rewrite_type\<close> looks into pointers, slices, arrays and type applications, not into function types.\<close>

fun mono_rewrite_type :: "templates \<Rightarrow> tref \<Rightarrow> mono \<Rightarrow> (tref \<times> mono) res" where
  "mono_rewrite_type G (PointerType r nullable) s = sbind (mono_rewrite_type G r) (\<lambda>r. sret (PointerType r nullable)) s"
| "mono_rewrite_type G (SliceType r) s = sbind (mono_rewrite_type G r) (\<lambda>r. sret (SliceType r)) s"
| "mono_rewrite_type G (ArrayTypeRef n r) s = sbind (mono_rewrite_type G r) (\<lambda>r. sret (ArrayTypeRef n r)) s"
| "mono_rewrite_type G (GenericType (NamedType base) as) s =
     sbind (smap (mono_rewrite_type G) as) (\<lambda>args.
       if base = ''map'' then sret (GenericType (NamedType ''map'') args)
       else sbind (request_struct G base args) (\<lambda>_. sret (NamedType (instance_name base args)))) s"
| "mono_rewrite_type G t s =
     (if has_key (generic_structs G) (type_key t)
      then Inl (GenericError (''generic type '' @ type_key t @ '' requires explicit type args''))
      else Inr (t, s))"

abbreviation mono_types :: "templates \<Rightarrow> tref list \<Rightarrow> mono \<Rightarrow> (tref list \<times> mono) res" where
  "mono_types G \<equiv> smap (mono_rewrite_type G)"

definition mono_params :: "templates \<Rightarrow> node param list \<Rightarrow> mono \<Rightarrow> (node param list \<times> mono) res" where
  "mono_params G = smap (\<lambda>p. sbind (sopt (mono_rewrite_type G) (ptype p)) (\<lambda>t. sret (Param (pname p) t (pdefault p))))"

text \<open>
  \<open>rewrite_node\<close>: the attributes of one node. A call of \<open>map\<close> becomes a call whose name is the text
  of the map type. An index expression with the name of a generic function is a function value.
\<close>

definition rewrite_call :: "templates \<Rightarrow> span \<Rightarrow> string \<Rightarrow> node list \<Rightarrow> tref list \<Rightarrow> mono \<Rightarrow> (node \<times> mono) res" where
  "rewrite_call G sp x as targs s =
     (case normalize_call x targs of
        Inl e \<Rightarrow> Inl e
      | Inr (x, targs) \<Rightarrow>
          if has_key (generic_funcs G) x \<and> targs = []
          then Inl (GenericError (''generic function '' @ x @ '' requires explicit type args''))
          else if targs = [] then Inr (FunctionCall sp x as targs, s)
          else
            sbind (mono_types G targs) (\<lambda>args.
              if x = ''map'' then sret (FunctionCall sp (format_type_ref (GenericType (NamedType ''map'') args)) as [])
              else sbind (request_func G x args) (\<lambda>name. sret (FunctionCall sp name as []))) s)"

fun rewrite_node :: "templates \<Rightarrow> node \<Rightarrow> mono \<Rightarrow> (node \<times> mono) res" where
  "rewrite_node G (FunctionDeclaration x ps ret b rn rt r1 tps tcs r2 lib ext esym) =
     sbind (mono_params G ps) (\<lambda>ps. sbind (sopt (mono_rewrite_type G) ret) (\<lambda>ret.
       sbind (sopt (mono_rewrite_type G) rt) (\<lambda>rt.
         sret (FunctionDeclaration x ps ret b rn rt r1 tps tcs r2 lib ext esym))))"
| "rewrite_node G (StructDecl x fs tps tcs es) =
     sbind (smap (\<lambda>(f, t). sbind (mono_rewrite_type G t) (\<lambda>t. sret (f, t))) fs) (\<lambda>fs. sret (StructDecl x fs tps tcs es))"
| "rewrite_node G (StructLiteral sp x fs heap) =
     (case parse_type_ref x of
        Inl e \<Rightarrow> sfail e
      | Inr t \<Rightarrow> sbind (mono_rewrite_type G t) (\<lambda>t. sret (StructLiteral sp (format_type_ref t) fs heap)))"
| "rewrite_node G (MapLiteral sp t kvs) = sbind (sopt (mono_rewrite_type G) t) (\<lambda>t. sret (MapLiteral sp t kvs))"
| "rewrite_node G (FunctionCall sp x as targs) = rewrite_call G sp x as targs"
| "rewrite_node G (GenericFunctionValue x targs) =
     (if targs = [] then sret (GenericFunctionValue x targs)
      else sbind (mono_types G targs) (\<lambda>args. sbind (request_func G x args) (\<lambda>name. sret (GenericFunctionValue name []))))"
| "rewrite_node G (IndexAccess obj i cand) =
     (case (cand, obj) of
        (Some (t # ts), Identifier _ x _) \<Rightarrow>
          if has_key (generic_funcs G) x
          then sbind (mono_types G (t # ts)) (\<lambda>args. sbind (request_func G x args) (\<lambda>name. sret (GenericFunctionValue name [])))
          else sret (IndexAccess obj i cand)
      | _ \<Rightarrow> sret (IndexAccess obj i cand))"
| "rewrite_node G (SizeOfType sp t) = sbind (mono_rewrite_type G t) (\<lambda>t. sret (SizeOfType sp t))"
| "rewrite_node G (VariableDeclaration sp x init ann) =
     sbind (sopt (mono_rewrite_type G) ann) (\<lambda>ann. sret (VariableDeclaration sp x init ann))"
| "rewrite_node G (ArrayLiteral sp k t es) = sbind (mono_rewrite_type G t) (\<lambda>t. sret (ArrayLiteral sp k t es))"
| "rewrite_node G (SliceLiteral sp t es) = sbind (sopt (mono_rewrite_type G) t) (\<lambda>t. sret (SliceLiteral sp t es))"
| "rewrite_node G n = sret n"

lemma smap_size:
  assumes "smap f xs s = Inr (ys, s')" and "\<And>x y u v. f x u = Inr (y, v) \<Longrightarrow> g y = h x"
  shows "size_list g ys = size_list h xs"
  using assms(1)
proof (induction xs arbitrary: s ys)
  case (Cons x xs)
  then show ?case using assms(2) by (auto simp: sbind_eq_Inr sret_eq_Inr)
qed (simp add: sret_eq_Inr)

lemma mono_params_size:
  "mono_params G ps s = Inr (qs, s') \<Longrightarrow> size_list (size_param size) qs = size_list (size_param size) ps"
  unfolding mono_params_def
proof (erule smap_size)
  fix p q :: "node param" and u v
  assume "sbind (sopt (mono_rewrite_type G) (ptype p)) (\<lambda>t. sret (Param (pname p) t (pdefault p))) u = Inr (q, v)"
  then show "size_param size q = size_param size p"
    by (cases p) (auto simp: sbind_eq_Inr sret_eq_Inr)
qed

lemma rewrite_call_size: "rewrite_call G sp x as targs s = Inr (m, s') \<Longrightarrow> size m = Suc (size_list size as)"
  by (auto simp: rewrite_call_def sbind_eq_Inr sret_eq_Inr split: sum.splits if_splits)

lemma rewrite_node_size: "rewrite_node G n s = Inr (m, s') \<Longrightarrow> size m \<le> size n"
  by (cases n) (auto simp: sbind_eq_Inr sret_eq_Inr sfail_def split: sum.splits if_splits option.splits list.splits node.splits
      dest!: mono_params_size rewrite_call_size)

function walk_rewrite :: "bool \<Rightarrow> templates \<Rightarrow> node \<Rightarrow> mono \<Rightarrow> (node \<times> mono) res" where
  "walk_rewrite skip G n s =
     sbind (rewrite_node G n) (\<lambda>n.
       sbind (smap (walk_rewrite skip G) (kids skip n)) (\<lambda>ks. sret (with_kids skip n ks))) s"
  by pat_completeness auto
termination
  by (relation "measure (\<lambda>(skip, G, n, s). size n)") (auto dest!: rewrite_node_size kids_size)

declare walk_rewrite.simps [simp del]

subsection \<open>The loop\<close>

definition walk_ordinary :: "templates \<Rightarrow> nat \<Rightarrow> mono \<Rightarrow> mono res" where
  "walk_ordinary G i s =
     rbind (walk_rewrite False G (ordinary s ! i) s) (\<lambda>(n, s). Inr (s\<lparr>ordinary := (ordinary s)[i := n]\<rparr>))"

definition walk_generated :: "templates \<Rightarrow> nat \<Rightarrow> mono \<Rightarrow> mono res" where
  "walk_generated G i s =
     (case generated s ! i of (n, tmpl) \<Rightarrow>
        rbind (walk_rewrite True G n s) (\<lambda>(n, s).
        rbind (sopt (walk_rewrite True G) tmpl s) (\<lambda>(tmpl, s).
          Inr (s\<lparr>generated := (generated s)[i := (n, tmpl)]\<rparr>))))"

text \<open>
  The loop over \<open>generated\<close>, which grows while it runs: \<open>i\<close> is the position of the iterator. It
  need not end, so it has a fuel.
\<close>

fun generated_loop :: "nat \<Rightarrow> templates \<Rightarrow> nat \<Rightarrow> mono \<Rightarrow> mono res" where
  "generated_loop k G i s =
     (if length (generated s) \<le> i then Inr s
      else case k of 0 \<Rightarrow> Inl OutOfFuel | Suc k \<Rightarrow> rbind (walk_generated G i s) (generated_loop k G (Suc i)))"

declare generated_loop.simps [simp del]

fun call_target :: "node \<Rightarrow> (string \<times> nat) option" where
  "call_target (FunctionCall _ x as _) = Some (x, length as)"
| "call_target _ = None"

definition calls_in :: "node \<Rightarrow> (string \<times> nat) list" where
  "calls_in n = List.map_filter call_target (subnodes True n)"

definition at_place :: "mono \<Rightarrow> place \<Rightarrow> node" where
  "at_place s l = (case l of Ordinary i \<Rightarrow> ordinary s ! i | Generated i \<Rightarrow> fst (generated s ! i))"

definition put_at :: "place \<Rightarrow> node \<Rightarrow> mono \<Rightarrow> mono" where
  "put_at l n s =
     (case l of
        Ordinary i \<Rightarrow> s\<lparr>ordinary := (ordinary s)[i := n]\<rparr>
      | Generated i \<Rightarrow> s\<lparr>generated := (generated s)[i := (n, snd (generated s ! i))]\<rparr>)"

fun set_default :: "nat \<Rightarrow> node \<Rightarrow> node \<Rightarrow> node" where
  "set_default j d (FunctionDeclaration x ps ret b rn rt r1 tps tcs r2 lib ext esym) =
     FunctionDeclaration x (ps[j := Param (pname (ps ! j)) (ptype (ps ! j)) (Some d)]) ret b rn rt r1 tps tcs r2 lib ext esym"
| "set_default j d n = n"

definition rewrite_default :: "templates \<Rightarrow> place \<Rightarrow> nat \<Rightarrow> mono \<Rightarrow> mono res" where
  "rewrite_default G l j s =
     (case pdefault (decl_params (at_place s l) ! j) of
        None \<Rightarrow> Inr s
      | Some d \<Rightarrow> rbind (walk_rewrite False G d s) (\<lambda>(d, s). Inr (put_at l (set_default j d (at_place s l)) s)))"

definition request_omitted_defaults :: "templates \<Rightarrow> string \<times> nat \<Rightarrow> mono \<Rightarrow> mono res" where
  "request_omitted_defaults G c s =
     (case map_of (concrete_funcs s) (fst c) of
        None \<Rightarrow> Inr s
      | Some l \<Rightarrow> rfold (rewrite_default G l) [snd c ..< length (decl_params (at_place s l))] s)"

definition request_call_defaults :: "templates \<Rightarrow> place \<Rightarrow> mono \<Rightarrow> mono res" where
  "request_call_defaults G l s =
     (let calls = (case l of
            Ordinary i \<Rightarrow> calls_in (ordinary s ! i)
          | Generated i \<Rightarrow> calls_in (fst (generated s ! i)) @ (case snd (generated s ! i) of None \<Rightarrow> [] | Some t \<Rightarrow> calls_in t))
      in rfold (request_omitted_defaults G) calls s)"

definition mono_round :: "nat \<Rightarrow> templates \<Rightarrow> mono \<Rightarrow> mono res" where
  "mono_round k G s =
     rbind (rfold (walk_ordinary G) [0 ..< length (ordinary s)] s) (\<lambda>s.
     rbind (generated_loop k G 0 s) (\<lambda>s.
       rfold (request_call_defaults G)
         (map Ordinary [0 ..< length (ordinary s)] @ map Generated [0 ..< length (generated s)]) s))"

text \<open>\<open>while changed\<close>\<close>

fun mono_rounds :: "nat \<Rightarrow> templates \<Rightarrow> mono \<Rightarrow> mono res" where
  "mono_rounds 0 G s = Inl OutOfFuel"
| "mono_rounds (Suc k) G s =
     rbind (mono_round k G s) (\<lambda>s'.
       if length (generated s') \<noteq> length (generated s) then mono_rounds k G s' else Inr s')"

text \<open>The first loop: templates and ordinary declarations. A later template replaces an earlier one.\<close>

definition sort_decl :: "node \<Rightarrow> templates \<times> mono \<Rightarrow> (templates \<times> mono) res" where
  "sort_decl stmt = (\<lambda>(G, s).
     if type_params stmt \<noteq> [] then
       (case stmt of
          FunctionDeclaration x _ _ _ rn _ _ _ _ _ _ _ _ \<Rightarrow>
            if rn \<noteq> None then Inl (GenericError ''generic methods are not supported in generic v1'')
            else Inr (G\<lparr>generic_funcs := dict_set x stmt (generic_funcs G)\<rparr>, s)
        | _ \<Rightarrow> Inr (G\<lparr>generic_structs := dict_set (decl_name stmt) stmt (generic_structs G)\<rparr>, s))
     else
       let s = (case stmt of
           FunctionDeclaration x _ _ _ _ _ _ _ _ _ _ _ _ \<Rightarrow>
             s\<lparr>concrete_funcs := dict_set x (Ordinary (length (ordinary s))) (concrete_funcs s)\<rparr>
         | _ \<Rightarrow> s)
       in Inr (G, s\<lparr>ordinary := ordinary s @ [stmt]\<rparr>))"

definition monomorphize :: "nat \<Rightarrow> node list \<Rightarrow> node list res" where
  "monomorphize k program =
     rbind (rfold sort_decl program
       (\<lparr>generic_funcs = [], generic_structs = []\<rparr>,
        \<lparr>ordinary = [], generated = [], made_funcs = [], made_erased = [], made_structs = [], concrete_funcs = []\<rparr>))
     (\<lambda>(G, s). rbind (mono_rounds k G s) (\<lambda>s. Inr (ordinary s @ map fst (generated s))))"

end
