(* ===== verification/GenericsProps.thy ===== *)
theory GenericsProps
  imports Generics TypeRefProps
begin

text \<open>
  Monomorphization: what is left of the generic declarations in its result, where it changes
  nothing, where it does not end, and the names and the erased functions it makes.
\<close>

subsection \<open>Children\<close>

lemma kids_opt_simps [simp]: "kids_opt None = []" "kids_opt (Some x) = [x]"
  by (simp_all add: kids_opt_def)

lemma kids_optblock_simps [simp]: "kids_optblock None = []" "kids_optblock (Some b) = statements b"
  by (simp_all add: kids_optblock_def)

lemma refill_opt_simps [simp]: "refill_opt None ks = None" "refill_opt (Some x) ks = Some (hd ks)"
  by (simp_all add: refill_opt_def)

lemma kids_refill_opt: "length (kids_opt v) \<le> length ks \<Longrightarrow> kids_opt (refill_opt v ks) = take (length (kids_opt v)) ks"
  by (cases v; cases ks) auto

lemma kids_refill_block [simp]: "statements (refill_block b ks) = take (length (statements b)) ks"
  by (simp add: refill_block_def)

lemma kids_refill_optblock:
  "kids_optblock (refill_optblock v ks) = take (length (kids_optblock v)) ks"
  by (cases v) (simp_all add: refill_optblock_def)

lemma kids_params_simps [simp]:
  "kids_params True ps = []" "kids_params False [] = []"
  "kids_params False (p # ps) = kids_opt (pdefault p) @ kids_params False ps"
  by (simp_all add: kids_params_def)

lemma kids_put_params:
  "length (kids_params skip ps) \<le> length ks \<Longrightarrow> kids_params skip (put_params skip ps ks) = take (length (kids_params skip ps)) ks"
proof (cases skip)
  case False
  have "length (kids_params False ps) \<le> length ks \<Longrightarrow>
      kids_params False (refill_params ps ks) = take (length (kids_params False ps)) ks"
  proof (induction ps arbitrary: ks)
    case (Cons p ps)
    then show ?case by (simp add: kids_refill_opt take_add)
  qed simp
  with False show "length (kids_params skip ps) \<le> length ks \<Longrightarrow> ?thesis" by (simp add: put_params_def)
qed simp

lemma kids_arms_simps [simp]: "kids_arms [] = []" "kids_arms ((p, b) # arms) = kids_opt p @ b # kids_arms arms"
  by (simp_all add: kids_arms_def)

lemma kids_refill_arms: "length ks = length (kids_arms arms) \<Longrightarrow> kids_arms (refill_arms arms ks) = ks"
proof (induction arms ks rule: refill_arms.induct)
  case (2 p b arms ks)
  let ?n = "length (kids_opt p)"
  have "?n < length ks" using 2(2) by simp
  moreover have "kids_arms (refill_arms arms (drop (Suc ?n) ks)) = drop (Suc ?n) ks"
    using 2 by simp
  ultimately show ?case
    by (simp add: kids_refill_opt id_take_nth_drop [of ?n ks, symmetric])
qed simp

lemma kids_refill_pairs:
  "length ks = length (concat (map (\<lambda>(k, v). [k, v]) kvs)) \<Longrightarrow>
     concat (map (\<lambda>(k, v). [k, v]) (refill_pairs kvs ks)) = ks"
proof (induction kvs ks rule: refill_pairs.induct)
  case (2 kv kvs ks)
  obtain k v where "kv = (k, v)" by (cases kv)
  moreover from this 2(2) obtain a b ks' where "ks = a # b # ks'" by (cases ks; cases "tl ks") auto
  ultimately show ?case using 2 by simp
qed simp

lemma take_drop_append:
  "take n (drop m xs) @ drop (n + m) xs = drop m xs"
  "take n (drop (p + m) xs) @ drop (n + p + m) xs = drop (p + m) xs"
  using append_take_drop_id [of n "drop m xs"] append_take_drop_id [of n "drop (p + m) xs"] by (simp_all add: add.assoc)

lemma kids_with_kids: "length ks = length (kids skip n) \<Longrightarrow> kids skip (with_kids skip n ks) = ks"
  by (cases n)
    (auto simp: Let_def kids_refill_opt kids_refill_optblock kids_put_params kids_refill_arms kids_refill_pairs
      length_Suc_conv take_drop_append)


lemma refill_params_kids: "refill_params ps (concat (map (\<lambda>p. kids_opt (pdefault p)) ps) @ rest) = ps"
proof (induction ps)
  case (Cons p ps)
  then show ?case by (cases p; cases "pdefault p") auto
qed simp

lemma refill_arms_kids [simp]: "refill_arms arms (kids_arms arms) = arms"
proof (induction arms)
  case (Cons arm arms)
  then show ?case by (cases arm; cases "fst arm") auto
qed simp

lemma refill_pairs_kids [simp]: "refill_pairs kvs (concat (map (\<lambda>(k, v). [k, v]) kvs)) = kvs"
  by (induction kvs) auto

lemma put_params_kids [simp]: "put_params skip ps (kids_params skip ps @ rest) = ps"
  by (simp add: put_params_def kids_params_def refill_params_kids)

lemma refill_kids [simp]:
  "refill_opt v (kids_opt v @ rest) = v" "refill_opt v (kids_opt v) = v"
  "refill_block b (statements b @ rest) = b" "refill_block b (statements b) = b"
  "refill_optblock w (kids_optblock w) = w"
  by (cases v; cases b; cases w; simp add: refill_block_def refill_optblock_def)+

lemma with_kids_kids: "with_kids skip n (kids skip n) = n"
  by (cases n) (auto simp: Let_def zip_map_fst_snd)


subsection \<open>What a walk does to the state\<close>

text \<open>
  Every step of a walk leaves the ordinary declarations alone and only appends declarations without
  type parameters. A relation between states is kept by a step when it relates the states before
  and after.
\<close>

definition grows :: "mono \<Rightarrow> mono \<Rightarrow> bool" where
  "grows s s' \<longleftrightarrow> ordinary s' = ordinary s
     \<and> (\<exists>items. generated s' = generated s @ items \<and> (\<forall>(n, t) \<in> set items. type_params n = []))"

lemma grows_refl [simp]: "grows s s"
  by (simp add: grows_def)

lemma grows_same [simp]: "generated s' = generated s \<Longrightarrow> ordinary s' = ordinary s \<Longrightarrow> grows s s'"
  by (simp add: grows_def)

lemma grows_trans: "grows s t \<Longrightarrow> grows t u \<Longrightarrow> grows s u"
  by (fastforce simp: grows_def)

definition kept :: "(mono \<Rightarrow> ('a \<times> mono) res) \<Rightarrow> bool" where
  "kept m \<longleftrightarrow> (\<forall>s a s'. m s = Inr (a, s') \<longrightarrow> grows s s')"

named_theorems kept_intros \<open>steps that keep the relation\<close>

lemma keptD: "kept m \<Longrightarrow> m s = Inr (a, s') \<Longrightarrow> grows s s'"
  by (auto simp: kept_def)

lemma kept_sret [kept_intros]: "kept (sret a)"
  by (simp add: kept_def sret_eq_Inr)

lemma kept_sfail [kept_intros]: "kept (sfail e)"
  by (simp add: kept_def sfail_def)

lemma kept_sbind [kept_intros]: "kept m \<Longrightarrow> (\<And>a. kept (f a)) \<Longrightarrow> kept (sbind m f)"
  unfolding kept_def sbind_eq_Inr using grows_trans by blast

lemma kept_smap [kept_intros]: "(\<And>x. x \<in> set xs \<Longrightarrow> kept (f x)) \<Longrightarrow> kept (smap f xs)"
  by (induction xs) (auto intro!: kept_intros)

lemma kept_sopt [kept_intros]: "(\<And>x. v = Some x \<Longrightarrow> kept (f x)) \<Longrightarrow> kept (sopt f v)"
  by (cases v) (auto simp: sopt_def intro!: kept_intros)

lemma map_children_type_params: "map_children f n = Inr m \<Longrightarrow> type_params m = type_params n"
  by (cases n) (auto simp: map_children_def)

lemma substitute_type_params:
  assumes "substitute_node \<sigma> n = Inr m"
  shows "type_params m = []"
proof -
  from assms obtain n' where "substitute_attrs \<sigma> n = Inr n'" "map_children (substitute_node \<sigma>) n' = Inr m"
    by (auto simp: substitute_node.simps)
  moreover from this(1) have "type_params n' = []" by (cases n) auto
  ultimately show ?thesis by (simp add: map_children_type_params)
qed

lemma rename_type_params [simp]: "type_params (rename x n) = type_params n"
  by (cases n) auto

lemma instance_type_params: "instance_of tmpl base args = Inr n \<Longrightarrow> type_params n = []"
  by (auto simp: instance_of_def dest: substitute_type_params)

lemma erase_type_params [simp]: "type_params (erase_function fn) = []"
  by (simp add: erase_function_def Let_def)

lemma grows_add [simp]:
  "type_params n = [] \<Longrightarrow> generated s' = generated s \<Longrightarrow> ordinary s' = ordinary s \<Longrightarrow> grows s (add_generated (n, t) s')"
  by (simp add: grows_def add_generated_def)

lemma add_concrete_simps [simp]:
  "generated (add_concrete x s) = generated s" "ordinary (add_concrete x s) = ordinary s"
  by (simp_all add: add_concrete_def)

lemma kept_request_struct [kept_intros]: "kept (request_struct G base args)"
  by (auto simp: kept_def request_struct_def Let_def instance_type_params split: option.splits if_splits)

lemma kept_request_func [kept_intros]: "kept (request_func G base args)"
  unfolding kept_def request_func_def Let_def
  by (auto simp: instance_type_params split: option.splits if_splits)


lemma kept_mono_rewrite_type [kept_intros]: "kept (mono_rewrite_type G t)"
proof (induction t)
  case (GenericType b as)
  show ?case
  proof (cases "\<exists>base. b = NamedType base")
    case True
    then obtain base where b: "b = NamedType base" ..
    have "mono_rewrite_type G (GenericType (NamedType base) as) =
       sbind (smap (mono_rewrite_type G) as) (\<lambda>args.
         if base = ''map'' then sret (GenericType (NamedType ''map'') args)
         else sbind (request_struct G base args) (\<lambda>_. sret (NamedType (instance_name base args))))"
      by (rule ext) simp
    with b GenericType(2) show ?thesis by (auto intro!: kept_intros)
  qed (cases b; auto simp: kept_def split: if_splits)
qed (auto simp: kept_def sbind_eq_Inr sret_eq_Inr split: if_splits)

lemma kept_mono_params [kept_intros]: "kept (mono_params G ps)"
  unfolding mono_params_def by (intro kept_intros)

lemma kept_rewrite_call [kept_intros]: "kept (rewrite_call G sp x as targs)"
proof -
  have "kept (sbind (mono_types G targs) (\<lambda>args.
      if x = ''map'' then sret (FunctionCall sp (format_type_ref (GenericType (NamedType ''map'') args)) as [])
      else sbind (request_func G x args) (\<lambda>name. sret (FunctionCall sp name as []))))" for x targs
    by (auto intro!: kept_intros)
  then show ?thesis
    by (auto simp: kept_def rewrite_call_def split: sum.splits if_splits)
qed

lemma kept_rewrite_node [kept_intros]: "kept (rewrite_node G n)"
  by (cases n) (auto intro!: kept_intros split: sum.splits option.splits list.splits node.splits)

lemma kept_walk_rewrite [kept_intros]: "kept (walk_rewrite skip G n)"
proof (induction n rule: measure_induct_rule [of size])
  case (less n)
  show ?case
    unfolding kept_def
  proof (intro allI impI)
    fix s m s' assume "walk_rewrite skip G n s = Inr (m, s')"
    then obtain n' u ks where n': "rewrite_node G n s = Inr (n', u)"
      and ks: "smap (walk_rewrite skip G) (kids skip n') u = Inr (ks, s')"
      by (auto simp: walk_rewrite.simps sbind_eq_Inr sret_eq_Inr)
    have "kept (smap (walk_rewrite skip G) (kids skip n'))"
      using less rewrite_node_size [OF n'] by (intro kept_intros) (auto dest!: kids_size)
    with n' ks kept_rewrite_node [of G n] show "grows s s'"
      by (blast dest: keptD intro: grows_trans)
  qed
qed


subsection \<open>What is left of generics\<close>

text \<open>
  A type without applications of generic types in it, where the code looks: not inside function
  types. And a node without them in its own attributes.
\<close>

fun mono_ok :: "tref \<Rightarrow> bool" where
  "mono_ok (PointerType r _) = mono_ok r"
| "mono_ok (SliceType r) = mono_ok r"
| "mono_ok (ArrayTypeRef _ r) = mono_ok r"
| "mono_ok (GenericType (NamedType b) as) \<longleftrightarrow> b = ''map'' \<and> (\<forall>a \<in> set as. mono_ok a)"
| "mono_ok _ \<longleftrightarrow> True"

text \<open>The text of a type that, read back, applies no generic struct: an application in it is one of \<open>map\<close>.\<close>

definition literal_ok :: "string \<Rightarrow> bool" where
  "literal_ok x \<longleftrightarrow> (\<forall>b as. parse_type_ref x = Inr (GenericType b as) \<longrightarrow> b = NamedType ''map'')"

definition opt_mono_ok :: "tref option \<Rightarrow> bool" where
  "opt_mono_ok t \<longleftrightarrow> (case t of None \<Rightarrow> True | Some t \<Rightarrow> mono_ok t)"

definition params_mono_ok :: "node param list \<Rightarrow> bool" where
  "params_mono_ok ps \<longleftrightarrow> (\<forall>p \<in> set ps. opt_mono_ok (ptype p))"

fun attrs_mono :: "node \<Rightarrow> bool" where
  "attrs_mono (FunctionDeclaration x ps ret b rn rt r1 tps tcs r2 lib ext esym) \<longleftrightarrow>
     params_mono_ok ps \<and> opt_mono_ok ret \<and> opt_mono_ok rt"
| "attrs_mono (StructDecl x fs tps tcs es) \<longleftrightarrow> (\<forall>(f, t) \<in> set fs. mono_ok t)"
| "attrs_mono (StructLiteral sp x fs heap) \<longleftrightarrow> literal_ok x"
| "attrs_mono (MapLiteral sp t kvs) \<longleftrightarrow> opt_mono_ok t"
| "attrs_mono (FunctionCall sp x as targs) \<longleftrightarrow> targs = []"
| "attrs_mono (GenericFunctionValue x targs) \<longleftrightarrow> targs = []"
| "attrs_mono (SizeOfType sp t) \<longleftrightarrow> mono_ok t"
| "attrs_mono (VariableDeclaration sp x init ann) \<longleftrightarrow> opt_mono_ok ann"
| "attrs_mono (ArrayLiteral sp k t es) \<longleftrightarrow> mono_ok t"
| "attrs_mono (SliceLiteral sp t es) \<longleftrightarrow> opt_mono_ok t"
| "attrs_mono n \<longleftrightarrow> True"

lemma smap_Inr_mem: "smap f xs s = Inr (ys, s') \<Longrightarrow> y \<in> set ys \<Longrightarrow> \<exists>x \<in> set xs. \<exists>u v. f x u = Inr (y, v)"
  by (induction xs arbitrary: s ys) (fastforce simp: sbind_eq_Inr sret_eq_Inr)+

lemma smap_length: "smap f xs s = Inr (ys, s') \<Longrightarrow> length ys = length xs"
  by (induction xs arbitrary: s ys) (auto simp: sbind_eq_Inr sret_eq_Inr)

lemma rewrite_type_mono: "mono_rewrite_type G t s = Inr (r, s') \<Longrightarrow> mono_ok r"
proof (induction G t s arbitrary: r s' rule: mono_rewrite_type.induct)
  case (4 G base as s)
  from 4(2) obtain args u where args: "smap (mono_rewrite_type G) as s = Inr (args, u)"
    and r: "base = ''map'' \<and> r = GenericType (NamedType ''map'') args \<or> (\<exists>x. r = NamedType x)"
    by (auto simp: sbind_eq_Inr sret_eq_Inr split: if_splits)
  have "\<forall>a \<in> set args. mono_ok a"
    using smap_Inr_mem [OF args] 4(1) by blast
  with r show ?case by auto
qed (auto simp: sbind_eq_Inr sret_eq_Inr split: if_splits)

lemma parse_applicationE:
  assumes "parse_type_ref x = Inr (GenericType b as)"
  obtains lb where "find_char CHR ''['' (py_strip x) = Some lb" "parse_type_ref (take lb (py_strip x)) = Inr b"
    "\<not> starts_with ''*'' (py_strip x)" "\<not> starts_with ''['' (py_strip x)" "\<not> starts_with ''?*'' (py_strip x)"
    "\<not> starts_with ''fn('' (py_strip x)"
  using assms
  by (simp add: parse_type_ref.simps [of x] Let_def split: if_split_asm option.split_asm)

lemma literal_ok_prefix:
  assumes "p = ''*'' \<or> p = ''['' \<or> p = ''?*'' \<or> p = ''fn(''"
  shows "literal_ok (p @ s)"
proof -
  have "p \<noteq> []" "\<not> py_isspace (hd p)" "\<not> py_isspace (last p)" using assms by (auto simp: py_char_defs)
  from strip_prefix [OF this, of s] obtain t where "py_strip (p @ s) = p @ t" by blast
  then show ?thesis using assms by (auto simp: literal_ok_def starts_with_conv elim!: parse_applicationE)
qed

lemma strip_chars: "set (py_strip s) \<subseteq> set s"
  by (auto simp: py_strip_def py_lstrip_def py_rstrip_def dest!: set_dropWhileD)

lemma literal_ok_plain: "CHR ''['' \<notin> set x \<Longrightarrow> literal_ok x"
  using strip_chars [of x] find_char_None [of "CHR ''[''" "py_strip x"]
  by (auto simp: literal_ok_def elim!: parse_applicationE)

lemma literal_ok_map: "literal_ok (''map['' @ s)"
proof -
  obtain t where t: "py_strip (''map['' @ s) = ''map['' @ t"
    using strip_prefix [of "''map[''" s] by (auto simp: py_char_defs)
  have "parse_type_ref ''map'' = Inr (NamedType ''map'')" by code_simp
  then have "b = NamedType ''map''" if "parse_type_ref (take lb (''map['' @ t)) = Inr b" "find_char CHR ''['' (''map['' @ t) = Some lb" for b lb
    using that by auto
  then show ?thesis unfolding literal_ok_def t [symmetric] by (blast elim: parse_applicationE)
qed

lemma strip_ends:
  assumes "py_strip s \<noteq> []"
  shows "\<not> py_isspace (hd (py_strip s))" and "\<not> py_isspace (last (py_strip s))"
proof -
  obtain c u where u: "py_lstrip s = c # u" using assms by (cases "py_lstrip s") (auto simp: py_strip_def py_rstrip_def)
  then have c: "\<not> py_isspace c" using hd_dropWhile [of py_isspace s] by (auto simp: py_lstrip_def)
  from rstrip_prefix [of "[c]" u] c obtain t where "py_rstrip (c # u) = c # t" by auto
  then show "\<not> py_isspace (hd (py_strip s))" using c by (simp add: py_strip_def u)
  have "dropWhile py_isspace (rev (py_lstrip s)) \<noteq> []" using assms by (simp add: py_strip_def py_rstrip_def)
  from hd_dropWhile [OF this] this show "\<not> py_isspace (last (py_strip s))"
    by (simp add: py_strip_def py_rstrip_def last_rev)
qed

lemma strip_idem: "py_strip (py_strip s) = py_strip s"
  using strip_ends [of s] by (intro py_strip_id) blast

lemma parse_strip: "parse_type_ref (py_strip x) = parse_type_ref x"
  by (simp only: parse_type_ref.simps [of x] parse_type_ref.simps [of "py_strip x"] strip_idem)

lemma strip_take_prefix:
  assumes "starts_with p (py_strip (take k (py_strip x)))"
  shows "starts_with p (py_strip x)"
proof (cases "take k (py_strip x)")
  case Nil
  have "py_strip [] = []" by (simp add: py_strip_def py_lstrip_def py_rstrip_def)
  then show ?thesis using assms by (cases p) (simp_all add: Nil)
next
  case (Cons c u)
  then have "py_strip x \<noteq> []" "hd (py_strip x) = c" by (cases "py_strip x"; cases k; auto)+
  then have "py_lstrip (take k (py_strip x)) = take k (py_strip x)"
    using strip_ends(1) [of x] Cons by (simp add: py_lstrip_def)
  moreover have "\<exists>v. y = py_rstrip y @ v" for y
    using takeWhile_dropWhile_id [of py_isspace "rev y"] unfolding py_rstrip_def by (metis rev_append rev_rev_ident)
  ultimately obtain v where "take k (py_strip x) = py_strip (take k (py_strip x)) @ v" by (auto simp: py_strip_def)
  then have "starts_with p (take k (py_strip x))" using assms unfolding starts_with_conv by (metis append.assoc)
  then show ?thesis unfolding starts_with_conv by (metis append.assoc append_take_drop_id)
qed

lemma parse_base:
  assumes "find_char CHR ''['' (py_strip x) = Some lb" and "parse_type_ref (take lb (py_strip x)) = Inr b"
    and "\<not> starts_with ''*'' (py_strip x)" "\<not> starts_with ''['' (py_strip x)" "\<not> starts_with ''?*'' (py_strip x)"
    and "\<not> starts_with ''fn('' (py_strip x)"
  shows "\<exists>n. b = NamedType n \<and> CHR ''['' \<notin> set n"
proof -
  let ?y = "take lb (py_strip x)"
  have y: "CHR ''['' \<notin> set (py_strip ?y)" using find_char_Some [OF assms(1)] strip_chars [of ?y] by blast
  have "\<not> starts_with ''*'' (py_strip ?y)" "\<not> starts_with ''['' (py_strip ?y)" "\<not> starts_with ''?*'' (py_strip ?y)"
    "\<not> starts_with ''fn('' (py_strip ?y)" "\<not> starts_with ''[]'' (py_strip ?y)"
    using assms(3-6) strip_take_prefix y by (blast, blast, blast, blast, auto simp: starts_with_conv)
  moreover have "find_char CHR ''['' (py_strip ?y) = None" using y by (simp add: find_char_None)
  ultimately have "b = NamedType (py_strip ?y)" using assms(2) by (simp add: parse_type_ref.simps [of ?y] Let_def)
  then show ?thesis using y by blast
qed

lemma parse_name: "parse_type_ref x = Inr (NamedType n) \<Longrightarrow> n = py_strip x"
  by (simp add: parse_type_ref.simps [of x] Let_def split: if_split_asm option.split_asm)

lemma instance_chars: "CHR ''['' \<notin> set b \<Longrightarrow> CHR ''['' \<notin> set (instance_name b args)"
proof -
  have l: "CHR ''['' \<notin> set (sub_label r s)" for r s
    by (induction r s rule: sub_label.induct) (auto simp: label_char_def py_char_defs)
  have "CHR ''['' \<notin> set (mangle_type t)" for t
    using l [of False "type_key t"] by (auto simp: mangle_type_def strip_underscores_def dest!: set_dropWhileD)
  then have "CHR ''['' \<notin> set (join ''__'' (map mangle_type args))"
    by (induction args rule: induct_list012) auto
  then show "CHR ''['' \<notin> set b \<Longrightarrow> CHR ''['' \<notin> set (instance_name b args)" by (simp add: instance_name_def)
qed

lemma rewrite_text_mono:
  assumes "parse_type_ref x = Inr u" and "mono_rewrite_type G u s = Inr (t, s')"
  shows "literal_ok (format_type_ref t)"
proof (cases u)
  case (NamedType n)
  then have "parse_type_ref n = parse_type_ref x" using assms(1) parse_name parse_strip [of x] by simp
  then show ?thesis using assms NamedType by (auto simp: literal_ok_def split: if_split_asm)
next
  case (PointerType r q)
  then show ?thesis using assms(2) literal_ok_prefix [of "''*''"] literal_ok_prefix [of "''?*''"]
    by (auto simp: sbind_eq_Inr sret_eq_Inr)
next
  case (SliceType r)
  then show ?thesis using assms(2) literal_ok_prefix [of "''[''" "CHR '']'' # _"] by (auto simp: sbind_eq_Inr sret_eq_Inr)
next
  case (ArrayTypeRef n r)
  then show ?thesis using assms(2) literal_ok_prefix [of "''[''"] by (auto simp: sbind_eq_Inr sret_eq_Inr)
next
  case (FunctionType ps r f)
  then show ?thesis using assms(2) literal_ok_prefix [of "''fn(''"] by (auto split: if_split_asm)
next
  case (GenericType b as)
  with assms(1) obtain lb where lb: "find_char CHR ''['' (py_strip x) = Some lb" "parse_type_ref (take lb (py_strip x)) = Inr b"
    "\<not> starts_with ''*'' (py_strip x)" "\<not> starts_with ''['' (py_strip x)" "\<not> starts_with ''?*'' (py_strip x)"
    "\<not> starts_with ''fn('' (py_strip x)"
    by (auto elim: parse_applicationE)
  from parse_base [OF this] obtain n where n: "b = NamedType n" "CHR ''['' \<notin> set n" by blast
  have "(n = ''map'' \<and> (\<exists>args. t = GenericType (NamedType ''map'') args)) \<or> (\<exists>args. t = NamedType (instance_name n args))"
    using assms(2) GenericType n(1) by (auto simp: sbind_eq_Inr sret_eq_Inr split: if_split_asm)
  then show ?thesis
  proof (elim disjE exE conjE)
    fix args assume "t = GenericType (NamedType ''map'') args"
    then show ?thesis using literal_ok_map by simp
  next
    fix args assume "t = NamedType (instance_name n args)"
    then show ?thesis using literal_ok_plain [OF instance_chars [OF n(2)]] by simp
  qed
qed

lemma rewrite_opt_mono: "sopt (mono_rewrite_type G) t s = Inr (r, s') \<Longrightarrow> opt_mono_ok r"
  by (cases t) (auto simp: sopt_def opt_mono_ok_def sbind_eq_Inr sret_eq_Inr dest: rewrite_type_mono)

lemma rewrite_params_mono: "mono_params G ps s = Inr (qs, s') \<Longrightarrow> params_mono_ok qs"
  unfolding mono_params_def params_mono_ok_def
  by (auto simp: sbind_eq_Inr sret_eq_Inr dest!: smap_Inr_mem rewrite_opt_mono)

lemma rewrite_fields_mono:
  "smap (\<lambda>(f, t). sbind (mono_rewrite_type G t) (\<lambda>t. sret (f, t))) fs s = Inr (gs, s') \<Longrightarrow> \<forall>(f, t) \<in> set gs. mono_ok t"
  by (fastforce simp: sbind_eq_Inr sret_eq_Inr split: prod.splits dest!: smap_Inr_mem dest: rewrite_type_mono)

lemma rewrite_call_mono: "rewrite_call G sp x as targs s = Inr (m, s') \<Longrightarrow> attrs_mono m \<and> type_params m = []"
  by (auto simp: rewrite_call_def sbind_eq_Inr sret_eq_Inr split: sum.splits if_splits)

lemma rewrite_node_mono: "rewrite_node G n s = Inr (m, s') \<Longrightarrow> attrs_mono m \<and> type_params m = type_params n"
  by (cases n)
    (auto simp: sbind_eq_Inr sret_eq_Inr sfail_def split: sum.splits if_splits option.splits list.splits node.splits
      dest: rewrite_text_mono rewrite_type_mono rewrite_opt_mono rewrite_params_mono rewrite_call_mono rewrite_fields_mono)


lemma put_params_types: "map ptype (put_params skip ps ks) = map ptype ps"
proof -
  have "map ptype (refill_params ps ks) = map ptype ps"
    by (induction ps ks rule: refill_params.induct) auto
  then show ?thesis by (simp add: put_params_def)
qed

lemma params_mono_ok_types: "map ptype ps = map ptype qs \<Longrightarrow> params_mono_ok ps = params_mono_ok qs"
proof -
  assume "map ptype ps = map ptype qs"
  then have "ptype ` set ps = ptype ` set qs" by (simp flip: set_map)
  moreover have "params_mono_ok ps \<longleftrightarrow> (\<forall>t \<in> ptype ` set ps. opt_mono_ok t)" for ps :: "node param list"
    by (auto simp: params_mono_ok_def)
  ultimately show ?thesis by (simp only:)
qed

lemma attrs_with_kids [simp]:
  "attrs_mono (with_kids skip n ks) = attrs_mono n" "type_params (with_kids skip n ks) = type_params n"
  by (cases n; simp add: Let_def params_mono_ok_types [OF put_params_types])+

lemma walk_rewrite_mono:
  "walk_rewrite skip G n s = Inr (m, s') \<Longrightarrow> type_params m = type_params n \<and> (\<forall>k \<in> set (subnodes skip m). attrs_mono k)"
proof (induction n arbitrary: s m s' rule: measure_induct_rule [of size])
  case (less n)
  from less.prems obtain n' u ks where n': "rewrite_node G n s = Inr (n', u)"
    and ks: "smap (walk_rewrite skip G) (kids skip n') u = Inr (ks, s')" and m: "m = with_kids skip n' ks"
    by (auto simp: walk_rewrite.simps sbind_eq_Inr sret_eq_Inr)
  have "kids skip m = ks"
    unfolding m by (rule kids_with_kids) (rule smap_length [OF ks])
  moreover have "\<forall>k \<in> set (subnodes skip c). attrs_mono k" if "c \<in> set ks" for c
  proof -
    from smap_Inr_mem [OF ks that] obtain x v w where "x \<in> set (kids skip n')" "walk_rewrite skip G x v = Inr (c, w)"
      by blast
    with less.IH [of x v c w] kids_size [of x skip n'] rewrite_node_size [OF n'] show ?thesis by simp
  qed
  ultimately show ?case
    using rewrite_node_mono [OF n'] m by (subst subnodes.simps) auto
qed

lemma kids_mono: "set (kids True n) \<subseteq> set (kids False n)"
  by (cases n) (auto simp: kids_params_def)

lemma subnodes_mono: "set (subnodes True n) \<subseteq> set (subnodes False n)"
proof (induction n rule: measure_induct_rule [of size])
  case (less n)
  then have "\<And>k. k \<in> set (kids True n) \<Longrightarrow> set (subnodes True k) \<subseteq> set (subnodes False k)"
    using kids_size by blast
  with kids_mono [of n] show ?case
    unfolding subnodes.simps [of _ n] by fastforce
qed

text \<open>A declaration without generics: no type parameters, and none but in the defaults of parameters.\<close>

definition mono_decl :: "node \<Rightarrow> bool" where
  "mono_decl n \<longleftrightarrow> type_params n = [] \<and> (\<forall>k \<in> set (subnodes True n). attrs_mono k)"

lemma walk_mono_decl: "walk_rewrite skip G n s = Inr (m, s') \<Longrightarrow> type_params n = [] \<Longrightarrow> mono_decl m"
  using walk_rewrite_mono [of skip G n s m s'] subnodes_mono [of m] by (cases skip) (auto simp: mono_decl_def)

lemma set_default_mono: "mono_decl n \<Longrightarrow> mono_decl (set_default j d n)"
proof (cases n)
  case (FunctionDeclaration x ps ret b rn rt r1 tps tcs r2 lib ext esym)
  have types: "map ptype (ps[j := Param (pname (ps ! j)) (ptype (ps ! j)) (Some d)]) = map ptype ps"
    by (cases "j < length ps") (simp_all add: map_update list_update_same_conv list_update_beyond)
  assume "mono_decl n"
  with FunctionDeclaration params_mono_ok_types [OF types] show ?thesis
    by (auto simp: mono_decl_def subnodes.simps [of _ "FunctionDeclaration _ _ _ _ _ _ _ _ _ _ _ _ _"])
qed (simp_all add: mono_decl_def)


text \<open>
  The state between the loops of a round: the ordinary declarations and the first \<open>i\<close> generated
  ones are without generics, the other generated ones without type parameters.
\<close>

definition flat :: "mono \<Rightarrow> bool" where
  "flat s \<longleftrightarrow> (\<forall>n \<in> set (ordinary s). type_params n = []) \<and> (\<forall>(n, t) \<in> set (generated s). type_params n = [])"

definition mono_upto :: "nat \<Rightarrow> mono \<Rightarrow> bool" where
  "mono_upto i s \<longleftrightarrow> (\<forall>n \<in> set (ordinary s). mono_decl n) \<and> (\<forall>(n, t) \<in> set (generated s). type_params n = [])
     \<and> i \<le> length (generated s) \<and> (\<forall>j < i. mono_decl (fst (generated s ! j)))"

lemma grows_flat: "grows s s' \<Longrightarrow> flat s \<Longrightarrow> flat s' \<and> length (ordinary s') = length (ordinary s) \<and> length (generated s) \<le> length (generated s')"
  by (auto simp: grows_def flat_def)

lemma grows_mono_upto: "grows s s' \<Longrightarrow> mono_upto i s \<Longrightarrow> mono_upto i s' \<and> length (generated s) \<le> length (generated s')"
  by (auto simp: grows_def mono_upto_def nth_append)

lemma set_update_cases: "x \<in> set (xs[i := y]) \<Longrightarrow> x \<in> set xs \<or> i < length xs \<and> x = y"
  by (cases "i < length xs") (auto simp: list_update_beyond dest: set_update_subset_insert [THEN subsetD])

lemma walk_ordinary_flat:
  assumes "walk_ordinary G i s = Inr s'" and "flat s" and "i < length (ordinary s)" and "\<forall>j < i. mono_decl (ordinary s ! j)"
  shows "flat s' \<and> length (ordinary s') = length (ordinary s) \<and> length (generated s) \<le> length (generated s')
    \<and> (\<forall>j < Suc i. mono_decl (ordinary s' ! j))"
proof -
  from assms(1) obtain n u where n: "walk_rewrite False G (ordinary s ! i) s = Inr (n, u)"
    and s': "s' = u\<lparr>ordinary := (ordinary u)[i := n]\<rparr>" by (auto simp: walk_ordinary_def)
  have g: "grows s u" using kept_walk_rewrite n by (rule keptD)
  have "type_params (ordinary s ! i) = []" using assms(2,3) by (simp add: flat_def)
  with n have m: "mono_decl n" by (rule walk_mono_decl)
  have "ordinary u = ordinary s" using g by (simp add: grows_def)
  with m grows_flat [OF g assms(2)] assms(3,4) s' show ?thesis
    by (auto simp: flat_def nth_list_update less_Suc_eq mono_decl_def dest!: set_update_cases)
qed

lemma ordinary_loop:
  "rfold (walk_ordinary G) [i ..< length (ordinary s)] s = Inr s' \<Longrightarrow> flat s \<Longrightarrow> \<forall>j < i. mono_decl (ordinary s ! j) \<Longrightarrow>
     i \<le> length (ordinary s) \<Longrightarrow> mono_upto 0 s' \<and> length (generated s) \<le> length (generated s')"
proof (induction "length (ordinary s) - i" arbitrary: i s)
  case 0
  then have "i = length (ordinary s)" by simp
  with 0 have "s' = s" "\<forall>n \<in> set (ordinary s). mono_decl n" by (auto simp: in_set_conv_nth)
  with 0 show ?case by (auto simp: mono_upto_def flat_def)
next
  case (Suc k)
  then have lt: "i < length (ordinary s)" by simp
  with Suc.prems(1) obtain u where u: "walk_ordinary G i s = Inr u"
    and r: "rfold (walk_ordinary G) [Suc i ..< length (ordinary s)] u = Inr s'"
    by (auto simp: upt_conv_Cons)
  from walk_ordinary_flat [OF u Suc.prems(2) lt Suc.prems(3)]
  have f: "flat u" "length (ordinary u) = length (ordinary s)" "length (generated s) \<le> length (generated u)"
    "\<forall>j < Suc i. mono_decl (ordinary u ! j)" by auto
  have "k = length (ordinary u) - Suc i" "Suc i \<le> length (ordinary u)" using f(2) lt Suc.hyps(2) by linarith+
  then have "mono_upto 0 s' \<and> length (generated u) \<le> length (generated s')"
    using Suc.hyps(1) [of u "Suc i"] f r by simp
  with f(3) show ?case by simp
qed

lemma walk_generated_mono:
  assumes "walk_generated G i s = Inr s'" and "mono_upto i s" and "i < length (generated s)"
  shows "mono_upto (Suc i) s' \<and> length (generated s) \<le> length (generated s')"
proof -
  obtain n t where nt: "generated s ! i = (n, t)" by (cases "generated s ! i")
  with assms(1) obtain m u t' v where n: "walk_rewrite True G n s = Inr (m, u)"
    and t: "sopt (walk_rewrite True G) t u = Inr (t', v)" and s': "s' = v\<lparr>generated := (generated v)[i := (m, t')]\<rparr>"
    by (auto simp: walk_generated_def)
  have "kept (sopt (walk_rewrite True G) t)" by (intro kept_intros)
  then have g: "grows s v" using keptD [OF kept_walk_rewrite n] t by (blast dest: keptD intro: grows_trans)
  have "type_params n = []"
    using assms(2,3) nt nth_mem [OF assms(3)] by (auto simp: mono_upto_def)
  with n have m: "mono_decl m" by (rule walk_mono_decl)
  with grows_mono_upto [OF g assms(2)] assms(3) s' show ?thesis
    by (auto simp: mono_upto_def nth_list_update less_Suc_eq mono_decl_def dest!: set_update_cases)
qed

lemma generated_loop_mono:
  "generated_loop k G i s = Inr s' \<Longrightarrow> mono_upto i s \<Longrightarrow>
     mono_upto (length (generated s')) s' \<and> length (generated s) \<le> length (generated s')"
proof (induction k G i s arbitrary: s' rule: generated_loop.induct)
  case (1 k G i s)
  show ?case
  proof (cases "length (generated s) \<le> i")
    case True
    with 1(2,3) show ?thesis by (auto simp: generated_loop.simps [of k] mono_upto_def)
  next
    case False
    with 1(2) obtain k' u where k: "k = Suc k'" "walk_generated G i s = Inr u" "generated_loop k' G (Suc i) u = Inr s'"
      by (auto simp: generated_loop.simps [of k] split: nat.splits)
    from walk_generated_mono [OF k(2) 1(3)] False
    have "mono_upto (Suc i) u" "length (generated s) \<le> length (generated u)" by auto
    with 1(1) [OF False k(1) k(2) k(3)] show ?thesis by simp
  qed
qed


lemma put_default_mono:
  assumes "mono_upto i s"
  shows "mono_upto i (put_at l (set_default j d (at_place s l)) s)
    \<and> length (generated (put_at l (set_default j d (at_place s l)) s)) = length (generated s)"
proof (cases l)
  case (Ordinary m)
  show ?thesis
  proof (cases "m < length (ordinary s)")
    case True
    then have "mono_decl (set_default j d (ordinary s ! m))"
      using assms by (intro set_default_mono) (simp add: mono_upto_def)
    with assms Ordinary show ?thesis
      by (auto simp: put_at_def at_place_def mono_upto_def dest!: set_update_cases)
  qed (use assms Ordinary in \<open>simp add: put_at_def list_update_beyond mono_upto_def\<close>)
next
  case (Generated m)
  have params: "type_params (set_default j d n) = type_params n" for n by (cases n) auto
  show ?thesis
  proof (cases "m < length (generated s)")
    case True
    obtain n t where nt: "generated s ! m = (n, t)" by (cases "generated s ! m")
    with True assms nth_mem [OF True] have n: "type_params n = []" by (auto simp: mono_upto_def)
    have "mono_decl n" if "m < i" using assms nt that by (auto simp: mono_upto_def)
    with assms Generated nt n True show ?thesis
      by (auto simp: put_at_def at_place_def mono_upto_def nth_list_update params set_default_mono dest!: set_update_cases)
  qed (use assms Generated in \<open>simp add: put_at_def list_update_beyond mono_upto_def\<close>)
qed

lemma rewrite_default_mono:
  assumes "rewrite_default G l j s = Inr s'" and "mono_upto i s"
  shows "mono_upto i s' \<and> length (generated s) \<le> length (generated s')"
proof (cases "pdefault (decl_params (at_place s l) ! j)")
  case None
  with assms show ?thesis by (simp add: rewrite_default_def)
next
  case (Some d)
  with assms(1) obtain d' u where d: "walk_rewrite False G d s = Inr (d', u)"
    and s': "s' = put_at l (set_default j d' (at_place u l)) u"
    by (auto simp: rewrite_default_def)
  from grows_mono_upto [OF keptD [OF kept_walk_rewrite d] assms(2)]
  have "mono_upto i u" "length (generated s) \<le> length (generated u)" by auto
  with put_default_mono [of i u l j d'] s' show ?thesis by simp
qed

lemma fold_mono:
  assumes "rfold f xs s = Inr s'" and "mono_upto i s"
    and "\<And>x u v. x \<in> set xs \<Longrightarrow> mono_upto i u \<Longrightarrow> f x u = Inr v \<Longrightarrow> mono_upto i v \<and> length (generated u) \<le> length (generated v)"
  shows "mono_upto i s' \<and> length (generated s) \<le> length (generated s')"
proof -
  have "mono_upto i s' \<and> length (generated s) \<le> length (generated s')"
    using assms(1)
    by (rule rfold_invariant [where P = "\<lambda>u. mono_upto i u \<and> length (generated s) \<le> length (generated u)"])
      (use assms(2,3) in \<open>fastforce+\<close>)
  then show ?thesis .
qed

lemma request_omitted_mono:
  "request_omitted_defaults G c s = Inr s' \<Longrightarrow> mono_upto i s \<Longrightarrow> mono_upto i s' \<and> length (generated s) \<le> length (generated s')"
  by (auto simp: request_omitted_defaults_def split: option.splits dest: fold_mono [OF _ _ rewrite_default_mono])

lemma request_call_mono:
  "request_call_defaults G l s = Inr s' \<Longrightarrow> mono_upto i s \<Longrightarrow> mono_upto i s' \<and> length (generated s) \<le> length (generated s')"
  unfolding request_call_defaults_def Let_def
  by (erule fold_mono) (auto dest: request_omitted_mono)

lemma round_mono:
  assumes "mono_round k G s = Inr s'" and "flat s"
  shows "length (generated s) \<le> length (generated s')
    \<and> (\<exists>i. mono_upto i s' \<and> length (generated s) \<le> i)"
proof -
  from assms(1) obtain u v where u: "rfold (walk_ordinary G) [0 ..< length (ordinary s)] s = Inr u"
    and v: "generated_loop k G 0 u = Inr v"
    and s': "rfold (request_call_defaults G) (map Ordinary [0 ..< length (ordinary v)]
      @ map Generated [0 ..< length (generated v)]) v = Inr s'"
    by (auto simp: mono_round_def)
  from ordinary_loop [OF u assms(2)] have "mono_upto 0 u" "length (generated s) \<le> length (generated u)" by auto
  with generated_loop_mono [OF v] have m: "mono_upto (length (generated v)) v" "length (generated s) \<le> length (generated v)"
    by auto
  have "mono_upto (length (generated v)) s' \<and> length (generated v) \<le> length (generated s')"
    using s' m(1) by (rule fold_mono) (rule request_call_mono)
  with m(2) show ?thesis by auto
qed

lemma mono_upto_flat: "mono_upto i s \<Longrightarrow> flat s"
  by (auto simp: mono_upto_def flat_def mono_decl_def)

lemma rounds_mono: "mono_rounds k G s = Inr s' \<Longrightarrow> flat s \<Longrightarrow> \<forall>n \<in> set (ordinary s' @ map fst (generated s')). mono_decl n"
proof (induction k arbitrary: s)
  case (Suc k)
  from Suc.prems(1) obtain u where u: "mono_round k G s = Inr u"
    and r: "(if length (generated u) \<noteq> length (generated s) then mono_rounds k G u else Inr u) = Inr s'"
    by auto
  from round_mono [OF u Suc.prems(2)] obtain i where i: "mono_upto i u" "length (generated s) \<le> i" by auto
  show ?case
  proof (cases "length (generated u) = length (generated s)")
    case True
    with r i have "s' = u" "i = length (generated u)" by (auto simp: mono_upto_def)
    have "mono_decl n" if "(n, t) \<in> set (generated u)" for n t
    proof -
      from that obtain j where "j < length (generated u)" "generated u ! j = (n, t)" by (auto simp: in_set_conv_nth)
      with i(1) \<open>i = length (generated u)\<close> show ?thesis by (metis fst_conv mono_upto_def)
    qed
    with i(1) \<open>s' = u\<close> show ?thesis by (auto simp: mono_upto_def)
  next
    case False
    with r Suc.IH [OF _ mono_upto_flat [OF i(1)]] show ?thesis by simp
  qed
qed simp

lemma sort_flat: "sort_decl n (G, s) = Inr (G', s') \<Longrightarrow> flat s \<Longrightarrow> flat s'"
  by (auto simp: sort_decl_def flat_def Let_def split: if_splits node.splits)

lemma sorts_flat: "rfold sort_decl P (G, s) = Inr (G', s') \<Longrightarrow> flat s \<Longrightarrow> flat s'"
proof (induction P arbitrary: G s)
  case (Cons n P)
  then show ?case by (auto dest: sort_flat)
qed simp

text \<open>
  C33: monomorphization is complete where it looks: when it returns, no declaration has type parameters, and
  outside the default values of parameters no type of a parameter, a result, a receiver, a field, an annotation, a
  map, array or slice literal or a \<open>size_of\<close> applies a generic struct (function types apart, which it does not look
  into), the name of a struct literal, read as a type, is no application of one, and no call or function value has
  type arguments. Function expressions and the signatures of interfaces are not claimed: the code does not rewrite
  their types.
\<close>

theorem monomorphize_complete:
  assumes "monomorphize k P = Inr Q" and "n \<in> set Q"
  shows "type_params n = [] \<and> (\<forall>m \<in> set (subnodes True n). attrs_mono m)"
proof -
  from assms(1) obtain G s s' where s: "rfold sort_decl P (\<lparr>generic_funcs = [], generic_structs = []\<rparr>,
        \<lparr>ordinary = [], generated = [], made_funcs = [], made_erased = [], made_structs = [], concrete_funcs = []\<rparr>) = Inr (G, s)"
    and s': "mono_rounds k G s = Inr s'" "Q = ordinary s' @ map fst (generated s')"
    by (auto simp: monomorphize_def)
  have "flat s" using s by (rule sorts_flat) (simp add: flat_def)
  from rounds_mono [OF s'(1) this] assms(2) s'(2) show ?thesis by (auto simp: mono_decl_def)
qed


definition Box_template :: node where
  "Box_template = StructDecl ''Box'' [(''v'', NamedType ''T'')] [''T''] [] []"

definition Box_of :: "tref \<Rightarrow> tref" where
  "Box_of t = GenericType (NamedType ''Box'') [t]"

lemma monomorphize_complete_witness:
  "type_params (StructDecl ''Box__i32'' [(''v'', NamedType ''i32'')] [] [] []) = []
   \<and> monomorphize 5 [Box_template, StructDecl ''U'' [(''a'', Box_of (NamedType ''i32''))] [] [] []]
     = Inr [StructDecl ''U'' [(''a'', NamedType ''Box__i32'')] [] [] [], StructDecl ''Box__i32'' [(''v'', NamedType ''i32'')] [] [] []]"
proof -
  have e: "monomorphize 5 [Box_template, StructDecl ''U'' [(''a'', Box_of (NamedType ''i32''))] [] [] []]
     = Inr [StructDecl ''U'' [(''a'', NamedType ''Box__i32'')] [] [] [], StructDecl ''Box__i32'' [(''v'', NamedType ''i32'')] [] [] []]"
    by code_simp
  show ?thesis using monomorphize_complete [OF e, of "StructDecl ''Box__i32'' [(''v'', NamedType ''i32'')] [] [] []"] e
    by simp
qed

subsection \<open>Programs without generics\<close>

fun plain :: "node \<Rightarrow> bool" where
  "plain (StructLiteral sp x fs heap) \<longleftrightarrow> (\<exists>t. parse_type_ref x = Inr t \<and> format_type_ref t = x \<and> mono_ok t)"
| "plain (FunctionCall sp x as targs) \<longleftrightarrow> targs = [] \<and> (\<exists>t. parse_type_ref x = Inr t \<and> parse_type_app t = None)"
| "plain n \<longleftrightarrow> attrs_mono n"

definition no_templates :: templates where
  "no_templates = \<lparr>generic_funcs = [], generic_structs = []\<rparr>"

lemma no_templates_simps [simp]: "generic_funcs no_templates = []" "generic_structs no_templates = []"
  by (simp_all add: no_templates_def)

lemma smap_id: "(\<And>x s. x \<in> set xs \<Longrightarrow> f x s = Inr (x, s)) \<Longrightarrow> smap f xs s = Inr (xs, s)"
  by (induction xs) (auto simp: sbind_def sret_def)

lemma rewrite_type_id: "mono_ok t \<Longrightarrow> mono_rewrite_type no_templates t s = Inr (t, s)"
proof (induction no_templates t s rule: mono_rewrite_type.induct)
  case (4 base as s)
  then have "smap (mono_rewrite_type no_templates) as s = Inr (as, s)"
    by (induction as) (auto simp: sbind_def sret_def)
  with 4(2) show ?case by (simp add: sbind_def sret_def)
qed (simp_all add: sbind_def sret_def has_key_def)

lemma rewrite_opt_id: "opt_mono_ok t \<Longrightarrow> sopt (mono_rewrite_type no_templates) t s = Inr (t, s)"
  by (cases t) (simp_all add: sopt_def opt_mono_ok_def sbind_def sret_def rewrite_type_id)

lemma rewrite_params_id: "params_mono_ok ps \<Longrightarrow> mono_params no_templates ps s = Inr (ps, s)"
  unfolding mono_params_def
proof (rule smap_id)
  fix p s assume "params_mono_ok ps" "p \<in> set ps"
  then have "opt_mono_ok (ptype p)" by (simp add: params_mono_ok_def)
  then show "sbind (sopt (mono_rewrite_type no_templates) (ptype p)) (\<lambda>t. sret (Param (pname p) t (pdefault p))) s = Inr (p, s)"
    by (cases p) (simp add: sbind_def sret_def rewrite_opt_id)
qed

lemma rewrite_fields_id:
  "\<forall>(f, t) \<in> set fs. mono_ok t \<Longrightarrow>
     smap (\<lambda>(f, t). sbind (mono_rewrite_type no_templates t) (\<lambda>t. sret (f, t))) fs s = Inr (fs, s)"
  by (rule smap_id) (auto simp: sbind_def sret_def rewrite_type_id)

lemma rewrite_node_id: "plain n \<Longrightarrow> rewrite_node no_templates n s = Inr (n, s)"
  by (cases n)
    (auto simp: rewrite_call_def normalize_call_def has_key_def sbind_def sret_def rewrite_type_id rewrite_opt_id
      rewrite_params_id rewrite_fields_id split: option.splits list.splits node.splits)

lemma walk_rewrite_id:
  "\<forall>k \<in> set (subnodes skip n). plain k \<Longrightarrow> walk_rewrite skip no_templates n s = Inr (n, s)"
proof (induction n arbitrary: s rule: measure_induct_rule [of size])
  case (less n)
  have "smap (walk_rewrite skip no_templates) (kids skip n) u = Inr (kids skip n, u)" for u
    by (rule smap_id, rule less.IH) (use less.prems in \<open>auto simp: subnodes.simps [of _ n] dest: kids_size\<close>)
  moreover have "plain n" using less.prems by (auto simp: subnodes.simps [of _ n])
  ultimately show ?case
    by (simp add: walk_rewrite.simps [of _ _ n] sbind_def sret_def rewrite_node_id with_kids_kids)
qed


lemma rfold_id: "(\<And>x. x \<in> set xs \<Longrightarrow> f x s = Inr s) \<Longrightarrow> rfold f xs s = Inr s"
  by (induction xs) auto

definition plain_state :: "mono \<Rightarrow> bool" where
  "plain_state s \<longleftrightarrow> generated s = [] \<and> (\<forall>n \<in> set (ordinary s). \<forall>m \<in> set (subnodes False n). plain m)
     \<and> (\<forall>x l. map_of (concrete_funcs s) x = Some l \<longrightarrow> (\<exists>i < length (ordinary s). l = Ordinary i))"

lemma sort_plain:
  "\<forall>n \<in> set P. type_params n = [] \<and> (\<forall>m \<in> set (subnodes False n). plain m) \<Longrightarrow> plain_state s \<Longrightarrow>
     \<exists>s'. rfold sort_decl P (G, s) = Inr (G, s') \<and> plain_state s' \<and> ordinary s' = ordinary s @ P"
proof (induction P arbitrary: s)
  case (Cons n P)
  from Cons.prems(1) have n: "type_params n = []" "\<forall>m \<in> set (subnodes False n). plain m" by auto
  obtain u where u: "sort_decl n (G, s) = Inr (G, u)" "ordinary u = ordinary s @ [n]" "generated u = generated s"
    "concrete_funcs u = concrete_funcs s \<or> (\<exists>x. concrete_funcs u = dict_set x (Ordinary (length (ordinary s))) (concrete_funcs s))"
    using n(1) by (cases n) (auto simp: sort_decl_def Let_def)
  have "plain_state u"
    using u(2-4) n(2) Cons.prems(2) by (fastforce simp: plain_state_def split: if_splits)
  from Cons.IH [OF _ this] Cons.prems(1) u(1,2) show ?case by auto
qed (simp add: plain_state_def)

lemma set_default_same:
  "pdefault (decl_params n ! j) = Some d \<Longrightarrow> j < length (decl_params n) \<Longrightarrow> set_default j d n = n"
proof (cases n)
  case (FunctionDeclaration x ps ret b rn rt r1 tps tcs r2 lib ext esym)
  assume "pdefault (decl_params n ! j) = Some d" "j < length (decl_params n)"
  with FunctionDeclaration have "Param (pname (ps ! j)) (ptype (ps ! j)) (Some d) = ps ! j" by (cases "ps ! j") simp
  with FunctionDeclaration show ?thesis by simp
qed simp_all

lemma default_kids: "j < length (decl_params n) \<Longrightarrow> pdefault (decl_params n ! j) = Some d \<Longrightarrow> d \<in> set (kids False n)"
  by (cases n) (auto simp: kids_params_def intro!: bexI [OF _ nth_mem])

lemma subnodes_refl: "n \<in> set (subnodes skip n)"
  by (subst subnodes.simps) simp

lemma subnodes_kid: "k \<in> set (kids skip n) \<Longrightarrow> m \<in> set (subnodes skip k) \<Longrightarrow> m \<in> set (subnodes skip n)"
  by (subst subnodes.simps) auto

lemma plain_nth: "plain_state s \<Longrightarrow> i < length (ordinary s) \<Longrightarrow> \<forall>m \<in> set (subnodes False (ordinary s ! i)). plain m"
  using nth_mem [of i "ordinary s"] unfolding plain_state_def by blast

lemma request_omitted_id:
  assumes "plain_state s"
  shows "request_omitted_defaults no_templates c s = Inr s"
proof (cases "map_of (concrete_funcs s) (fst c)")
  case (Some l)
  with assms obtain i where i: "l = Ordinary i" "i < length (ordinary s)" unfolding plain_state_def by blast
  have "rewrite_default no_templates l j s = Inr s" if j: "j < length (decl_params (ordinary s ! i))" for j
  proof (cases "pdefault (decl_params (ordinary s ! i) ! j)")
    case (Some d)
    have "\<forall>m \<in> set (subnodes False d). plain m"
      using plain_nth [OF assms i(2)] subnodes_kid [OF default_kids [OF j Some]] by blast
    with Some i j show ?thesis
      by (simp add: rewrite_default_def at_place_def put_at_def walk_rewrite_id set_default_same)
  qed (simp add: i rewrite_default_def at_place_def)
  with Some i show ?thesis
    by (auto simp: request_omitted_defaults_def at_place_def intro!: rfold_id)
qed (simp add: request_omitted_defaults_def)

text \<open>
  C34: a program without generic declarations and without uses of generics passes through
  monomorphization unchanged, in one round.
\<close>

theorem monomorphize_plain:
  assumes "\<forall>n \<in> set P. type_params n = [] \<and> (\<forall>m \<in> set (subnodes False n). plain m)"
  shows "monomorphize (Suc k) P = Inr P"
proof -
  let ?s = "\<lparr>ordinary = [], generated = [], made_funcs = [], made_erased = [], made_structs = [], concrete_funcs = []\<rparr>"
  from sort_plain [OF assms, of ?s no_templates] obtain s where
    s: "rfold sort_decl P (no_templates, ?s) = Inr (no_templates, s)" "plain_state s" "ordinary s = P"
    by (auto simp: plain_state_def)
  have "walk_ordinary no_templates i s = Inr s" if "i < length (ordinary s)" for i
    using plain_nth [OF s(2) that] by (simp add: walk_ordinary_def walk_rewrite_id)
  then have "rfold (walk_ordinary no_templates) [0 ..< length (ordinary s)] s = Inr s"
    by (intro rfold_id) simp
  moreover have "generated_loop k no_templates 0 s = Inr s"
    using s(2) by (simp add: generated_loop.simps plain_state_def)
  moreover have "rfold (request_call_defaults no_templates) ls s = Inr s" for ls
    by (intro rfold_id) (simp add: request_call_defaults_def Let_def rfold_id request_omitted_id [OF s(2)])
  ultimately have "mono_round k no_templates s = Inr s" by (simp add: mono_round_def)
  then show ?thesis
    using s by (simp add: monomorphize_def no_templates_def [symmetric] plain_state_def)
qed

definition plain_main :: node where
  "plain_main = FunctionDeclaration ''main'' [Param ''n'' (Some (NamedType ''i32'')) (Some (IntegerLiteral None 1 None))] None
     (Block [VariableDeclaration None ''x'' (FunctionCall None ''f'' [] []) (Some (SliceType (NamedType ''i32'')))])
     None None False [] [] False None False None"

lemma monomorphize_plain_witness: "monomorphize 1 [plain_main] = Inr [plain_main]"
proof -
  have "parse_type_ref ''f'' = Inr (NamedType ''f'')" by code_simp
  then have "\<forall>n \<in> set [plain_main]. type_params n = [] \<and> (\<forall>m \<in> set (subnodes False n). plain m)"
    by (simp add: plain_main_def subnodes.simps params_mono_ok_def opt_mono_ok_def)
  from monomorphize_plain [OF this, of 0] show ?thesis by simp
qed


subsection \<open>Names of instances\<close>

lemma strip_underscore_Cons [simp]: "strip_underscores (CHR ''_'' # s) = strip_underscores s"
  by (simp add: strip_underscores_def)

lemma strip_sub_label: "strip_underscores (sub_label True s) = strip_underscores (sub_label False s)"
  by (cases s) auto

lemma mangle_indirect:
  "mangle_type (PointerType t nullable) = mangle_type t" "mangle_type (SliceType t) = mangle_type t"
  by (simp_all add: mangle_type_def type_key_def strip_sub_label label_char_def ascii_digit_def)

text \<open>
  C35: the name of an instance does not tell a type from the pointers to it and the slices of it: a
  program that uses a generic struct at \<open>i32\<close> and at \<open>*i32\<close> gets two structs of the same name,
  and the next pass rejects it.
\<close>

theorem instance_name_collision:
  "instance_name base [PointerType t nullable] = instance_name base [t]
   \<and> instance_name base [SliceType t] = instance_name base [t]
   \<and> rbind (monomorphize 5 [Box_template, StructDecl ''U'' [(''a'', Box_of (NamedType ''i32'')),
         (''b'', Box_of (PointerType (NamedType ''i32'') False))] [] [] []]) build_symbol_table
     = Inl (NameError ''Box__i32 already declared globally'')"
proof -
  have "rbind (monomorphize 5 [Box_template, StructDecl ''U'' [(''a'', Box_of (NamedType ''i32'')),
         (''b'', Box_of (PointerType (NamedType ''i32'') False))] [] [] []]) build_symbol_table
     = Inl (NameError ''Box__i32 already declared globally'')"
    by code_simp
  then show ?thesis by (simp add: instance_name_def mangle_indirect)
qed

subsection \<open>Erased functions\<close>

lemma single_tail_exprE:
  assumes "single_tail_expr b = Some e"
  obtains sp where "b = [Return sp (Some e)]" | "b = [ExpressionStatement e]"
  using assms by (cases b rule: single_tail_expr.cases) auto

lemma ident_nameE:
  assumes "ident_name e = Some x"
  obtains sp targs where "e = Some (Identifier sp x targs)"
  using assms by (cases e rule: ident_name.cases) auto

lemma no_lt_ident:
  assumes "ident_name (single_tail_expr b) = Some x" and "n \<in> set (concat (map (subnodes skip) b))"
  shows "\<not> needs_lt tmpl n"
proof -
  from assms(1) obtain sp targs where e: "single_tail_expr b = Some (Identifier sp x targs)"
    by (rule ident_nameE)
  then show ?thesis
  proof (rule single_tail_exprE)
    fix sp' assume "b = [Return sp' (Some (Identifier sp x targs))]"
    with assms(2) show ?thesis by (auto simp: subnodes.simps)
  next
    assume "b = [ExpressionStatement (Identifier sp x targs)]"
    with assms(2) show ?thesis by (auto simp: subnodes.simps)
  qed
qed

lemma stage2E:
  assumes "can_erase_stage2_ord_min tmpl"
  obtains T a b sp l r thn els where
    "type_params tmpl = [T]" "decl_params tmpl = [a, b]" "constraint_of tmpl T = ORD_CONSTRAINT"
    "pdefault a = None" "pdefault b = None" "opt_named_in (decl_return tmpl) [T]"
    "opt_named_in (ptype a) [T]" "opt_named_in (ptype b) [T]"
    "single_tail_expr (decl_body tmpl) = Some (IfExpr sp (BinaryOp l ''<'' r) thn (Some els))"
    "ident_name (Some l) = Some (pname a)" "ident_name (Some r) = Some (pname b)"
  using assms unfolding can_erase_stage2_ord_min_def
  by (auto split: list.splits option.splits node.splits)

lemma find_first: "x \<in> pname ` set ps \<Longrightarrow> \<exists>p \<in> set ps. List.find (\<lambda>p. pname p = x) ps = Some p"
  by (induction ps) auto

lemma stage2_lt:
  assumes "can_erase_stage2_ord_min tmpl"
  shows "\<exists>n \<in> set (concat (map (subnodes False) (decl_body tmpl))). needs_lt tmpl n"
proof -
  from assms obtain T a b sp l r thn els where t: "type_params tmpl = [T]" "decl_params tmpl = [a, b]"
    "opt_named_in (ptype a) [T]" "opt_named_in (ptype b) [T]"
    "single_tail_expr (decl_body tmpl) = Some (IfExpr sp (BinaryOp l ''<'' r) thn (Some els))"
    "ident_name (Some l) = Some (pname a)" "ident_name (Some r) = Some (pname b)"
    by (rule stage2E)
  from find_first [of "pname a" "[a, b]"] find_first [of "pname b" "[a, b]"] t(2,6,7)
  obtain p q where "find_param tmpl l = Some p" "find_param tmpl r = Some q" "p \<in> {a, b}" "q \<in> {a, b}"
    by (auto simp: find_param_def)
  then have lt: "needs_lt tmpl (BinaryOp l ''<'' r)"
    using t(1,3,4) by (auto simp: opt_named_in_def named_in_def split: option.splits)
  let ?if = "IfExpr sp (BinaryOp l ''<'' r) thn (Some els)"
  have "BinaryOp l ''<'' r \<in> set (subnodes False ?if)"
    by (rule subnodes_kid [OF _ subnodes_refl]) simp
  then have "BinaryOp l ''<'' r \<in> set (concat (map (subnodes False) (decl_body tmpl)))"
    using t(5) by (auto elim!: single_tail_exprE simp: subnodes.simps [of _ "Return _ _"] subnodes.simps [of _ "ExpressionStatement _"])
  with lt show ?thesis by blast
qed

lemma can_erase_params:
  assumes "can_erase tmpl"
  shows "decl_params tmpl \<noteq> [] \<and> opt_named_in (decl_return tmpl) (type_params tmpl)
    \<and> (\<forall>p \<in> set (decl_params tmpl). opt_named_in (ptype p) (type_params tmpl) \<and> pdefault p = None)"
  using assms unfolding can_erase_def
proof
  assume "can_erase_stage2_ord_min tmpl"
  then show ?thesis by (rule stage2E) simp
qed (simp add: can_erase_stage1_def)

text \<open>
  an erased function takes the descriptor and a \<open>raw\<close> for each parameter and returns a \<open>raw\<close>,
  whatever the type parameters; the operations it needs from the descriptor are the size of the
  values and, for the minimum of two values and only there, the comparison.
\<close>

theorem erased_function_shape:
  assumes "can_erase tmpl"
  shows "erase_function tmpl = FunctionDeclaration (erased_func_name (decl_name tmpl))
      (Param ''_desc'' (Some (NamedType RAW_TYPE)) None
        # map (\<lambda>p. Param (pname p) (Some (NamedType RAW_TYPE)) None) (decl_params tmpl))
      (Some (NamedType RAW_TYPE)) (Block [Return None (Some (Identifier None (pname (hd (decl_params tmpl))) []))])
      None None False [] [] False None False None
    \<and> collect_ops_for_func tmpl = (if can_erase_stage2_ord_min tmpl then {''size'', ''lt''} else {''size''})"
proof -
  note p = can_erase_params [OF assms]
  then obtain q qs where q: "decl_params tmpl = q # qs" by (cases "decl_params tmpl") auto
  have "map (erase_param (type_params tmpl)) (decl_params tmpl) =
      map (\<lambda>p. Param (pname p) (Some (NamedType RAW_TYPE)) None) (decl_params tmpl)"
    using p by (simp add: erase_param_def)
  moreover have "collect_ops_for_func tmpl = (if can_erase_stage2_ord_min tmpl then {''size'', ''lt''} else {''size''})"
  proof (cases "can_erase_stage2_ord_min tmpl")
    case True
    with p stage2_lt [OF True] show ?thesis by (auto simp: collect_ops_for_func_def Let_def)
  next
    case False
    with assms have "can_erase_stage1 tmpl" by (simp add: can_erase_def)
    then obtain x where "ident_name (single_tail_expr (decl_body tmpl)) = Some x"
      by (auto simp: can_erase_stage1_def split: option.splits)
    from no_lt_ident [OF this] False p show ?thesis
      by (simp add: collect_ops_for_func_def Let_def)
  qed
  ultimately show ?thesis
    using p q by (simp add: erase_function_def Let_def named_def type_key_def RAW_TYPE_def)
qed

definition pick_template :: node where
  "pick_template = FunctionDeclaration ''pick'' [Param ''a'' (Some (NamedType ''T'')) None, Param ''b'' (Some (NamedType ''T'')) None]
     (Some (NamedType ''T'')) (Block [Return None (Some (Identifier None ''b'' []))]) None None True [''T''] [] False None False None"

lemma erased_function_shape_witness:
  "collect_ops_for_func pick_template = {''size''} \<and> \<not> can_erase_stage2_ord_min pick_template"
proof -
  have "can_erase pick_template" "\<not> can_erase_stage2_ord_min pick_template" by code_simp+
  with erased_function_shape [of pick_template] show ?thesis by simp
qed

subsection \<open>Polymorphic recursion\<close>

definition nest_template :: node where
  "nest_template = StructDecl ''L'' [(''n'', PointerType (GenericType (NamedType ''L'') [GenericType (NamedType ''L'') [NamedType ''T'']]) False)] [''T''] [] []"

definition nest_use :: node where
  "nest_use = StructDecl ''U'' [(''l'', GenericType (NamedType ''L'') [NamedType ''i32''])] [] [] []"

fun nest_arg :: "nat \<Rightarrow> string" where
  "nest_arg 0 = ''i32''"
| "nest_arg (Suc j) = ''L__'' @ nest_arg j"

lemma nest_arg_label: "(\<forall>c \<in> set (nest_arg j). label_char c) \<and> hd (nest_arg j) \<noteq> CHR ''_'' \<and> last (nest_arg j) = CHR ''2'' \<and> nest_arg j \<noteq> []"
  by (induction j) (auto simp: label_char_def ascii_digit_def)

lemma sub_label_id: "\<forall>c \<in> set s. label_char c \<Longrightarrow> sub_label False s = s"
  by (induction s) auto

lemma dropWhile_hd: "s \<noteq> [] \<Longrightarrow> \<not> P (hd s) \<Longrightarrow> dropWhile P s = s"
  by (cases s) auto

lemma strip_underscores_id: "s \<noteq> [] \<Longrightarrow> hd s \<noteq> CHR ''_'' \<Longrightarrow> last s \<noteq> CHR ''_'' \<Longrightarrow> strip_underscores s = s"
  by (simp add: strip_underscores_def dropWhile_hd hd_rev)

lemma mangle_nest: "mangle_type (NamedType (nest_arg j)) = nest_arg j"
  using nest_arg_label [of j] by (simp add: mangle_type_def type_key_def sub_label_id strip_underscores_id)

lemma instance_nest: "instance_name ''L'' [NamedType (nest_arg j)] = nest_arg (Suc j)"
  by (simp add: instance_name_def mangle_nest)

definition nest_instance :: "nat \<Rightarrow> node" where
  "nest_instance j = StructDecl (nest_arg (Suc j))
     [(''n'', PointerType (GenericType (NamedType ''L'') [GenericType (NamedType ''L'') [NamedType (nest_arg j)]]) False)] [] [] []"

lemma nest_arg_length: "length (nest_arg j) = 3 * j + 3"
  by (induction j) auto

lemma nest_arg_inject [simp]: "nest_arg i = nest_arg j \<longleftrightarrow> i = j"
proof
  assume "nest_arg i = nest_arg j"
  then have "length (nest_arg i) = length (nest_arg j)" by simp
  then show "i = j" by (simp add: nest_arg_length)
qed simp

lemma nest_subst: "instance_of nest_template ''L'' [NamedType (nest_arg j)] = Inr (nest_instance j)"
proof -
  have "nest_arg j \<noteq> ''T''" "nest_arg j \<noteq> ''L''"
    using nest_arg_length [of j] by auto
  moreover have "parse_type_ref ''T'' = Inr (NamedType ''T'')" "parse_type_ref ''L'' = Inr (NamedType ''L'')" by code_simp+
  ultimately show ?thesis
    by (simp add: instance_of_def nest_template_def zip_dict_def substitute_node.simps map_children_def rpair_def
        sub_type_def rewrite_name_def eq_text_def type_key_text_def type_key_def instance_nest nest_instance_def del: nest_arg.simps)
qed

definition nest_templates :: templates where
  "nest_templates = \<lparr>generic_funcs = [], generic_structs = [(''L'', nest_template)]\<rparr>"

lemma nest_request:
  "request_struct nest_templates ''L'' [NamedType (nest_arg j)] s =
     (if (''L'', [nest_arg j]) \<in> set (made_structs s) then Inr ((), s)
      else Inr ((), add_generated (nest_instance j, None) (s\<lparr>made_structs := (''L'', [nest_arg j]) # made_structs s\<rparr>)))"
proof -
  have "check_type_args ''type '' ''L'' nest_template [NamedType (nest_arg j)] = Inr ()"
    by (simp add: check_type_args_def nest_template_def constraint_of_def satisfies_constraint_def)
  then show ?thesis
    by (simp add: request_struct_def nest_templates_def nest_subst type_key_def Let_def del: nest_arg.simps)
qed

lemma nest_named: "\<not> has_key (generic_structs nest_templates) (type_key (NamedType (nest_arg j)))"
proof -
  have "nest_arg j \<noteq> ''L''" using nest_arg_length [of j] by auto
  then show ?thesis by (simp add: nest_templates_def has_key_def type_key_def del: nest_arg.simps)
qed

text \<open>Item \<open>i\<close> is the last one, not yet walked, and the instances made so far are the first ones.\<close>

definition nest_state :: "nat \<Rightarrow> mono \<Rightarrow> bool" where
  "nest_state i s \<longleftrightarrow> length (generated s) = Suc i \<and> generated s ! i = (nest_instance i, None)
     \<and> (\<forall>j. (''L'', [nest_arg j]) \<in> set (made_structs s) \<longleftrightarrow> j \<le> i)"

lemma nest_walk:
  assumes "nest_state i s"
  shows "\<exists>s'. walk_generated nest_templates i s = Inr s' \<and> nest_state (Suc i) s'"
proof -
  let ?u = "add_generated (nest_instance (Suc i), None) (s\<lparr>made_structs := (''L'', [nest_arg (Suc i)]) # made_structs s\<rparr>)"
  let ?n = "StructDecl (nest_arg (Suc i)) [(''n'', PointerType (NamedType (nest_arg (Suc (Suc i)))) False)] [] [] []"
  have 1: "mono_rewrite_type nest_templates (GenericType (NamedType ''L'') [NamedType (nest_arg i)]) s = Inr (NamedType (nest_arg (Suc i)), s)"
    using assms by (simp add: sbind_def sret_def nest_named nest_request instance_nest nest_state_def del: nest_arg.simps)
  have "mono_rewrite_type nest_templates (PointerType (GenericType (NamedType ''L'') [GenericType (NamedType ''L'') [NamedType (nest_arg i)]]) False) s
      = Inr (PointerType (NamedType (nest_arg (Suc (Suc i)))) False, ?u)"
  proof -
    have "smap (mono_rewrite_type nest_templates) [GenericType (NamedType ''L'') [NamedType (nest_arg i)]] s
        = Inr ([NamedType (nest_arg (Suc i))], s)"
      by (simp add: 1 sbind_def sret_def del: nest_arg.simps mono_rewrite_type.simps)
    note 2 = this
    have "mono_rewrite_type nest_templates (GenericType (NamedType ''L'') [GenericType (NamedType ''L'') [NamedType (nest_arg i)]]) s
        = Inr (NamedType (nest_arg (Suc (Suc i))), ?u)"
      unfolding mono_rewrite_type.simps(4) sbind_def 2
      using assms by (simp add: sret_def sbind_def nest_request instance_nest nest_state_def del: nest_arg.simps)
    then show ?thesis
      unfolding mono_rewrite_type.simps(1) sbind_def [of "mono_rewrite_type _ _"] by (simp only: rbind_simps split_conv sret_def)
  qed
  then have "rewrite_node nest_templates (nest_instance i) s = Inr (?n, ?u)"
    by (simp add: nest_instance_def sbind_def sret_def del: nest_arg.simps mono_rewrite_type.simps)
  then have "walk_rewrite True nest_templates (nest_instance i) s = Inr (?n, ?u)"
    by (simp add: walk_rewrite.simps sbind_def sret_def)
  with assms have "walk_generated nest_templates i s = Inr (?u\<lparr>generated := (generated ?u)[i := (?n, None)]\<rparr>)"
    by (simp add: walk_generated_def nest_state_def sopt_def sret_def)
  moreover have "nest_state (Suc i) (?u\<lparr>generated := (generated ?u)[i := (?n, None)]\<rparr>)"
    using assms by (auto simp: nest_state_def add_generated_def nth_append simp del: nest_arg.simps)
  ultimately show ?thesis by blast
qed

lemma nest_loop: "nest_state i s \<Longrightarrow> generated_loop k nest_templates i s = Inl OutOfFuel"
proof (induction k arbitrary: i s)
  case 0
  then show ?case by (simp add: generated_loop.simps [of 0] nest_state_def)
next
  case (Suc k)
  from nest_walk [OF Suc.prems] obtain u where "walk_generated nest_templates i s = Inr u" "nest_state (Suc i) u" by blast
  with Suc show ?case by (simp add: generated_loop.simps [of "Suc k"] nest_state_def [of i])
qed

text \<open>
  C36: monomorphization does not end on polymorphic recursion: a struct \<open>L[T]\<close> with a field of
  type \<open>*L[L[T]]\<close>, used once, makes instances for ever, whatever the fuel.
\<close>

theorem polymorphic_recursion_diverges:
  "monomorphize k [nest_template, nest_use] = Inl OutOfFuel"
proof -
  define s where "s = \<lparr>ordinary = [nest_use], generated = [], made_funcs = [], made_erased = [], made_structs = [], concrete_funcs = []\<rparr>"
  define u where "u = add_generated (nest_instance 0, None) (s\<lparr>made_structs := [(''L'', [nest_arg 0])]\<rparr>)"
  have sort: "rfold sort_decl [nest_template, nest_use] (\<lparr>generic_funcs = [], generic_structs = []\<rparr>,
      \<lparr>ordinary = [], generated = [], made_funcs = [], made_erased = [], made_structs = [], concrete_funcs = []\<rparr>)
      = Inr (nest_templates, s)"
    by (simp add: sort_decl_def nest_template_def nest_use_def nest_templates_def s_def)
  have "mono_rewrite_type nest_templates (GenericType (NamedType ''L'') [NamedType (nest_arg 0)]) s = Inr (NamedType (nest_arg 1), u)"
    by (simp add: sbind_def sret_def nest_named nest_request instance_nest u_def s_def del: nest_arg.simps)
  then have "walk_rewrite False nest_templates nest_use s =
      Inr (StructDecl ''U'' [(''l'', NamedType (nest_arg 1))] [] [] [], u)"
    by (simp add: walk_rewrite.simps nest_use_def sbind_def sret_def del: mono_rewrite_type.simps)
  then have "rfold (walk_ordinary nest_templates) [0 ..< length (ordinary s)] s =
      Inr (u\<lparr>ordinary := [StructDecl ''U'' [(''l'', NamedType (nest_arg 1))] [] [] []]\<rparr>)"
    by (simp add: walk_ordinary_def s_def u_def add_generated_def)
  moreover have "nest_state 0 (u\<lparr>ordinary := xs\<rparr>)" for xs
    by (simp add: nest_state_def u_def add_generated_def s_def del: nest_arg.simps)
  ultimately have "mono_round k nest_templates s = Inl OutOfFuel" for k
    by (simp add: mono_round_def nest_loop)
  then have "mono_rounds k nest_templates s = Inl OutOfFuel" by (cases k) simp_all
  then show ?thesis unfolding monomorphize_def sort by simp
qed

end
