(* ===== verification/CheckParts.thy ===== *)
theory CheckParts
  imports Generics TypeRules
begin

text \<open>
  \<open>compiler/typecheck.py\<close>: the functions of \<open>infer_types\<close> that read the symbol table and the tree
  and change neither: private names, promotion through embedded structs, the method sets of
  interfaces, the checks on defaults and external functions, the search for propagated errors.
  Messages come without the source position that \<open>fail\<close> puts in front of them.
\<close>

abbreviation ty :: "tref \<Rightarrow> string" where
  "ty \<equiv> format_type_ref_user"

definition NEVER :: tref where
  "NEVER = NamedType ''__never''"

definition is_never :: "tref \<Rightarrow> bool" where
  "is_never t = named t ''__never''"

definition OPERATOR_METHODS :: "(string \<times> string) list" where
  "OPERATOR_METHODS = [(''+'', ''__add__''), (''-'', ''__sub__''), (''*'', ''__mul__''), (''/'', ''__div__''),
     (''%'', ''__mod__''), (''<'', ''__lt__'')]"

definition ORDER_OPERATOR_METHODS :: "string list" where
  "ORDER_OPERATOR_METHODS = [''__lt__'']"

subsection \<open>Private names\<close>

text \<open>\<open>s.rsplit(".", 1)\<close> on a text with a dot: what is before the last dot and what is after it.\<close>

definition rsplit_dot :: "string \<Rightarrow> (string \<times> string) option" where
  "rsplit_dot s =
     (case find_char CHR ''.'' (rev s) of
        None \<Rightarrow> None
      | Some i \<Rightarrow> Some (take (length s - Suc i) s, drop (length s - i) s))"

definition private_name :: "string \<Rightarrow> bool" where
  "private_name name = (case rsplit_dot name of None \<Rightarrow> False | Some (_, x) \<Rightarrow> starts_with ''_'' x)"

definition same_module :: "string \<Rightarrow> string option \<Rightarrow> bool" where
  "same_module name owner =
     (case owner of
        None \<Rightarrow> False
      | Some x \<Rightarrow>
          (case (rsplit_dot x, rsplit_dot name) of
             (Some (m, _), Some (n, _)) \<Rightarrow> m = dropWhile (\<lambda>c. c \<in> set ''*?[]'') n
           | _ \<Rightarrow> False))"

text \<open>
  \<open>in_default\<close> is the mark \<open>_default_arg_expr\<close> of the node, \<open>owner\<close> the name of the node when it is
  a declaration, \<open>current\<close> the name of the function that is checked.
\<close>

definition require_public_qualified ::
  "bool \<Rightarrow> string option \<Rightarrow> string option \<Rightarrow> string \<Rightarrow> unit res" where
  "require_public_qualified in_default owner current name =
     (if in_default \<or> \<not> private_name name \<or> same_module name owner \<or> same_module name current then Inr ()
      else fail (''symbol '' @ name @ '' is private''))"

fun owner_name :: "node \<Rightarrow> string option" where
  "owner_name (StructDecl x _ _ _ _) = Some x"
| "owner_name (IfaceDecl x _ _) = Some x"
| "owner_name (FunctionDeclaration x _ _ _ _ _ _ _ _ _ _ _ _) = Some x"
| "owner_name _ = None"

subsection \<open>Promotion through embedded structs\<close>

definition embedded_structs :: "symtab \<Rightarrow> string \<Rightarrow> (string \<times> tref) list" where
  "embedded_structs T tname = (case map_of (struct_embeds T) tname of Some es \<Rightarrow> es | None \<Rightarrow> [])"

definition unique_match :: "string \<Rightarrow> 'a list \<Rightarrow> 'a option res" where
  "unique_match msg ms = (case ms of [] \<Rightarrow> Inr None | [m] \<Rightarrow> Inr (Some m) | _ \<Rightarrow> fail msg)"

definition via :: "string \<Rightarrow> (string list \<times> 'a) option \<Rightarrow> (string list \<times> 'a) list" where
  "via f m = (case m of None \<Rightarrow> [] | Some (path, x) \<Rightarrow> [(f # path, x)])"

text \<open>
  A copy of \<open>seen\<close> goes down every branch: it is the path from the type of the first call. A path
  visits every struct that embeds something at most once.
\<close>

fun promoted_field ::
  "nat \<Rightarrow> symtab \<Rightarrow> string \<Rightarrow> string \<Rightarrow> string list \<Rightarrow> (string list \<times> tref) option res" where
  "promoted_field 0 T tname field seen = Inl OutOfFuel"
| "promoted_field (Suc n) T tname field seen =
     (if tname \<in> set seen then Inr None
      else
        rbind (rmap (\<lambda>(f, e).
            case lookup_struct (embed_base e) T of
              Inl _ \<Rightarrow> Inr []
            | Inr d \<Rightarrow>
                rbind (promoted_field n T (embed_base e) field (tname # seen)) (\<lambda>nested.
                  Inr (via f (map_option (Pair []) (map_of d field)) @ via f nested)))
          (embedded_structs T tname)) (\<lambda>mss.
        unique_match (tname @ '': ambiguous promoted field '' @ field) (concat mss)))"

fun promoted_method ::
  "nat \<Rightarrow> symtab \<Rightarrow> string \<Rightarrow> string \<Rightarrow> string list \<Rightarrow> method_match option res" where
  "promoted_method 0 T tname mname seen = Inl OutOfFuel"
| "promoted_method (Suc n) T tname mname seen =
     (if tname \<in> set seen then Inr None
      else
        rbind (rmap (\<lambda>(f, e).
            rbind (promoted_method n T (embed_base e) mname (tname # seen)) (\<lambda>nested.
              Inr (via f (map_option (\<lambda>sig. ([], embed_base e, sig)) (own_method T (embed_base e) mname)) @ via f nested)))
          (embedded_structs T tname)) (\<lambda>mss.
        unique_match (tname @ '': ambiguous promoted method '' @ mname) (concat mss)))"

definition embed_fuel :: "symtab \<Rightarrow> nat" where
  "embed_fuel T = Suc (Suc (length (struct_embeds T)))"

definition resolve_method_call :: "symtab \<Rightarrow> string \<Rightarrow> string \<Rightarrow> method_match option res" where
  "resolve_method_call T tname mname =
     (case own_method T tname mname of
        Some sig \<Rightarrow> Inr (Some ([], tname, sig))
      | None \<Rightarrow> promoted_method (embed_fuel T) T tname mname [])"

definition embed_text :: "tref \<Rightarrow> string" where
  "embed_text e = (let s = format_type_ref e in if starts_with ''*'' s then drop 1 s else s)"

definition conflict :: "string \<Rightarrow> string \<Rightarrow> string \<Rightarrow> string \<Rightarrow> 'a res" where
  "conflict sname what x rest = fail (''struct '' @ sname @ '': promoted '' @ what @ '' '' @ x @ '' conflicts with '' @ rest)"

definition promote :: "string \<Rightarrow> string \<Rightarrow> (string \<Rightarrow> bool) \<Rightarrow> string \<Rightarrow> string \<Rightarrow> string dict \<Rightarrow> string dict res" where
  "promote sname what direct ename x d =
     (if direct x then conflict sname what x (''direct '' @ what)
      else
        (case map_of d x of
           Some e \<Rightarrow> conflict sname what x (''embedded '' @ what @ '' '' @ e)
         | None \<Rightarrow> Inr (dict_set x ename d)))"

definition validate_struct_embedding :: "symtab \<Rightarrow> string \<Rightarrow> (string \<times> tref) list \<Rightarrow> string list \<Rightarrow> unit res" where
  "validate_struct_embedding T name fs embedded =
     rbind (rfold (\<lambda>(f, _) seen. if f \<in> set seen then fail (''struct '' @ name @ '': duplicate field '' @ f)
         else Inr (f # seen)) fs []) (\<lambda>_.
     let direct = filter (\<lambda>f. f \<notin> set embedded) (map fst fs) in
     rbind (rfold (\<lambda>(ename, e) (pf, pm).
         rbind (case lookup_struct (embed_text e) T of
             Inl _ \<Rightarrow> fail (''struct '' @ name @ '': embedded struct '' @ ty e @ '' not found'')
           | Inr d \<Rightarrow> Inr d) (\<lambda>d.
         rbind (rfold (promote name ''field'' (\<lambda>f. f \<in> set direct) ename) (map fst d) pf) (\<lambda>pf.
         rbind (rfold (promote name ''method'' (\<lambda>m. own_method T name m \<noteq> None) ename)
             (map fst (case map_of (methods T) (embed_text e) of Some ms \<Rightarrow> ms | None \<Rightarrow> [])) pm) (\<lambda>pm.
         Inr (pf, pm))))) (embedded_structs T name) ([], [])) (\<lambda>_. Inr ()))"

subsection \<open>Interfaces\<close>

type_synonym iface_sig = "tref option list \<times> tref"

fun same_opt :: "tref option \<Rightarrow> tref option \<Rightarrow> bool" where
  "same_opt None None = True"
| "same_opt (Some a) (Some b) = same_type a b"
| "same_opt _ _ = False"

definition same_sig :: "iface_sig \<Rightarrow> iface_sig \<Rightarrow> bool" where
  "same_sig f g \<longleftrightarrow> list_all2 same_opt (fst f) (fst g) \<and> same_type (snd f) (snd g)"

definition add_iface_method ::
  "string \<Rightarrow> string \<times> iface_sig \<Rightarrow> (string \<times> iface_sig) list \<Rightarrow> (string \<times> iface_sig) list res" where
  "add_iface_method iname m ms =
     (case map_of ms (fst m) of
        Some sig \<Rightarrow>
          if same_sig sig (snd m) then Inr (dict_set (fst m) (snd m) ms)
          else fail (''iface '' @ iname @ '': conflicting method '' @ fst m)
      | None \<Rightarrow> Inr (dict_set (fst m) (snd m) ms))"

text \<open>The result is not cached: it only depends on the declarations.\<close>

fun iface_method_set :: "nat \<Rightarrow> symtab \<Rightarrow> string \<Rightarrow> string list \<Rightarrow> (string \<times> iface_sig) list res" where
  "iface_method_set 0 T iname stack = Inl OutOfFuel"
| "iface_method_set (Suc n) T iname stack =
     (case map_of (ifaces T) iname of
        None \<Rightarrow> fail (''iface '' @ iname @ '': embedded iface not found'')
      | Some (own, embeds) \<Rightarrow>
          if iname \<in> set stack then fail (''iface '' @ iname @ '': embedded iface cycle'')
          else
            rbind (rfold (\<lambda>e ms.
                if \<not> has_key (ifaces T) (type_key e)
                then fail (''iface '' @ iname @ '': embedded iface '' @ ty e @ '' not found'')
                else rbind (iface_method_set n T (type_key e) (stack @ [iname])) (\<lambda>inherited.
                  rfold (add_iface_method iname) inherited ms)) embeds []) (\<lambda>ms.
            rfold (\<lambda>(m, ps, ret, fallible) ms.
                if fallible then fail (''iface '' @ iname @ '': fallible methods are not supported in v1'')
                else add_iface_method iname (m, map ptype ps, ret) ms) own ms))"

definition iface_fuel :: "symtab \<Rightarrow> nat" where
  "iface_fuel T = Suc (Suc (length (ifaces T)))"

definition iface_methods :: "symtab \<Rightarrow> string \<Rightarrow> (string \<times> iface_sig) list res" where
  "iface_methods T iname = iface_method_set (iface_fuel T) T iname []"

subsection \<open>Parameters and their defaults\<close>

definition required_param_count :: "node param list \<Rightarrow> nat" where
  "required_param_count ps = length (filter (\<lambda>p. pdefault p = None) ps)"

fun require_default_param_shape :: "bool \<Rightarrow> node param list \<Rightarrow> string \<Rightarrow> unit res" where
  "require_default_param_shape seen_default [] context = Inr ()"
| "require_default_param_shape seen_default (p # ps) context =
     (if pdefault p \<noteq> None then require_default_param_shape True ps context
      else if seen_default
      then fail (context @ '': required parameter '' @ pname p @ '' cannot follow default parameter'')
      else require_default_param_shape seen_default ps context)"

definition require_concrete_param_type :: "node param \<Rightarrow> string \<Rightarrow> tref res" where
  "require_concrete_param_type p context =
     (case ptype p of
        None \<Rightarrow> fail (context @ '': parameter '' @ pname p @ '' requires a type or default value'')
      | Some t \<Rightarrow>
          if is_fallible_fn_type t then fail ''fallible function values are not supported in v1'' else Inr t)"

text \<open>
  \<open>validate_default_expr_shape\<close> visits a node and then the nodes in its attributes; the body of a
  function expression is not visited.
\<close>

definition default_node_ok :: "string \<Rightarrow> node \<Rightarrow> unit res" where
  "default_node_ok pn e =
     (case e of
        FunctionCall _ x _ _ \<Rightarrow>
          if x \<in> set (NUMERIC_TYPES @ [''str'', ''rune'']) then Inr ()
          else fail (''default parameter '' @ pn @ '': function calls are not allowed'')
      | MethodCall _ _ _ _ \<Rightarrow> fail (''default parameter '' @ pn @ '': method calls are not allowed'')
      | FallibleOp _ _ _ \<Rightarrow> fail (''default parameter '' @ pn @ '': fallible operations are not allowed'')
      | _ \<Rightarrow> Inr ())"

fun is_function_expr :: "node \<Rightarrow> bool" where
  "is_function_expr (FunctionExpr _ _ _ _ _ _) = True"
| "is_function_expr _ = False"

function validate_default_expr_shape :: "string \<Rightarrow> node \<Rightarrow> unit res" where
  "validate_default_expr_shape pn e =
     (if is_function_expr e then Inr ()
      else rbind (default_node_ok pn e) (\<lambda>_. rfold (\<lambda>k _. validate_default_expr_shape pn k) (kids False e) ()))"
  by pat_completeness auto
termination
  by (relation "measure (\<lambda>(pn, e). size e)") (auto dest: kids_size)

declare validate_default_expr_shape.simps [simp del]

fun param_names :: "node \<Rightarrow> string list" where
  "param_names (FunctionExpr _ ps _ _ _ _) = map pname ps"
| "param_names _ = []"

definition replacement_of :: "(string \<times> node) list \<Rightarrow> node \<Rightarrow> node option" where
  "replacement_of repl n = (case n of Identifier _ x _ \<Rightarrow> map_of repl x | _ \<Rightarrow> None)"

function clone_default_expr :: "(string \<times> node) list \<Rightarrow> node \<Rightarrow> node" where
  "clone_default_expr repl n =
     (case replacement_of repl n of
        Some a \<Rightarrow> a
      | None \<Rightarrow>
          with_kids False n
            (map (clone_default_expr (filter (\<lambda>(x, _). x \<notin> set (param_names n)) repl)) (kids False n)))"
  by pat_completeness auto
termination
  by (relation "measure (\<lambda>(repl, e). size e)") (auto dest: kids_size)

declare clone_default_expr.simps [simp del]

definition untyped_default :: "tref \<Rightarrow> bool" where
  "untyped_default t \<longleftrightarrow> named_in t [''void'', ''__nil'']"

definition infer_default_param_type :: "node param \<Rightarrow> tref \<Rightarrow> tref res" where
  "infer_default_param_type p dt =
     (case ptype p of
        Some t \<Rightarrow> Inr t
      | None \<Rightarrow>
          if pdefault p = None then fail (''parameter '' @ pname p @ '' requires a type or default value'')
          else if untyped_default dt
          then fail (''default parameter '' @ pname p @ '': cannot infer type from '' @ ty dt)
          else Inr dt)"

definition opt_types :: "node param list \<Rightarrow> tref list res" where
  "opt_types ps = rmap (\<lambda>p. case ptype p of Some t \<Rightarrow> Inr t | None \<Rightarrow> Inl AttributeError) ps"

definition fn_type :: "tref list \<Rightarrow> tref \<Rightarrow> tref" where
  "fn_type ps r = FunctionType ps r False"

subsection \<open>Blocks, patterns, bindings\<close>

fun is_return :: "node \<Rightarrow> bool" where
  "is_return (Return _ _) = True"
| "is_return (ErrReturn _ _) = True"
| "is_return _ = False"

definition ends_with_return :: "node list \<Rightarrow> bool" where
  "ends_with_return stmts \<longleftrightarrow> stmts \<noteq> [] \<and> is_return (last stmts)"

fun statement_expr :: "node \<Rightarrow> node option" where
  "statement_expr (ExpressionStatement e) = Some e"
| "statement_expr _ = None"

definition block_tail_expr :: "node list \<Rightarrow> node option" where
  "block_tail_expr stmts = (if stmts = [] then None else statement_expr (last stmts))"

text \<open>\<open>tail_expr_type\<close> of an expression and its type.\<close>

definition tail_expr_type :: "node \<Rightarrow> tref \<Rightarrow> tref option" where
  "tail_expr_type e t =
     (case e of
        FunctionCall _ x _ _ \<Rightarrow> if x = ''runtime.gc_live'' \<or> named t ''void'' then None else Some t
      | _ \<Rightarrow> if named t ''void'' then None else Some t)"

text \<open>\<open>type(node).__name__\<close>\<close>

fun node_class :: "node \<Rightarrow> string" where
  "node_class (ImportDecl _ _) = ''ImportDecl''"
| "node_class (VariableDeclaration _ _ _ _) = ''VariableDeclaration''"
| "node_class (ExpressionStatement _) = ''ExpressionStatement''"
| "node_class (Assignment _ _ _) = ''Assignment''"
| "node_class (Update _ _) = ''Update''"
| "node_class (ForCondition _ _) = ''ForCondition''"
| "node_class (Break _) = ''Break''"
| "node_class (ForIn _ _ _ _ _ _) = ''ForIn''"
| "node_class (StructDecl _ _ _ _ _) = ''StructDecl''"
| "node_class (IfaceDecl _ _ _) = ''IfaceDecl''"
| "node_class (TypeAlias _ _ _) = ''TypeAlias''"
| "node_class (ExternBlock _ _ _) = ''ExternBlock''"
| "node_class (EnumDecl _ _) = ''EnumDecl''"
| "node_class (EnumRef _ _) = ''EnumRef''"
| "node_class (StructLiteral _ _ _ _) = ''StructLiteral''"
| "node_class (FieldAccess _ _) = ''FieldAccess''"
| "node_class (ArrayLiteral _ _ _ _) = ''ArrayLiteral''"
| "node_class (SliceLiteral _ _ _) = ''SliceLiteral''"
| "node_class (MapLiteral _ _ _) = ''MapLiteral''"
| "node_class (IndexAccess _ _ _) = ''IndexAccess''"
| "node_class (SliceExpr _ _ _) = ''SliceExpr''"
| "node_class (ErrReturn _ _) = ''ErrReturn''"
| "node_class (Defer _ _) = ''Defer''"
| "node_class (SpawnStmt _ _) = ''SpawnStmt''"
| "node_class (TryStatement _ _ _ _ _ _) = ''TryStatement''"
| "node_class (FunctionDeclaration _ _ _ _ _ _ _ _ _ _ _ _ _) = ''FunctionDeclaration''"
| "node_class (FunctionExpr _ _ _ _ _ _) = ''FunctionExpr''"
| "node_class (GenericFunctionValue _ _) = ''GenericFunctionValue''"
| "node_class (Return _ _) = ''Return''"
| "node_class (FallibleOp _ _ _) = ''FallibleOp''"
| "node_class (ErrorHandlerExpr _ _ _ _) = ''ErrorHandlerExpr''"
| "node_class (ErrorMatchExpr _ _ _ _) = ''ErrorMatchExpr''"
| "node_class (IfExpr _ _ _ _) = ''IfExpr''"
| "node_class (BlockExpr _ _) = ''BlockExpr''"
| "node_class (MatchExpr _ _ _) = ''MatchExpr''"
| "node_class (StringLiteral _ _) = ''StringLiteral''"
| "node_class (InterpolatedString _ _) = ''InterpolatedString''"
| "node_class (RuneLiteral _ _) = ''RuneLiteral''"
| "node_class (IntegerLiteral _ _ _) = ''IntegerLiteral''"
| "node_class (FloatLiteral _ _ _) = ''FloatLiteral''"
| "node_class (BoolLiteral _ _) = ''BoolLiteral''"
| "node_class (NilLiteral _) = ''NilLiteral''"
| "node_class (MagicConst _ _) = ''MagicConst''"
| "node_class (BinaryOp _ _ _) = ''BinaryOp''"
| "node_class (UnaryOp _ _) = ''UnaryOp''"
| "node_class (FunctionCall _ _ _ _) = ''FunctionCall''"
| "node_class (SizeOfType _ _) = ''SizeOfType''"
| "node_class (MethodCall _ _ _ _) = ''MethodCall''"
| "node_class (Identifier _ _ _) = ''Identifier''"

datatype pattern_key = EnumKey string string | IntKey nat | StrKey ustr | BoolKey bool

definition match_pattern_key :: "node \<Rightarrow> pattern_key res" where
  "match_pattern_key p =
     (case p of
        EnumRef e v \<Rightarrow> Inr (EnumKey e v)
      | IntegerLiteral _ n _ \<Rightarrow> Inr (IntKey n)
      | StringLiteral _ u \<Rightarrow> Inr (StrKey u)
      | BoolLiteral _ b \<Rightarrow> Inr (BoolKey b)
      | _ \<Rightarrow> fail (''match pattern: unsupported pattern '' @ node_class p))"

fun is_string_literal :: "node \<Rightarrow> bool" where
  "is_string_literal (StringLiteral _ _) = True"
| "is_string_literal _ = False"

fun pattern_variant :: "node \<Rightarrow> string list" where
  "pattern_variant (EnumRef e v) = [v]"
| "pattern_variant _ = []"

fun require_assignable :: "node \<Rightarrow> unit res" where
  "require_assignable (Identifier _ _ _) = Inr ()"
| "require_assignable (IndexAccess _ _ _) = Inr ()"
| "require_assignable (FieldAccess _ _) = Inr ()"
| "require_assignable n = fail (''invalid assignment target: '' @ node_class n)"

fun upper_const :: "bool \<Rightarrow> string \<Rightarrow> bool" where
  "upper_const has_letter [] = has_letter"
| "upper_const has_letter (c # s) =
     (if 65 \<le> code c \<and> code c \<le> 90 then upper_const True s
      else if ascii_digit c \<or> c = CHR ''_'' then upper_const has_letter s
      else False)"

definition is_upper_const_name :: "string \<Rightarrow> bool" where
  "is_upper_const_name x = upper_const False x"

fun target_ident :: "node \<Rightarrow> string option" where
  "target_ident (Identifier _ x _) = Some x"
| "target_ident _ = None"

definition require_mutable_binding :: "symtab \<Rightarrow> node \<Rightarrow> unit res" where
  "require_mutable_binding T target =
     (case target_ident target of
        None \<Rightarrow> Inr ()
      | Some x \<Rightarrow>
          (case lookup x T of
             Inl _ \<Rightarrow> Inr ()
           | Inr s \<Rightarrow> if sym_immutable s then fail (''cannot assign to const binding '' @ x) else Inr ()))"

text \<open>
  \<open>maybe_narrow_condition\<close> on the operands of a comparison and their types: the name that is not nil
  in the block, and the type it has there.
\<close>

definition narrowed_operand :: "node \<Rightarrow> tref \<Rightarrow> tref \<Rightarrow> (string \<times> tref) option" where
  "narrowed_operand var vt other =
     (case target_ident var of
        None \<Rightarrow> None
      | Some x \<Rightarrow> if is_nil_type other then Some (x, vt) else None)"

definition maybe_narrow_condition :: "node \<Rightarrow> string \<Rightarrow> node \<Rightarrow> tref \<Rightarrow> tref \<Rightarrow> (string \<times> tref) option" where
  "maybe_narrow_condition l opr r lt rt =
     (if opr \<noteq> ''!='' then None
      else
        (case (case narrowed_operand l lt rt of Some v \<Rightarrow> Some v | None \<Rightarrow> narrowed_operand r rt lt) of
           None \<Rightarrow> None
         | Some (x, t) \<Rightarrow> if is_nullable_pointer_type t then Some (x, nonnullable_pointer_type t) else None))"

subsection \<open>External functions\<close>

definition extern_param_ok :: "node param \<Rightarrow> bool" where
  "extern_param_ok p = (case ptype p of None \<Rightarrow> False | Some t \<Rightarrow> is_extern_abi_type t \<and> \<not> named t ''void'')"

definition validate_extern_function :: "bool \<Rightarrow> node \<Rightarrow> unit res" where
  "validate_extern_function trusted fn =
     (case fn of
        FunctionDeclaration name ps ret _ _ _ _ tps _ _ _ _ _ \<Rightarrow>
          if tps \<noteq> [] then fail ''generic extern functions are not supported''
          else
            rbind (rfold (\<lambda>p _.
                if pdefault p \<noteq> None then fail ''extern functions cannot have default parameters''
                else if ptype p = None
                then fail (''extern function '' @ name @ '': parameter '' @ pname p @ '' requires a type'')
                else Inr ()) ps ()) (\<lambda>_.
            if trusted then Inr ()
            else
              let r = (case ret of None \<Rightarrow> NamedType ''void'' | Some r \<Rightarrow> r) in
              if \<not> is_extern_abi_type r
              then fail (''extern function '' @ name @ '': unsupported ret type '' @ ty r)
              else
                rfold (\<lambda>p _.
                  if extern_param_ok p then Inr ()
                  else fail (''extern function '' @ name @ '': unsupported parameter '' @ pname p @ '': ''
                    @ (case ptype p of Some t \<Rightarrow> ty t | None \<Rightarrow> ''None''))) ps ())
      | _ \<Rightarrow> Inl AttributeError)"

subsection \<open>Propagated errors\<close>

text \<open>
  \<open>mark_direct_fallible\<close>: does a body contain \<open>err\<close> or \<open>??\<close>. What is not listed in the code answers
  no, among it the parts of an interpolated string, the operands of \<open>err?\<close> and \<open>match?\<close>, the call of
  \<open>try\<close>, the condition and the bounds of a loop.
\<close>

definition opt_any :: "('a \<Rightarrow> bool) \<Rightarrow> 'a option \<Rightarrow> bool" where
  "opt_any f v = (case v of None \<Rightarrow> False | Some x \<Rightarrow> f x)"

lemma opt_any_cong [fundef_cong]:
  "v = v' \<Longrightarrow> (\<And>x. v' = Some x \<Longrightarrow> f x = g x) \<Longrightarrow> opt_any f v = opt_any g v'"
  by (cases v') (simp_all add: opt_any_def)

function mark_direct_fallible :: "node \<Rightarrow> bool" where
  "mark_direct_fallible n =
     (case n of
        ErrReturn _ _ \<Rightarrow> True
      | FallibleOp _ e opr \<Rightarrow> opr = ''??'' \<or> mark_direct_fallible e
      | ErrorHandlerExpr _ _ _ handler \<Rightarrow> list_ex mark_direct_fallible (statements handler)
      | ErrorMatchExpr _ _ _ arms \<Rightarrow> list_ex (\<lambda>(_, b). mark_direct_fallible b) arms
      | FunctionExpr _ _ _ _ _ _ \<Rightarrow> False
      | FunctionDeclaration _ _ _ body _ _ _ _ _ _ _ _ _ \<Rightarrow> list_ex mark_direct_fallible (statements body)
      | ForCondition _ body \<Rightarrow> list_ex mark_direct_fallible (statements body)
      | ForIn _ _ _ body _ _ \<Rightarrow> list_ex mark_direct_fallible (statements body)
      | Defer _ body \<Rightarrow> list_ex mark_direct_fallible (statements body)
      | ExpressionStatement e \<Rightarrow> mark_direct_fallible e
      | VariableDeclaration _ _ e _ \<Rightarrow> mark_direct_fallible e
      | Assignment t e _ \<Rightarrow> mark_direct_fallible t \<or> mark_direct_fallible e
      | Update t _ \<Rightarrow> mark_direct_fallible t
      | Return _ e \<Rightarrow> opt_any mark_direct_fallible e
      | TryStatement _ _ sb _ _ eb \<Rightarrow>
          list_ex mark_direct_fallible (statements sb)
          \<or> opt_any (\<lambda>b. list_ex mark_direct_fallible (statements b)) eb
      | IfExpr _ c t e \<Rightarrow>
          mark_direct_fallible c \<or> list_ex mark_direct_fallible (statements t)
          \<or> opt_any (\<lambda>b. list_ex mark_direct_fallible (statements b)) e
      | BlockExpr _ b \<Rightarrow> list_ex mark_direct_fallible (statements b)
      | MatchExpr _ e arms \<Rightarrow>
          mark_direct_fallible e
          \<or> list_ex (\<lambda>arm. case arm of (p, b) \<Rightarrow> opt_any mark_direct_fallible p \<or> mark_direct_fallible b) arms
      | BinaryOp l _ r \<Rightarrow> mark_direct_fallible l \<or> mark_direct_fallible r
      | UnaryOp _ e \<Rightarrow> mark_direct_fallible e
      | FunctionCall _ _ as _ \<Rightarrow> list_ex mark_direct_fallible as
      | MethodCall _ obj _ as \<Rightarrow> mark_direct_fallible obj \<or> list_ex mark_direct_fallible as
      | ArrayLiteral _ _ _ es \<Rightarrow> list_ex mark_direct_fallible es
      | SliceLiteral _ _ es \<Rightarrow> list_ex mark_direct_fallible es
      | MapLiteral _ _ kvs \<Rightarrow> list_ex (\<lambda>(k, v). mark_direct_fallible k \<or> mark_direct_fallible v) kvs
      | IndexAccess obj i _ \<Rightarrow> mark_direct_fallible obj \<or> mark_direct_fallible i
      | SliceExpr obj s e \<Rightarrow> mark_direct_fallible obj \<or> mark_direct_fallible s \<or> opt_any mark_direct_fallible e
      | FieldAccess obj _ \<Rightarrow> mark_direct_fallible obj
      | StructLiteral _ _ fs _ \<Rightarrow> list_ex (\<lambda>(_, v). mark_direct_fallible v) fs
      | _ \<Rightarrow> False)"
  by pat_completeness auto
termination
  by (relation "measure size") (auto dest: node_sizes)

declare mark_direct_fallible.simps [simp del]

end
