(* ===== verification/CheckPartsProps.thy ===== *)
theory CheckPartsProps
  imports CheckParts
begin

text \<open>
  Promotion through embedded structs and the method sets of interfaces: the searches end, and the
  search for a field finds exactly what the embedding graph reaches.
\<close>

subsection \<open>The searches end\<close>

lemma rmap_nofuel: "(\<And>x. x \<in> set xs \<Longrightarrow> f x \<noteq> Inl OutOfFuel) \<Longrightarrow> rmap f xs \<noteq> Inl OutOfFuel"
  using rmap_Inl by fastforce

lemma rfold_nofuel: "(\<And>x s. x \<in> set xs \<Longrightarrow> f x s \<noteq> Inl OutOfFuel) \<Longrightarrow> rfold f xs s \<noteq> Inl OutOfFuel"
  by (induction xs arbitrary: s) (auto simp: rbind_eq_Inl)

lemma rbind_nofuel: "m \<noteq> Inl OutOfFuel \<Longrightarrow> (\<And>x. f x \<noteq> Inl OutOfFuel) \<Longrightarrow> rbind m f \<noteq> Inl OutOfFuel"
  by (cases m) auto

lemma unique_match_nofuel: "unique_match msg ms \<noteq> Inl OutOfFuel"
  by (auto simp: unique_match_def fail_def split: list.splits)

definition embedders :: "symtab \<Rightarrow> string set" where
  "embedders T = fst ` set (struct_embeds T)"

lemma embedder_mem: "x \<in> set (embedded_structs T a) \<Longrightarrow> a \<in> embedders T"
  by (cases "map_of (struct_embeds T) a")
    (auto simp: embedded_structs_def embedders_def dom_map_of_conv_image_fst [symmetric])

lemma finite_embedders [simp]: "finite (embedders T)"
  by (simp add: embedders_def)

lemma fewer_left:
  assumes "finite K" and "a \<in> K" and "a \<notin> set seen" and "card (K - set seen) < Suc n"
  shows "card (K - set (a # seen)) < n"
proof -
  have "card (K - set (a # seen)) < card (K - set seen)"
    using assms(1-3) by (intro psubset_card_mono) auto
  with assms(4) show ?thesis by simp
qed

lemma card_embedders: "card (embedders T - set seen) < embed_fuel T"
proof -
  have "card (embedders T - set seen) \<le> card (embedders T)" by (simp add: card_Diff_subset_Int diff_le_self)
  also have "\<dots> \<le> length (struct_embeds T)"
    unfolding embedders_def by (metis card_image_le card_length finite_set le_trans)
  finally show ?thesis by (simp add: embed_fuel_def)
qed

lemma promoted_method_ends:
  "card (embedders T - set seen) < n \<Longrightarrow> promoted_method n T a m seen \<noteq> Inl OutOfFuel"
proof (induction n arbitrary: a seen)
  case (Suc n)
  show ?case
  proof (cases "a \<in> set seen")
    case False
    have nested: "promoted_method n T b m (a # seen) \<noteq> Inl OutOfFuel" if "x \<in> set (embedded_structs T a)" for x b
      by (rule Suc.IH [OF fewer_left [OF finite_embedders embedder_mem [OF that] False Suc.prems]])
    show ?thesis
      unfolding promoted_method.simps if_not_P [OF False]
    proof (intro rbind_nofuel rmap_nofuel unique_match_nofuel)
      fix x
      assume x: "x \<in> set (embedded_structs T a)"
      obtain f e where "x = (f, e)" by (cases x)
      then show "(case x of (f, e) \<Rightarrow> rbind (promoted_method n T (embed_base e) m (a # seen)) (\<lambda>nested.
          Inr (via f (map_option (\<lambda>sig. ([], embed_base e, sig)) (own_method T (embed_base e) m)) @ via f nested)))
          \<noteq> Inl OutOfFuel"
        using nested [OF x, of "embed_base e"] by (simp add: rbind_eq_Inl)
    qed
  qed simp
qed simp

lemma promoted_field_ends:
  "card (embedders T - set seen) < n \<Longrightarrow> promoted_field n T a fld seen \<noteq> Inl OutOfFuel"
proof (induction n arbitrary: a seen)
  case (Suc n)
  show ?case
  proof (cases "a \<in> set seen")
    case False
    have nested: "promoted_field n T b fld (a # seen) \<noteq> Inl OutOfFuel" if "x \<in> set (embedded_structs T a)" for x b
      by (rule Suc.IH [OF fewer_left [OF finite_embedders embedder_mem [OF that] False Suc.prems]])
    show ?thesis
      unfolding promoted_field.simps if_not_P [OF False]
    proof (intro rbind_nofuel rmap_nofuel unique_match_nofuel)
      fix x
      assume x: "x \<in> set (embedded_structs T a)"
      obtain f e where "x = (f, e)" by (cases x)
      then show "(case x of (f, e) \<Rightarrow> case lookup_struct (embed_base e) T of
          Inl _ \<Rightarrow> Inr []
        | Inr d \<Rightarrow> rbind (promoted_field n T (embed_base e) fld (a # seen)) (\<lambda>nested.
            Inr (via f (map_option (Pair []) (map_of d fld)) @ via f nested))) \<noteq> Inl OutOfFuel"
        using nested [OF x, of "embed_base e"] by (simp add: rbind_eq_Inl split: sum.split)
    qed
  qed simp
qed simp

lemma fail_nofuel: "fail msg \<noteq> Inl OutOfFuel"
  by (simp add: fail_def)

lemma case_nofuel:
  "(\<And>x y. f x y \<noteq> Inl OutOfFuel) \<Longrightarrow> (case p of (x, y) \<Rightarrow> f x y) \<noteq> Inl OutOfFuel"
  "(\<And>x y. k x y s \<noteq> Inl OutOfFuel) \<Longrightarrow> (case p of (x, y) \<Rightarrow> k x y) s \<noteq> Inl OutOfFuel"
  "(\<And>x. g x \<noteq> Inl OutOfFuel) \<Longrightarrow> (\<And>y. h y \<noteq> Inl OutOfFuel) \<Longrightarrow> (case v of Inl x \<Rightarrow> g x | Inr y \<Rightarrow> h y) \<noteq> Inl OutOfFuel"
  "m \<noteq> Inl OutOfFuel \<Longrightarrow> n \<noteq> Inl OutOfFuel \<Longrightarrow> (if b then m else n) \<noteq> Inl OutOfFuel"
  by (simp_all split: prod.split sum.split)

lemma promote_nofuel: "promote s w direct e x d \<noteq> Inl OutOfFuel"
  by (simp add: promote_def conflict_def fail_nofuel split: option.split)

lemma validate_struct_embedding_ends: "validate_struct_embedding T a fs embedded \<noteq> Inl OutOfFuel"
  unfolding validate_struct_embedding_def Let_def
  by (intro rbind_nofuel rfold_nofuel fail_nofuel promote_nofuel case_nofuel) simp_all

lemma add_iface_method_nofuel: "add_iface_method i m ms \<noteq> Inl OutOfFuel"
  by (auto simp: add_iface_method_def fail_def split: option.splits)

lemma iface_method_set_ends:
  "card (fst ` set (ifaces T) - set stack) < n \<Longrightarrow> iface_method_set n T i stack \<noteq> Inl OutOfFuel"
proof (induction n arbitrary: i stack)
  case (Suc n)
  show ?case
  proof (cases "map_of (ifaces T) i")
    case (Some di)
    obtain own embeds where di: "di = (own, embeds)" by (cases di)
    have own: "rfold (\<lambda>(m, ps, ret, fallible) ms.
        if fallible then fail (''iface '' @ i @ '': fallible methods are not supported in v1'')
        else add_iface_method i (m, map ptype ps, ret) ms) own ms \<noteq> Inl OutOfFuel" for ms
      by (rule rfold_nofuel) (auto simp: fail_def add_iface_method_nofuel split: prod.splits)
    show ?thesis
    proof (cases "i \<in> set stack")
      case False
      have "i \<in> fst ` set (ifaces T)" using Some by (metis domI dom_map_of_conv_image_fst)
      then have "card (fst ` set (ifaces T) - set (i # stack)) < n"
        using False Suc.prems by (intro fewer_left) auto
      then have "iface_method_set n T j (stack @ [i]) \<noteq> Inl OutOfFuel" for j
        by (intro Suc.IH) (simp add: insert_commute Un_commute)
      then have "rfold (\<lambda>e ms.
          if \<not> has_key (ifaces T) (type_key e) then fail (''iface '' @ i @ '': embedded iface '' @ ty e @ '' not found'')
          else rbind (iface_method_set n T (type_key e) (stack @ [i])) (\<lambda>inherited.
            rfold (add_iface_method i) inherited ms)) embeds [] \<noteq> Inl OutOfFuel"
        by (intro rfold_nofuel) (auto simp: fail_def rbind_eq_Inl rfold_nofuel add_iface_method_nofuel)
      with own show ?thesis using Some False di by (auto simp: rbind_eq_Inl)
    qed (simp add: Some di fail_def)
  qed (simp add: fail_def)
qed simp

lemma iface_methods_ends: "iface_methods T i \<noteq> Inl OutOfFuel"
proof -
  have "card (fst ` set (ifaces T)) \<le> length (ifaces T)"
    by (metis card_image_le card_length finite_set le_trans)
  then show ?thesis
    unfolding iface_methods_def by (intro iface_method_set_ends) (simp add: iface_fuel_def)
qed

lemma resolve_method_call_ends: "resolve_method_call T a m \<noteq> Inl OutOfFuel"
  unfolding resolve_method_call_def
  using promoted_method_ends [OF card_embedders] by (simp split: option.split)

subsection \<open>Promoted fields\<close>

text \<open>
  What embedding promotes: a path of embedded fields that visits no struct twice, to a field of the last
  struct on it.
\<close>

inductive promotes :: "symtab \<Rightarrow> string \<Rightarrow> string set \<Rightarrow> string \<Rightarrow> string list \<times> tref \<Rightarrow> bool" for T fld where
  direct: "a \<notin> S \<Longrightarrow> (f, e) \<in> set (embedded_structs T a) \<Longrightarrow> lookup_struct (embed_base e) T = Inr d
     \<Longrightarrow> map_of d fld = Some t \<Longrightarrow> promotes T fld S a ([f], t)"
| nested: "a \<notin> S \<Longrightarrow> (f, e) \<in> set (embedded_structs T a) \<Longrightarrow> lookup_struct (embed_base e) T = Inr d
     \<Longrightarrow> promotes T fld (insert a S) (embed_base e) (path, t) \<Longrightarrow> promotes T fld S a (f # path, t)"

inductive_simps promotes_simp: "promotes T fld S a (path, t)"

lemma promotes_path: "promotes T fld S a m \<Longrightarrow> fst m \<noteq> []"
  by (induction rule: promotes.induct) auto

text \<open>What one embedded field contributes.\<close>

definition promoted_via :: "symtab \<Rightarrow> string \<Rightarrow> string set \<Rightarrow> string \<times> tref \<Rightarrow> (string list \<times> tref) set" where
  "promoted_via T fld S fe =
     {m. \<exists>d. lookup_struct (embed_base (snd fe)) T = Inr d \<and>
        ((\<exists>t. map_of d fld = Some t \<and> m = ([fst fe], t))
         \<or> (\<exists>path t. promotes T fld S (embed_base (snd fe)) (path, t) \<and> m = (fst fe # path, t)))}"

lemma mem_promoted_via:
  "(p, t) \<in> promoted_via T fld S (f, e) \<longleftrightarrow>
     (\<exists>d. lookup_struct (embed_base e) T = Inr d \<and>
        (p = [f] \<and> map_of d fld = Some t \<or> (\<exists>q. p = f # q \<and> promotes T fld S (embed_base e) (q, t))))"
  by (auto simp: promoted_via_def)

lemma promotes_mem:
  assumes "a \<notin> S"
  shows "promotes T fld S a (p, t) \<longleftrightarrow> (\<exists>fe \<in> set (embedded_structs T a). (p, t) \<in> promoted_via T fld (insert a S) fe)"
    (is "?L = ?R")
proof
  assume ?L
  then show ?R
  proof (cases rule: promotes.cases)
    case (direct f e d)
    then show ?thesis by (intro bexI [of _ "(f, e)"]) (simp_all add: mem_promoted_via)
  next
    case (nested f e d path)
    then show ?thesis by (intro bexI [of _ "(f, e)"]) (simp_all add: mem_promoted_via)
  qed
next
  assume ?R
  then obtain f e where fe: "(f, e) \<in> set (embedded_structs T a)" and m: "(p, t) \<in> promoted_via T fld (insert a S) (f, e)"
    by auto
  from m [unfolded mem_promoted_via] obtain d where d: "lookup_struct (embed_base e) T = Inr d"
    and or: "p = [f] \<and> map_of d fld = Some t \<or> (\<exists>q. p = f # q \<and> promotes T fld (insert a S) (embed_base e) (q, t))"
    by blast
  from or show ?L
  proof
    assume "p = [f] \<and> map_of d fld = Some t"
    then show ?L using promotes.direct [OF assms fe d] by simp
  next
    assume "\<exists>q. p = f # q \<and> promotes T fld (insert a S) (embed_base e) (q, t)"
    then show ?L using promotes.nested [OF assms fe d] by blast
  qed
qed

lemma promotes_Union:
  assumes "a \<notin> S"
  shows "{m. promotes T fld S a m} = (\<Union>fe \<in> set (embedded_structs T a). promoted_via T fld (insert a S) fe)"
  using promotes_mem [OF assms] by (intro set_eqI) (simp add: split_paired_all)

lemma promotes_seen: "a \<in> S \<Longrightarrow> {m. promotes T fld S a m} = {}"
  by (auto elim: promotes.cases)

text \<open>A search answers for a set of matches: none, the only one, or an error when there are two.\<close>

definition answers :: "'a option res \<Rightarrow> 'a set \<Rightarrow> bool" where
  "answers r M \<longleftrightarrow>
     (case r of
        Inr v \<Rightarrow> M = set_option v
      | Inl e \<Rightarrow> (\<exists>msg. e = TypeCheckError msg) \<and> (\<exists>x \<in> M. \<exists>y \<in> M. x \<noteq> y))"

lemma answers_cases:
  assumes "answers r {m. P m}"
  obtains "r = Inr None" "\<forall>m. \<not> P m"
    | only where "r = Inr (Some only)" "\<forall>m. P m = (m = only)"
    | msg m m' where "r = Inl (TypeCheckError msg)" "m \<noteq> m'" "P m" "P m'"
proof (cases r)
  case (Inr v)
  then show thesis using assms that(1,2) by (cases v) (auto simp: answers_def set_eq_iff)
next
  case (Inl e)
  then show thesis using assms that(3) by (auto simp: answers_def)
qed

lemma unique_match_answers:
  assumes "distinct ms"
  shows "answers (unique_match msg ms) (set ms)"
proof (cases ms)
  case (Cons m rest)
  with assms show ?thesis by (cases rest) (auto simp: answers_def unique_match_def fail_def)
qed (simp add: answers_def unique_match_def)

definition search_via ::
  "(string \<Rightarrow> (string list \<times> tref) option res) \<Rightarrow> symtab \<Rightarrow> string \<Rightarrow> string \<times> tref \<Rightarrow> (string list \<times> tref) list res" where
  "search_via rec T fld = (\<lambda>(f, e).
     case lookup_struct (embed_base e) T of
       Inl _ \<Rightarrow> Inr []
     | Inr d \<Rightarrow> rbind (rec (embed_base e)) (\<lambda>nested. Inr (via f (map_option (Pair []) (map_of d fld)) @ via f nested)))"

lemma search_via_ok:
  assumes "answers (rec (embed_base e)) {m. promotes T fld S (embed_base e) m}"
    and r: "search_via rec T fld (f, e) = Inr ms"
  shows "distinct ms \<and> set ms = promoted_via T fld S (f, e) \<and> (\<forall>m \<in> set ms. \<exists>path. fst m = f # path)"
proof (cases "lookup_struct (embed_base e) T")
  case (Inr d)
  then obtain v where v: "rec (embed_base e) = Inr v"
    and ms: "ms = via f (map_option (Pair []) (map_of d fld)) @ via f v"
    using r by (cases "rec (embed_base e)") (simp_all add: search_via_def)
  have "{m. promotes T fld S (embed_base e) m} = set_option v" using assms(1) v by (simp add: answers_def)
  then have p: "promotes T fld S (embed_base e) m \<longleftrightarrow> v = Some m" for m by (cases m) (auto simp: set_eq_iff)
  have ne: "path \<noteq> []" if "v = Some (path, t)" for path t using promotes_path [of T fld S _ "(path, t)"] p that by auto
  have "set ms = promoted_via T fld S (f, e)"
    by (rule set_eqI) (auto simp: split_paired_all mem_promoted_via Inr p ms via_def split: option.splits)
  moreover have "distinct ms" using ne by (auto simp: ms via_def split: option.splits)
  moreover have "\<forall>m \<in> set ms. \<exists>path. fst m = f # path" by (auto simp: ms via_def split: option.splits)
  ultimately show ?thesis by blast
next
  case (Inl err)
  then have "ms = []" using r by (simp add: search_via_def)
  moreover have "promoted_via T fld S (f, e) = {}" by (simp add: promoted_via_def Inl)
  ultimately show ?thesis by simp
qed

definition ambiguous :: "exn \<Rightarrow> 'a set \<Rightarrow> bool" where
  "ambiguous err M \<longleftrightarrow> (\<exists>msg. err = TypeCheckError msg) \<and> (\<exists>x \<in> M. \<exists>y \<in> M. x \<noteq> y)"

lemma answers_Inl: "answers (Inl err) M \<longleftrightarrow> ambiguous err M"
  by (simp add: answers_def ambiguous_def)

lemma ambiguous_mono: "ambiguous err M \<Longrightarrow> M \<subseteq> N \<Longrightarrow> ambiguous err N"
  by (fastforce simp: ambiguous_def)

lemma search_via_error:
  assumes "answers (rec (embed_base e)) {m. promotes T fld S (embed_base e) m}"
    and r: "search_via rec T fld (f, e) = Inl err"
  shows "ambiguous err (promoted_via T fld S (f, e))"
proof -
  obtain d where d: "lookup_struct (embed_base e) T = Inr d" "rec (embed_base e) = Inl err"
    using r by (cases "lookup_struct (embed_base e) T"; cases "rec (embed_base e)") (simp_all add: search_via_def)
  with assms(1) obtain p t q u where pt: "promotes T fld S (embed_base e) (p, t)" and qu: "promotes T fld S (embed_base e) (q, u)"
      and ne: "(p, t) \<noteq> (q, u)" and msg: "\<exists>msg. err = TypeCheckError msg"
    by (auto simp: answers_Inl ambiguous_def)
  have "(f # p, t) \<in> promoted_via T fld S (f, e)" using d(1) pt by (simp add: mem_promoted_via)
  moreover have "(f # q, u) \<in> promoted_via T fld S (f, e)" using d(1) qu by (simp add: mem_promoted_via)
  ultimately show ?thesis using msg ne unfolding ambiguous_def by (metis list.inject prod.inject)
qed

text \<open>The embedded fields of a struct have different names, so their contributions do not meet.\<close>

lemma rmap_search_via:
  assumes "\<And>fe. fe \<in> set fes \<Longrightarrow> answers (rec (embed_base (snd fe))) {m. promotes T fld S (embed_base (snd fe)) m}"
    and "distinct (map fst fes)" and "rmap (search_via rec T fld) fes = Inr mss"
  shows "distinct (concat mss) \<and> set (concat mss) = (\<Union>fe \<in> set fes. promoted_via T fld S fe)
     \<and> (\<forall>m \<in> set (concat mss). hd (fst m) \<in> fst ` set fes)"
  using assms
proof (induction fes arbitrary: mss)
  case (Cons fe fes)
  obtain f e where fe: "fe = (f, e)" by (cases fe)
  obtain ms rest where ms: "search_via rec T fld (f, e) = Inr ms" and rest: "rmap (search_via rec T fld) fes = Inr rest"
    and mss: "mss = ms # rest"
    using Cons.prems(3) fe by (auto simp: rbind_eq_Inr)
  have head: "distinct ms \<and> set ms = promoted_via T fld S (f, e) \<and> (\<forall>m \<in> set ms. \<exists>path. fst m = f # path)"
    using Cons.prems(1) [of fe] fe by (intro search_via_ok [OF _ ms]) simp
  have tail: "distinct (concat rest) \<and> set (concat rest) = (\<Union>fe \<in> set fes. promoted_via T fld S fe)
     \<and> (\<forall>m \<in> set (concat rest). hd (fst m) \<in> fst ` set fes)"
    using Cons.prems(1,2) rest by (intro Cons.IH) auto
  have f: "f \<notin> fst ` set fes" using Cons.prems(2) fe by simp
  have names: "hd (fst m) = f" if "m \<in> set ms" for m using head that by force
  have apart: "set ms \<inter> set (concat rest) = {}"
  proof (rule ccontr)
    assume "set ms \<inter> set (concat rest) \<noteq> {}"
    then obtain m where "m \<in> set ms" "m \<in> set (concat rest)" by blast
    then show False using names tail f by metis
  qed
  have all: "distinct (concat mss)" "set (concat mss) = set ms \<union> set (concat rest)"
    using head tail apart by (simp_all only: mss concat.simps distinct_append set_append)
  have "set (concat mss) = (\<Union>fe \<in> set (fe # fes). promoted_via T fld S fe)"
    using head tail unfolding all(2) by (simp only: fe list.set UN_insert)
  moreover have "hd (fst m) \<in> fst ` set (fe # fes)" if "m \<in> set (concat mss)" for m
    using that [unfolded all(2)] names [of m] conjunct2 [OF conjunct2 [OF tail], rule_format, of m]
    by (elim UnE) (simp_all only: fe list.set image_insert fst_conv insert_iff simp_thms)
  ultimately show ?case using all(1) by blast
qed simp

lemma promoted_field_Suc:
  "promoted_field (Suc n) T a fld seen =
     (if a \<in> set seen then Inr None
      else rbind (rmap (search_via (\<lambda>b. promoted_field n T b fld (a # seen)) T fld) (embedded_structs T a)) (\<lambda>mss.
        unique_match (a @ '': ambiguous promoted field '' @ fld) (concat mss)))"
  by (simp add: search_via_def)

lemma promoted_field_answers:
  assumes "\<And>a. distinct (map fst (embedded_structs T a))"
  shows "card (embedders T - set seen) < n \<Longrightarrow> answers (promoted_field n T a fld seen) {m. promotes T fld (set seen) a m}"
proof (induction n arbitrary: a seen)
  case (Suc n)
  show ?case
  proof (cases "a \<in> set seen")
    case True
    then show ?thesis by (simp add: answers_def promotes_seen)
  next
    case False
    let ?search = "search_via (\<lambda>b. promoted_field n T b fld (a # seen)) T fld"
    have IH: "answers (promoted_field n T (embed_base (snd fe)) fld (a # seen))
        {m. promotes T fld (insert a (set seen)) (embed_base (snd fe)) m}" if "fe \<in> set (embedded_structs T a)" for fe
      using Suc.IH [OF fewer_left [OF finite_embedders embedder_mem [OF that] False Suc.prems]] by simp
    note all = promotes_Union [OF False, of T fld]
    show ?thesis
    proof (cases "rmap ?search (embedded_structs T a)")
      case (Inr mss)
      note found = rmap_search_via [OF IH assms Inr]
      then have "answers (unique_match msg (concat mss)) (set (concat mss))" for msg
        by (intro unique_match_answers) simp
      then show ?thesis
        unfolding promoted_field_Suc if_not_P [OF False] Inr all using found by simp
    next
      case (Inl err)
      then obtain fe where fe: "fe \<in> set (embedded_structs T a)" and err: "?search fe = Inl err"
        using rmap_Inl by blast
      have "ambiguous err (promoted_via T fld (insert a (set seen)) (fst fe, snd fe))"
        by (rule search_via_error [where rec = "\<lambda>b. promoted_field n T b fld (a # seen)"]) (use IH [OF fe] err in simp_all)
      then have "ambiguous err (\<Union>fe \<in> set (embedded_structs T a). promoted_via T fld (insert a (set seen)) fe)"
        by (rule ambiguous_mono) (use fe in auto)
      then show ?thesis
        unfolding promoted_field_Suc if_not_P [OF False] Inl all by (simp add: answers_Inl)
    qed
  qed
qed simp

text \<open>
  C12: The search for a promoted field finds nothing exactly when no path of embedded fields leads to a
  field of that name, finds a path and its type exactly when that path is the only one, and reports
  an ambiguity exactly when there are two.
\<close>

theorem promoted_field_unique:
  assumes "\<And>a. distinct (map fst (embedded_structs T a))"
  shows "(promoted_field (embed_fuel T) T a fld [] = Inr None) = (\<nexists>m. promotes T fld {} a m)
    \<and> (promoted_field (embed_fuel T) T a fld [] = Inr (Some found)) = (\<forall>m. promotes T fld {} a m = (m = found))
    \<and> (\<exists>msg. promoted_field (embed_fuel T) T a fld [] = Inl (TypeCheckError msg))
        = (\<exists>m m'. m \<noteq> m' \<and> promotes T fld {} a m \<and> promotes T fld {} a m')"
proof -
  have "answers (promoted_field (embed_fuel T) T a fld []) {m. promotes T fld {} a m}"
    using promoted_field_answers [where a = a, OF assms card_embedders [of T "[]"]] by simp
  then consider "promoted_field (embed_fuel T) T a fld [] = Inr None" "\<forall>m. \<not> promotes T fld {} a m"
    | only where "promoted_field (embed_fuel T) T a fld [] = Inr (Some only)" "\<forall>m. promotes T fld {} a m = (m = only)"
    | msg m m' where "promoted_field (embed_fuel T) T a fld [] = Inl (TypeCheckError msg)"
        "m \<noteq> m'" "promotes T fld {} a m" "promotes T fld {} a m'"
    by (rule answers_cases)
  then show ?thesis
  proof cases
    case 1
    then show ?thesis by (cases found) auto
  next
    case (2 only)
    then have "promotes T fld {} a only" by (cases only) simp
    with 2 show ?thesis by (metis Inl_Inr_False sum.inject(2) option.inject option.distinct(1))
  next
    case (3 msg m m')
    then have "\<not> (\<forall>n. promotes T fld {} a n = (n = found))" "\<exists>m. promotes T fld {} a m" by metis+
    with 3 show ?thesis by (metis sum.distinct(1) Inl_Inr_False sum.inject(1))
  qed
qed

definition chain_table :: symtab where
  "chain_table = empty_symtab
     \<lparr>structs := [(''A'', [(''B'', NamedType ''B'')]), (''B'', [(''C'', NamedType ''C'')]), (''C'', [(''x'', NamedType ''i32'')])],
      struct_embeds := [(''A'', [(''B'', NamedType ''B'')]), (''B'', [(''C'', NamedType ''C'')])]\<rparr>"

lemma chain_embeds: "distinct (map fst (embedded_structs chain_table a))"
  by (simp add: embedded_structs_def chain_table_def)

theorem promoted_field_unique_witness:
  "\<forall>m. promotes chain_table ''x'' {} ''A'' m = (m = ([''B'', ''C''], NamedType ''i32''))"
proof -
  have "promoted_field (embed_fuel chain_table) chain_table ''A'' ''x'' [] = Inr (Some ([''B'', ''C''], NamedType ''i32''))"
    by code_simp
  then show ?thesis
    using promoted_field_unique [of chain_table "''A''" "''x''" "([''B'', ''C''], NamedType ''i32'')", OF chain_embeds] by blast
qed

text \<open>
  C13: The searches through embedded structs and interfaces end on every symbol table, whatever
  embeds whatever: the bounds they start with are never reached.
\<close>

theorem embedding_terminates:
  "promoted_field (embed_fuel T) T a fld [] \<noteq> Inl OutOfFuel
   \<and> resolve_method_call T a m \<noteq> Inl OutOfFuel
   \<and> iface_methods T i \<noteq> Inl OutOfFuel
   \<and> validate_struct_embedding T a fs embedded \<noteq> Inl OutOfFuel"
  by (intro conjI promoted_field_ends card_embedders resolve_method_call_ends iface_methods_ends validate_struct_embedding_ends)

end
