(* ===== verification/TypeCheck.thy ===== *)
theory TypeCheck
  imports CheckParts
begin

text \<open>
  \<open>compiler/typecheck.py\<close>, \<open>infer_types\<close>: the walk that gives every expression its type. The local
  variables of \<open>infer_types\<close> that the inner functions change are the fields of a state, and each inner
  function is a definition that passes it on. The type and the mark \<open>fallible\<close> of a node are what the
  walk of the node returns; a subtree that is visited twice is visited as it was parsed.
\<close>

subsection \<open>The state\<close>

text \<open>
  \<open>current_callable\<close>: a function or a method of the top level, a function declared in a body, a
  function expression. Only the first two are found again by a call.
\<close>

datatype callable_ref = CFunction string | CMethod string string | CNested string | CExpr

text \<open>
  \<open>fns\<close> and \<open>mths\<close> are \<open>function_decls\<close> and \<open>method_decls\<close>; \<open>fallible_fns\<close> the declarations whose
  attribute \<open>fallible\<close> is set. \<open>cur_ret\<close> is \<open>None\<close> while a result type is inferred. A closure has the
  level of its scope and its captures; \<open>captured\<close> holds the attribute \<open>captures\<close> of the function
  expressions. The two stacks \<open>narrowed_read_stack\<close> and \<open>narrowed_assign_forbidden\<close> are pushed
  together and hold one name each: they are \<open>narrowed\<close>. \<open>in_default\<close> holds while a node marked
  \<open>_default_arg_expr\<close> is visited.
\<close>

record tcs =
  tab :: symtab
  fns :: "(string \<times> node) list"
  mths :: "((string \<times> string) \<times> node) list"
  cur_ret :: "tref option"
  callable :: "callable_ref option"
  break_depth :: nat
  fallible_depth :: nat
  defer_depth :: nat
  closures :: "(int \<times> (string \<times> tref) list) list"
  captured :: "(node \<times> (string \<times> tref) list) list"
  ret_values :: "tref list"
  ret_void :: bool
  resolving :: "callable_ref list"
  fallible_fns :: "callable_ref list"
  narrowed :: "(string \<times> tref) list"
  in_default :: bool

type_synonym 'a tc = "tcs \<Rightarrow> ('a \<times> tcs) res"

text \<open>
  What earlier passes wrote on the nodes: whether the source file of a node, or a declaration, is one
  of the trusted standard library; the type arguments of an erased call; the template of an erased
  function; whether a declaration is an instance of a generic one, and its constraints.
\<close>

record cenv =
  trusted_node :: "node \<Rightarrow> bool"
  trusted_decl :: "node \<Rightarrow> bool"
  erased_args :: "node \<Rightarrow> tref list option"
  erased_template :: "string \<Rightarrow> node option"
  generic_origin :: "node \<Rightarrow> bool"
  generic_info :: "node \<Rightarrow> (string \<times> tref \<times> string) list \<times> bool \<times> string \<times> string"

text \<open>
  The inner functions call each other through these three: the visit of an expression, of a list of
  statements (which gives the type of the last one when it is an expression), and the inference of a
  result type.
\<close>

record procs =
  w_expr :: "node \<Rightarrow> (tref \<times> bool) tc"
  w_stmts :: "bool \<Rightarrow> node list \<Rightarrow> tref option tc"
  w_resolve :: "callable_ref \<Rightarrow> tref tc"

definition tfail :: "string \<Rightarrow> 'a tc" where
  "tfail msg = slift (fail msg)"

definition at_tab :: "(symtab \<Rightarrow> 'a res) \<Rightarrow> 'a tc" where
  "at_tab f s = rbind (f (tab s)) (\<lambda>a. Inr (a, s))"

definition on_tab :: "(symtab \<Rightarrow> symtab res) \<Rightarrow> unit tc" where
  "on_tab f s = rbind (f (tab s)) (\<lambda>T. Inr ((), s\<lparr>tab := T\<rparr>))"

definition sdo :: "unit tc \<Rightarrow> 'a tc \<Rightarrow> 'a tc" where
  "sdo m k = sbind m (\<lambda>_. k)"

definition seach :: "('x \<Rightarrow> unit tc) \<Rightarrow> 'x list \<Rightarrow> unit tc" where
  "seach f xs = sbind (smap f xs) (\<lambda>_. sret ())"

definition check :: "bool \<Rightarrow> string \<Rightarrow> unit tc" where
  "check c msg = (if c then sret () else tfail msg)"

text \<open>A step between saving a part of the state and restoring it.\<close>

definition bracket :: "(tcs \<Rightarrow> tcs) \<Rightarrow> (tcs \<Rightarrow> tcs \<Rightarrow> tcs) \<Rightarrow> 'a tc \<Rightarrow> 'a tc" where
  "bracket enter leave m s = rbind (m (enter s)) (\<lambda>(a, s'). Inr (a, leave s s'))"

definition scoped :: "'a tc \<Rightarrow> 'a tc" where
  "scoped m = sdo (smod (tab_update push_scope)) (sbind m (\<lambda>a. sdo (on_tab pop_scope) (sret a)))"

definition in_loop :: "'a tc \<Rightarrow> 'a tc" where
  "in_loop = bracket (break_depth_update Suc) (\<lambda>_. break_depth_update (\<lambda>n. n - 1))"

definition in_defer :: "'a tc \<Rightarrow> 'a tc" where
  "in_defer = bracket (defer_depth_update Suc) (\<lambda>_. defer_depth_update (\<lambda>n. n - 1))"

definition in_fallible_op :: "'a tc \<Rightarrow> 'a tc" where
  "in_fallible_op = bracket (fallible_depth_update Suc) (\<lambda>_. fallible_depth_update (\<lambda>n. n - 1))"

definition outside_fallible_op :: "'a tc \<Rightarrow> 'a tc" where
  "outside_fallible_op = bracket (fallible_depth_update (\<lambda>_. 0)) (\<lambda>s. fallible_depth_update (\<lambda>_. fallible_depth s))"

definition in_callable :: "tref option \<Rightarrow> callable_ref \<Rightarrow> 'a tc \<Rightarrow> 'a tc" where
  "in_callable r c = bracket (\<lambda>s. s\<lparr>cur_ret := r, callable := Some c\<rparr>)
     (\<lambda>s s'. s'\<lparr>cur_ret := cur_ret s, callable := callable s\<rparr>)"

definition inferring :: "callable_ref \<Rightarrow> 'a tc \<Rightarrow> 'a tc" where
  "inferring c = bracket (\<lambda>s. s\<lparr>cur_ret := None, callable := Some c, ret_values := [], ret_void := False\<rparr>)
     (\<lambda>s s'. s'\<lparr>cur_ret := cur_ret s, callable := callable s, ret_values := ret_values s, ret_void := ret_void s\<rparr>)"

definition resolving_return :: "callable_ref \<Rightarrow> 'a tc \<Rightarrow> 'a tc" where
  "resolving_return c = bracket (\<lambda>s. s\<lparr>resolving := c # resolving s, in_default := False\<rparr>)
     (\<lambda>s s'. s'\<lparr>resolving := tl (resolving s'), in_default := in_default s\<rparr>)"

definition as_default :: "'a tc \<Rightarrow> 'a tc" where
  "as_default = bracket (in_default_update (\<lambda>_. True)) (\<lambda>s. in_default_update (\<lambda>_. in_default s))"

definition narrowing :: "(string \<times> tref) option \<Rightarrow> 'a tc \<Rightarrow> 'a tc" where
  "narrowing v m =
     (case v of
        None \<Rightarrow> m
      | Some xt \<Rightarrow> bracket (narrowed_update (Cons xt)) (\<lambda>_. narrowed_update tl) m)"

definition in_closure :: "node \<Rightarrow> 'a tc \<Rightarrow> 'a tc" where
  "in_closure n m s =
     rbind (m (s\<lparr>closures := (level (tab s), []) # closures s\<rparr>)) (\<lambda>(a, s').
       case closures s' of
         [] \<Rightarrow> Inl IndexError
       | (_, caps) # rest \<Rightarrow> Inr (a, s'\<lparr>closures := rest, captured := dict_set n caps (captured s')\<rparr>))"

definition declare_var :: "string \<Rightarrow> tref option \<Rightarrow> unit tc" where
  "declare_var x t = on_tab (declare_name x t)"

definition expr :: "procs \<Rightarrow> node \<Rightarrow> tref tc" where
  "expr P e = sbind (w_expr P e) (\<lambda>(t, _). sret t)"

text \<open>\<open>t or "void"\<close>\<close>

definition or_void :: "tref option \<Rightarrow> tref" where
  "or_void t = (case t of None \<Rightarrow> NamedType ''void'' | Some t \<Rightarrow> t)"

subsection \<open>Names and types\<close>

definition callable_name :: "tcs \<Rightarrow> string option" where
  "callable_name s =
     (case callable s of
        Some (CFunction x) \<Rightarrow> Some x
      | Some (CMethod _ x) \<Rightarrow> Some x
      | Some (CNested x) \<Rightarrow> Some x
      | _ \<Rightarrow> None)"

definition pub :: "string option \<Rightarrow> tcs \<Rightarrow> string \<Rightarrow> unit res" where
  "pub owner s = require_public_qualified (in_default s) owner (callable_name s)"

definition require_public :: "string option \<Rightarrow> string \<Rightarrow> unit tc" where
  "require_public owner name s = slift (pub owner s name) s"

definition check_map_type :: "string option \<Rightarrow> tref \<Rightarrow> (tref \<times> tref) option tc" where
  "check_map_type owner t s = slift (validate_map_type (tab s) (pub owner s) t) s"

definition check_sized_type :: "tref \<Rightarrow> unit tc" where
  "check_sized_type t s = slift (validate_sized_type (tab s) (pub None s) t False) s"

definition mark_current_fallible :: "unit tc" where
  "mark_current_fallible =
     sbind (sget callable) (\<lambda>c. case c of
         None \<Rightarrow> tfail ''err is only allowed inside functions''
       | Some CExpr \<Rightarrow> tfail ''function expressions cannot be fallible in v1''
       | Some c \<Rightarrow> smod (fallible_fns_update (List.insert c)))"

text \<open>
  A parameter object is shared by the declaration and the signature in the table: its type, once
  inferred, is seen in both. Names, defaults and source ranges tell the objects apart.
\<close>

definition type_param :: "node param \<Rightarrow> tref \<Rightarrow> node param \<Rightarrow> node param" where
  "type_param p t q = (if q = p then Param (pname p) (Some t) (pdefault p) else q)"

fun map_params :: "(node param \<Rightarrow> node param) \<Rightarrow> node \<Rightarrow> node" where
  "map_params f (FunctionDeclaration x ps ret b rn rt r1 tps tcs r2 lib ext esym) =
     FunctionDeclaration x (map f ps) ret b rn rt r1 tps tcs r2 lib ext esym"
| "map_params f n = n"

definition set_param_type :: "node param \<Rightarrow> tref \<Rightarrow> tcs \<Rightarrow> tcs" where
  "set_param_type p t s =
     (let f = type_param p t; sig = (\<lambda>(r, ps). (r, map f ps)); T = tab s in
      s\<lparr>fns := map (\<lambda>(x, d). (x, map_params f d)) (fns s),
        mths := map (\<lambda>(x, d). (x, map_params f d)) (mths s),
        tab := T\<lparr>fun_sigs := map (\<lambda>(x, g). (x, sig g)) (fun_sigs T),
                 methods := map (\<lambda>(c, ms). (c, map (\<lambda>(x, g). (x, sig g)) ms)) (methods T)\<rparr>\<rparr>)"

fun set_return :: "tref \<Rightarrow> node \<Rightarrow> node" where
  "set_return r (FunctionDeclaration x ps ret b rn rt r1 tps tcs r2 lib ext esym) =
     FunctionDeclaration x ps (Some r) b rn rt r1 tps tcs r2 lib ext esym"
| "set_return r n = n"

fun return_type_explicit :: "node \<Rightarrow> bool" where
  "return_type_explicit (FunctionDeclaration _ _ _ _ _ _ r1 _ _ _ _ _ _) = r1"
| "return_type_explicit _ = False"

fun decl_receiver :: "node \<Rightarrow> (string \<times> tref) option" where
  "decl_receiver (FunctionDeclaration _ _ _ _ (Some r) (Some t) _ _ _ _ _ _ _) = Some (r, t)"
| "decl_receiver _ = None"

definition callable_of :: "node \<Rightarrow> callable_ref" where
  "callable_of d =
     (case decl_receiver d of
        Some (_, t) \<Rightarrow> CMethod (receiver_base t) (decl_name d)
      | None \<Rightarrow> CFunction (decl_name d))"

definition decl_of :: "callable_ref \<Rightarrow> tcs \<Rightarrow> node option" where
  "decl_of c s =
     (case c of
        CFunction x \<Rightarrow> map_of (fns s) x
      | CMethod t x \<Rightarrow> map_of (mths s) (t, x)
      | _ \<Rightarrow> None)"

definition fun_params :: "string \<Rightarrow> tcs \<Rightarrow> node param list" where
  "fun_params x s = (case map_of (fun_sigs (tab s)) x of Some (_, ps) \<Rightarrow> ps | None \<Rightarrow> [])"

definition method_params :: "string \<Rightarrow> string \<Rightarrow> tcs \<Rightarrow> node param list" where
  "method_params t x s = (case own_method (tab s) t x of Some (_, ps) \<Rightarrow> ps | None \<Rightarrow> [])"

definition resolved :: "procs \<Rightarrow> callable_ref \<Rightarrow> tref option \<Rightarrow> tref tc" where
  "resolved P c ret = (case ret of Some r \<Rightarrow> sret r | None \<Rightarrow> w_resolve P c)"

subsection \<open>Assignability\<close>

fun implements_all :: "procs \<Rightarrow> string \<Rightarrow> (string \<times> iface_sig) list \<Rightarrow> bool tc" where
  "implements_all P tname [] = sret True"
| "implements_all P tname ((m, ps, r) # rest) =
     sbind (at_tab (\<lambda>T. resolve_method_call T tname m)) (\<lambda>v. case v of
         None \<Rightarrow> sret False
       | Some (_, base, ret, _) \<Rightarrow>
           sbind (resolved P (CMethod base m) ret) (\<lambda>actual.
           sbind (sget (method_params base m)) (\<lambda>aps.
             if \<not> same_type actual r then sret False
             else if \<not> list_all2 same_opt (map ptype aps) ps then sret False
             else implements_all P tname rest)))"

definition pointer_implements_iface :: "procs \<Rightarrow> tref \<Rightarrow> string \<Rightarrow> bool tc" where
  "pointer_implements_iface P actual iname =
     (case actual of
        PointerType r False \<Rightarrow>
          sbind (at_tab (\<lambda>T. iface_methods T iname)) (implements_all P (format_type_ref r))
      | _ \<Rightarrow> sret False)"

fun to_nullable :: "tref \<Rightarrow> tref \<Rightarrow> bool" where
  "to_nullable (PointerType a False) (PointerType b True) = same_type a b"
| "to_nullable _ _ = False"

definition is_assignable_type :: "procs \<Rightarrow> tref \<Rightarrow> tref \<Rightarrow> bool tc" where
  "is_assignable_type P actual expected =
     (if same_type actual expected then sret True
      else if named actual ''str'' \<and> named expected ''error'' then sret True
      else
        sbind (sget (\<lambda>s. is_iface_type (tab s) expected)) (\<lambda>iface.
          if iface then pointer_implements_iface P actual (type_key expected)
          else if is_nil_type actual then sret (is_nullable_pointer_type expected)
          else sret (to_nullable actual expected)))"

definition require_type :: "procs \<Rightarrow> tref \<Rightarrow> tref \<Rightarrow> string \<Rightarrow> unit tc" where
  "require_type P actual expected context =
     sbind (is_assignable_type P actual expected) (\<lambda>ok.
       check ok (context @ '': expected '' @ ty expected @ '', got '' @ ty actual))"

definition require_param :: "procs \<Rightarrow> tref \<Rightarrow> tref option \<Rightarrow> string \<Rightarrow> unit tc" where
  "require_param P actual expected context =
     (case expected of
        Some t \<Rightarrow> require_type P actual t context
      | None \<Rightarrow> tfail (context @ '': expected None, got '' @ ty actual))"

definition require_error_type :: "tref \<Rightarrow> string \<Rightarrow> unit tc" where
  "require_error_type actual context =
     check (named_in actual [''error'', ''str'']) (context @ '': expected error, got '' @ ty actual)"

definition merge_value_types :: "procs \<Rightarrow> tref \<Rightarrow> tref \<Rightarrow> string \<Rightarrow> tref tc" where
  "merge_value_types P left right context =
     (if is_never left \<and> is_never right then sret NEVER
      else if is_never left then sret right
      else if is_never right then sret left
      else sdo (require_type P right left context) (sret left))"

subsection \<open>Operators\<close>

text \<open>The type of the parameter is the actual one here; a parameter without a type is not assignable.\<close>

definition require_operand :: "procs \<Rightarrow> tref option \<Rightarrow> tref \<Rightarrow> string \<Rightarrow> unit tc" where
  "require_operand P actual expected context =
     (case actual of
        Some t \<Rightarrow> require_type P t expected context
      | None \<Rightarrow> tfail (context @ '': expected '' @ ty expected @ '', got None''))"

definition validate_operator_method :: "procs \<Rightarrow> tref \<Rightarrow> string \<Rightarrow> tref option tc" where
  "validate_operator_method P t mname =
     sbind (at_tab (\<lambda>T. resolve_method_call T (type_key t) mname)) (\<lambda>v. case v of
         None \<Rightarrow> sret None
       | Some (_, base, ret, ps) \<Rightarrow>
           (case ps of
              [p] \<Rightarrow>
                sdo (require_operand P (ptype p) t (''operator method '' @ base @ ''.'' @ mname @ '' parameter''))
                (sbind (resolved P (CMethod base mname) ret) (\<lambda>r.
                 sdo (require_type P r (if mname \<in> set ORDER_OPERATOR_METHODS then NamedType ''bool'' else t)
                   (''operator method '' @ base @ ''.'' @ mname @ '' return''))
                 (sret (Some r))))
            | _ \<Rightarrow> tfail (''operator method '' @ base @ ''.'' @ mname @ '': expected one parameter'')))"

definition validate_unary_operator_method :: "procs \<Rightarrow> tref \<Rightarrow> string \<Rightarrow> tref option tc" where
  "validate_unary_operator_method P t mname =
     sbind (at_tab (\<lambda>T. resolve_method_call T (type_key t) mname)) (\<lambda>v. case v of
         None \<Rightarrow> sret None
       | Some (_, base, ret, ps) \<Rightarrow>
           if ps \<noteq> [] then tfail (''operator method '' @ base @ ''.'' @ mname @ '': expected no parameters'')
           else
             sbind (resolved P (CMethod base mname) ret) (\<lambda>r.
             sdo (require_type P r t (''operator method '' @ base @ ''.'' @ mname @ '' return''))
             (sret (Some r))))"

definition is_struct_type :: "tcs \<Rightarrow> tref \<Rightarrow> bool" where
  "is_struct_type s t \<longleftrightarrow> has_key (structs (tab s)) (type_key t)"

definition is_pointerish :: "tref \<Rightarrow> bool" where
  "is_pointerish t \<longleftrightarrow> is_pointer_type t \<or> is_nullable_pointer_type t"

text \<open>The method an operator on two values of one struct stands for, when there is one.\<close>

definition overload :: "procs \<Rightarrow> tref \<Rightarrow> tref \<Rightarrow> string \<Rightarrow> tref option tc" where
  "overload P lt rt mname =
     sbind (sget (\<lambda>s. is_struct_type s lt)) (\<lambda>st.
       if st \<and> same_type rt lt then validate_operator_method P lt mname else sret None)"

definition operator_method :: "string \<Rightarrow> string" where
  "operator_method opr = (case map_of OPERATOR_METHODS opr of Some m \<Rightarrow> m | None \<Rightarrow> [])"

definition overload_or_fail :: "procs \<Rightarrow> string \<Rightarrow> string \<Rightarrow> tref \<Rightarrow> tref \<Rightarrow> tref tc" where
  "overload_or_fail P opr operands lt rt =
     sbind (overload P lt rt (operator_method opr)) (\<lambda>v. case v of
         Some r \<Rightarrow> sret r
       | None \<Rightarrow> tfail (''binary operator '' @ opr @ '': expected '' @ operands @ '' operands, got ''
           @ ty lt @ '' and '' @ ty rt))"

definition equality_type :: "procs \<Rightarrow> tref \<Rightarrow> tref \<Rightarrow> tref tc" where
  "equality_type P lt rt =
     (if is_nil_type lt \<or> is_nil_type rt then
        (let other = (if is_nil_type lt then rt else lt) in
         sdo (check (is_nullable_pointer_type other) (''nil comparison requires nullable pointer, got '' @ ty other))
           (sret (NamedType ''bool'')))
      else
        sdo (require_type P rt lt ''comparison'')
        (sdo (at_tab (\<lambda>T. require_comparable T lt)) (sret (NamedType ''bool''))))"

definition order_type :: "procs \<Rightarrow> string \<Rightarrow> tref \<Rightarrow> tref \<Rightarrow> tref tc" where
  "order_type P opr lt rt =
     (if is_rune_type lt \<or> is_rune_type rt then tfail (''rune type: operator '' @ opr @ '' is not allowed'')
      else if is_pointerish lt \<or> is_pointerish rt
      then tfail (''pointer type '' @ ty lt @ '': operator '' @ opr @ '' is not allowed'')
      else if named lt ''str'' \<or> named rt ''str''
      then sdo (require_type P rt lt ''comparison'') (sret (NamedType ''bool''))
      else if \<not> (is_numeric_type lt \<and> is_numeric_type rt) then
        sbind (overload P lt rt ''__lt__'') (\<lambda>v. case v of
            Some _ \<Rightarrow> sret (NamedType ''bool'')
          | None \<Rightarrow> tfail (''comparison: expected numeric operands, got '' @ ty lt @ '' and '' @ ty rt))
      else sdo (require_type P rt lt ''comparison'') (sret (NamedType ''bool'')))"

definition binary_type :: "procs \<Rightarrow> string \<Rightarrow> tref \<Rightarrow> tref \<Rightarrow> tref tc" where
  "binary_type P opr lt rt =
     (if opr \<in> set [''&&'', ''||''] then
        sdo (require_type P lt (NamedType ''bool'') (''logical operator '' @ opr))
        (sdo (require_type P rt (NamedType ''bool'') (''logical operator '' @ opr)) (sret (NamedType ''bool'')))
      else if opr = ''+'' \<and> named lt ''str'' then
        sdo (require_type P rt (NamedType ''str'') ''string concatenation'') (sret (NamedType ''str''))
      else if opr \<in> set [''=='', ''!=''] then equality_type P lt rt
      else if opr \<in> set [''<'', ''>'', ''<='', ''>=''] then order_type P opr lt rt
      else if is_pointerish lt \<or> is_pointerish rt
      then tfail (''pointer type '' @ ty lt @ '': operator '' @ opr @ '' is not allowed'')
      else if is_rune_type lt \<or> is_rune_type rt then tfail (''rune type: operator '' @ opr @ '' is not allowed'')
      else if opr \<in> set [''+'', ''-'', ''*'', ''/''] \<and> \<not> (is_numeric_type lt \<and> is_numeric_type rt)
      then overload_or_fail P opr ''numeric'' lt rt
      else if opr = ''%'' \<and> \<not> (is_integer_type lt \<and> is_integer_type rt)
      then overload_or_fail P opr ''integer'' lt rt
      else if opr \<in> set [''&'', ''|'', ''^'', ''<<'', ''>>''] \<and> \<not> (is_integer_type lt \<and> is_integer_type rt)
      then tfail (''binary operator '' @ opr @ '': expected integer operands, got '' @ ty lt @ '' and '' @ ty rt)
      else sdo (require_type P rt lt (''binary operator '' @ opr)) (sret lt))"

definition walk_binary :: "procs \<Rightarrow> node \<Rightarrow> string \<Rightarrow> node \<Rightarrow> (tref \<times> tref \<times> tref) tc" where
  "walk_binary P l opr r =
     sbind (expr P l) (\<lambda>lt. sbind (expr P r) (\<lambda>rt. sbind (binary_type P opr lt rt) (\<lambda>t. sret (lt, rt, t))))"

definition walk_unary :: "procs \<Rightarrow> string \<Rightarrow> node \<Rightarrow> tref tc" where
  "walk_unary P opr e =
     sbind (expr P e) (\<lambda>t.
       if opr = ''!'' then sdo (require_type P t (NamedType ''bool'') ''logical not'') (sret (NamedType ''bool''))
       else if opr = ''~'' then
         sdo (check (is_integer_type t) (''unary operator ~: expected integer operand, got '' @ ty t)) (sret t)
       else if opr = ''-'' then
         sbind (sget (\<lambda>s. is_struct_type s t)) (\<lambda>st.
         sbind (if st then validate_unary_operator_method P t ''__neg__'' else sret None) (\<lambda>v. case v of
             Some r \<Rightarrow> sret r
           | None \<Rightarrow>
               sdo (check (is_numeric_type t) (''unary operator -: expected numeric operand, got '' @ ty t)) (sret t)))
       else sret t)"

text \<open>The operator of an assignment \<open>target op= expr\<close>, on the types of both.\<close>

definition compound_overload :: "procs \<Rightarrow> string \<Rightarrow> string \<Rightarrow> tref \<Rightarrow> tref \<Rightarrow> unit tc" where
  "compound_overload P opr operands tt et =
     sbind (overload_or_fail P opr operands tt et) (\<lambda>r. require_type P r tt (''binary operator '' @ opr))"

definition compound_check :: "procs \<Rightarrow> string \<Rightarrow> tref \<Rightarrow> tref \<Rightarrow> unit tc" where
  "compound_check P opr tt et =
     (let plain = require_type P et tt (''binary operator '' @ opr) in
      if opr \<in> set [''&'', ''|'', ''^'', ''<<'', ''>>''] then
        sdo (check (is_integer_type tt \<and> is_integer_type et)
          (''binary operator '' @ opr @ '': expected integer operands, got '' @ ty tt @ '' and '' @ ty et)) plain
      else if opr = ''%'' then
        (if is_integer_type tt \<and> is_integer_type et then plain else compound_overload P opr ''integer'' tt et)
      else if opr = ''+'' \<and> named tt ''str'' then
        sdo (require_type P et (NamedType ''str'') ''string concatenation'') plain
      else if opr \<in> set [''+'', ''-'', ''*'', ''/''] then
        (if is_numeric_type tt \<and> is_numeric_type et then plain else compound_overload P opr ''numeric'' tt et)
      else tfail (''unsupported assignment operator '' @ opr @ ''=''))"

subsection \<open>Default arguments\<close>

definition replacements :: "node param list \<Rightarrow> (node \<times> tref) list \<Rightarrow> (string \<times> node) list" where
  "replacements ps args = rev (zip (map pname ps) (map fst args))"

definition default_arg ::
  "procs \<Rightarrow> node param list \<Rightarrow> string \<Rightarrow> node param \<Rightarrow> (node \<times> tref) list \<Rightarrow> (node \<times> tref) list tc" where
  "default_arg P ps context p args =
     (case pdefault p of
        None \<Rightarrow> tfail (context @ '': missing argument '' @ pname p)
      | Some d \<Rightarrow>
          let d' = clone_default_expr (replacements ps args) d in
          sdo (slift (validate_default_expr_shape (pname p) d'))
          (sbind (as_default (expr P d')) (\<lambda>t.
           sbind (case ptype p of
               Some pt \<Rightarrow> sret pt
             | None \<Rightarrow>
                 sdo (check (\<not> untyped_default t)
                   (''default parameter '' @ pname p @ '': cannot infer type from '' @ ty t))
                 (sdo (smod (set_param_type p t)) (sret t))) (\<lambda>pt.
           sdo (sbind (slift (require_concrete_param_type (Param (pname p) (Some pt) (Some d)) context)) (\<lambda>_. sret ()))
           (sdo (require_type P t pt (''default argument '' @ pname p @ '' to '' @ context))
           (sret (args @ [(d', t)])))))))"

definition apply_default_args ::
  "procs \<Rightarrow> (node \<times> tref) list \<Rightarrow> node param list \<Rightarrow> string \<Rightarrow> (node \<times> tref) list tc" where
  "apply_default_args P args ps context =
     (if length args < required_param_count ps \<or> length ps < length args
      then tfail (context @ '': expected '' @ show_nat (required_param_count ps) @ '' to '' @ show_nat (length ps)
        @ '' args, got '' @ show_nat (length args))
      else sfold (default_arg P ps context) (drop (length args) ps) args)"

text \<open>The arguments against the types the parameters have now; \<open>raw\<close> takes any argument of an erased call.\<close>

definition check_args :: "procs \<Rightarrow> bool \<Rightarrow> string \<Rightarrow> (node \<times> tref) list \<Rightarrow> node param list \<Rightarrow> unit tc" where
  "check_args P erased context args ps =
     seach (\<lambda>((_, t), p).
       if erased \<and> (case ptype p of None \<Rightarrow> False | Some pt \<Rightarrow> named pt ''raw'') then sret ()
       else require_param P t (ptype p) (''argument '' @ pname p @ '' to '' @ context)) (zip args ps)"

text \<open>Arguments against types only: a closure, a method of an interface.\<close>

definition check_positional :: "procs \<Rightarrow> string \<Rightarrow> tref list \<Rightarrow> tref option list \<Rightarrow> unit tc" where
  "check_positional P context ts pts =
     sdo (slift (require_arg_count ts (length pts) context))
     (seach (\<lambda>(i, t, pt). require_param P t pt (''argument '' @ show_nat (Suc i) @ '' to '' @ context))
       (zip [0..<length ts] (zip ts pts)))"

subsection \<open>Names and calls\<close>

definition current_fallible :: "callable_ref \<Rightarrow> tcs \<Rightarrow> bool" where
  "current_fallible c s \<longleftrightarrow> decl_of c s \<noteq> None \<and> c \<in> set (fallible_fns s)"

definition is_function_symbol :: "string \<Rightarrow> symbol \<Rightarrow> tcs \<Rightarrow> bool" where
  "is_function_symbol x sy s \<longleftrightarrow> sym_level sy = 0 \<and> has_key (fun_sigs (tab s)) x"

text \<open>A function as a value: \<open>what\<close> names the form in the messages.\<close>

definition function_value :: "procs \<Rightarrow> string \<Rightarrow> string \<Rightarrow> tref tc" where
  "function_value P what x =
     sbind (sget (\<lambda>s. map_of (fun_sigs (tab s)) x)) (\<lambda>sig. case sig of
         None \<Rightarrow> tfail (what @ '' '' @ x @ '': function not found'')
       | Some (ret, _) \<Rightarrow>
           sbind (resolved P (CFunction x) ret) (\<lambda>r.
           sbind (sget (current_fallible (CFunction x))) (\<lambda>fallible.
           sdo (check (\<not> fallible)
             (what @ '' '' @ x @ '': fallible functions cannot be used as function values''))
           (sbind (sget (fun_params x)) (\<lambda>ps. sbind (slift (opt_types ps)) (\<lambda>pts. sret (fn_type pts r)))))))"

definition captures :: "string \<Rightarrow> symbol \<Rightarrow> tcs \<Rightarrow> bool" where
  "captures x sy s \<longleftrightarrow>
     (case closures s of
        [] \<Rightarrow> False
      | (lvl, _) # _ \<Rightarrow>
          \<not> is_function_symbol x sy s \<and> sym_level sy < lvl \<and> \<not> sym_is ''struct'' sy \<and> \<not> sym_is ''enum'' sy)"

definition add_capture :: "string \<Rightarrow> tref \<Rightarrow> tcs \<Rightarrow> tcs" where
  "add_capture x t s =
     (case closures s of
        [] \<Rightarrow> s
      | (lvl, caps) # rest \<Rightarrow>
          if has_key caps x then s else s\<lparr>closures := (lvl, dict_set x t caps) # rest\<rparr>)"

definition walk_identifier :: "procs \<Rightarrow> string \<Rightarrow> tref tc" where
  "walk_identifier P x =
     sbind (at_tab (lookup x)) (\<lambda>sy.
     sbind (sget (is_function_symbol x sy)) (\<lambda>fn.
       if fn then
         sbind (sget (\<lambda>s. map_of (fns s) x)) (\<lambda>d. case d of
             None \<Rightarrow> tfail (''function value '' @ x @ '': extern functions cannot be used as function values'')
           | Some d \<Rightarrow>
               sdo (check (type_params d = [])
                 (''function value '' @ x @ '': generic functions require explicit type arguments''))
               (function_value P ''function value'' x))
       else
         (case sym_type sy of
            None \<Rightarrow> slift (Inl AttributeError)
          | Some st \<Rightarrow>
              sbind (sget (\<lambda>s. map_of (narrowed s) x)) (\<lambda>nar.
              sbind (sget (captures x sy)) (\<lambda>cap.
              sdo (swhen cap (smod (add_capture x st)))
              (sret (case nar of Some t \<Rightarrow> t | None \<Rightarrow> st)))))))"

text \<open>The result of an erased call whose template returns one of its type parameters.\<close>

definition index_of :: "string \<Rightarrow> string list \<Rightarrow> nat" where
  "index_of x xs = length (takeWhile (\<lambda>y. y \<noteq> x) xs)"

definition erased_result :: "cenv \<Rightarrow> tcs \<Rightarrow> node \<Rightarrow> string \<Rightarrow> tref \<Rightarrow> tref" where
  "erased_result E s n x ret =
     (case (erased_args E n, erased_template E x) of
        (Some targs, Some tmpl) \<Rightarrow>
          if targs \<noteq> [] \<and> named ret ''raw'' \<and> has_key (fns s) x \<and> opt_named_in (decl_return tmpl) (type_params tmpl)
          then
            (case decl_return tmpl of
               Some r \<Rightarrow>
                 let i = index_of (type_key r) (type_params tmpl)
                 in if i < length targs then targs ! i else ret
             | None \<Rightarrow> ret)
          else ret
      | _ \<Rightarrow> ret)"

text \<open>
  A call of a function of the table. The types of the parameters are read after the call of
  \<open>resolve_function_return\<close>, and again after the defaults were typed.
\<close>

definition call_params :: "bool \<Rightarrow> string \<Rightarrow> tcs \<Rightarrow> node param list" where
  "call_params erased x s =
     (case fun_params x s of
        p # ps \<Rightarrow>
          if erased \<and> (case ptype p of None \<Rightarrow> False | Some t \<Rightarrow> named t ''raw'') then ps else p # ps
      | [] \<Rightarrow> [])"

definition require_handled :: "string \<Rightarrow> bool \<Rightarrow> unit tc" where
  "require_handled what fallible =
     sbind (sget fallible_depth) (\<lambda>d.
       check (\<not> (fallible \<and> d = 0))
         (''fallible call '' @ what @ '' must be handled with ??, !!, err?, match?, or try''))"

definition walk_declared_call ::
  "cenv \<Rightarrow> procs \<Rightarrow> node \<Rightarrow> string \<Rightarrow> (node \<times> tref) list \<Rightarrow> tref option \<Rightarrow> (tref \<times> bool) tc" where
  "walk_declared_call E P n x args ret =
     (let erased = (erased_args E n \<noteq> None) in
      sbind (resolved P (CFunction x) ret) (\<lambda>r.
      sbind (sget (call_params erased x)) (\<lambda>ps.
      sbind (apply_default_args P args ps x) (\<lambda>args.
      sbind (sget (call_params erased x)) (\<lambda>ps.
      sdo (check_args P erased x args ps)
      (sbind (sget (current_fallible (CFunction x))) (\<lambda>fallible.
       sdo (require_handled x fallible)
       (sbind (sget (\<lambda>s. erased_result E s n x r)) (\<lambda>t. sret (t, fallible)))))))))) "

definition walk_closure_call :: "procs \<Rightarrow> string \<Rightarrow> tref list \<Rightarrow> (tref \<times> bool) tc" where
  "walk_closure_call P x ts =
     sbind (sget (\<lambda>s. lookup x (tab s))) (\<lambda>v. case v of
         Inl _ \<Rightarrow> tfail (''Function '' @ x @ '' not found'')
       | Inr sy \<Rightarrow>
           (case sym_type sy of
              Some (FunctionType pts r fallible) \<Rightarrow>
                if fallible then tfail ''fallible function values are not supported in v1''
                else sdo (check_positional P x ts (map Some pts)) (sret (r, False))
            | _ \<Rightarrow> tfail (''Function '' @ x @ '' not found'')))"

definition walk_function_call :: "cenv \<Rightarrow> procs \<Rightarrow> node \<Rightarrow> string \<Rightarrow> node list \<Rightarrow> (tref \<times> bool) tc" where
  "walk_function_call E P n x as =
     sdo (require_public None x)
     (sbind (smap (\<lambda>a. outside_fallible_op (expr P a)) as) (\<lambda>ts.
      sdo (check (x \<noteq> ''__nc_bytes_alloc'' \<or> trusted_node E n)
        ''__nc_bytes_alloc is only available to trusted stdlib'')
      (sbind (infer_builtin_call (require_type P) x ts) (\<lambda>bt. case bt of
           Some t \<Rightarrow> sret (t, False)
         | None \<Rightarrow>
             sbind (sget (\<lambda>s. map_of (fun_sigs (tab s)) x)) (\<lambda>sig. case sig of
                 Some (ret, _) \<Rightarrow> walk_declared_call E P n x (zip as ts) ret
               | None \<Rightarrow> walk_closure_call P x ts)))))"

text \<open>The arguments of \<open>map[...]\<close>, however many there are.\<close>

definition map_type_args :: "tref \<Rightarrow> tref list option" where
  "map_type_args t =
     (case t of GenericType (NamedType b) as \<Rightarrow> if b = ''map'' then Some as else None | _ \<Rightarrow> None)"

definition struct_key :: "tref \<Rightarrow> string" where
  "struct_key t = (case t of PointerType r False \<Rightarrow> type_key r | _ \<Rightarrow> type_key t)"

definition walk_map_method :: "procs \<Rightarrow> tref \<Rightarrow> string \<Rightarrow> tref list \<Rightarrow> tref list \<Rightarrow> (tref \<times> bool) tc" where
  "walk_map_method P ot m margs ts =
     (if m \<noteq> ''has'' then tfail (ty ot @ '': method '' @ m @ '' not found'')
      else
        sdo (slift (require_arg_count ts 1 ''method has''))
        (case margs of
           [k, _] \<Rightarrow> sdo (require_type P (ts ! 0) k ''argument 1 to method has'') (sret (NamedType ''i32'', False))
         | _ \<Rightarrow> slift (Inl ValueError)))"

definition walk_iface_method :: "procs \<Rightarrow> tref \<Rightarrow> string \<Rightarrow> tref list \<Rightarrow> (tref \<times> bool) tc" where
  "walk_iface_method P ot m ts =
     sbind (at_tab (\<lambda>T. iface_methods T (type_key ot))) (\<lambda>ms. case map_of ms m of
         None \<Rightarrow> tfail (ty ot @ '': method '' @ m @ '' not found'')
       | Some (pts, r) \<Rightarrow> sdo (check_positional P (''method '' @ m) ts pts) (sret (r, False)))"

definition walk_struct_method :: "procs \<Rightarrow> tref \<Rightarrow> string \<Rightarrow> (node \<times> tref) list \<Rightarrow> (tref \<times> bool) tc" where
  "walk_struct_method P ot m args =
     sbind (at_tab (\<lambda>T. resolve_method_call T (struct_key ot) m)) (\<lambda>v. case v of
         None \<Rightarrow> tfail (struct_key ot @ '': method '' @ m @ '' not found'')
       | Some (_, base, ret, _) \<Rightarrow>
           sbind (resolved P (CMethod base m) ret) (\<lambda>r.
           sbind (sget (method_params base m)) (\<lambda>ps.
           sbind (apply_default_args P args ps (''method '' @ m)) (\<lambda>args.
           sbind (sget (method_params base m)) (\<lambda>ps.
           sdo (check_args P False (''method '' @ m) args ps)
           (sbind (sget (current_fallible (CMethod base m))) (\<lambda>fallible.
            sdo (require_handled (base @ ''.'' @ m) fallible) (sret (r, fallible)))))))))"

definition walk_method_call :: "procs \<Rightarrow> node \<Rightarrow> string \<Rightarrow> node list \<Rightarrow> (tref \<times> bool) tc" where
  "walk_method_call P obj m as =
     sbind (outside_fallible_op (expr P obj)) (\<lambda>ot.
     sbind (smap (\<lambda>a. outside_fallible_op (expr P a)) as) (\<lambda>ts.
       if named ot ''str'' \<and> m = ''c_str'' then
         sdo (slift (require_arg_count ts 0 ''method c_str'')) (sret (PointerType (NamedType ''i8'') False, False))
       else
         (case map_type_args ot of
            Some margs \<Rightarrow> walk_map_method P ot m margs ts
          | None \<Rightarrow>
              if is_nullable_pointer_type ot
              then tfail (''nullable pointer type '' @ ty ot @ '': method call requires if p != nil narrowing'')
              else
                sbind (sget (\<lambda>s. is_iface_type (tab s) ot)) (\<lambda>iface.
                  if iface then walk_iface_method P ot m ts
                  else walk_struct_method P ot m (zip as ts)))))"

subsection \<open>Blocks, branches and patterns\<close>

definition infer_block_value :: "procs \<Rightarrow> (string \<times> tref) option \<Rightarrow> node list \<Rightarrow> tref tc" where
  "infer_block_value P nar stmts =
     scoped (narrowing nar
       (case block_tail_expr stmts of
          None \<Rightarrow>
            sbind (w_stmts P False stmts) (\<lambda>_.
              sret (if ends_with_return stmts then NEVER else NamedType ''void''))
        | Some tail \<Rightarrow>
            sbind (w_stmts P False (butlast stmts)) (\<lambda>_.
            sbind (expr P tail) (\<lambda>t. sret (or_void (tail_expr_type tail t))))))"

text \<open>The condition of an \<open>if\<close>, with what it says about a nullable pointer.\<close>

definition walk_condition :: "procs \<Rightarrow> node \<Rightarrow> (tref \<times> (string \<times> tref) option) tc" where
  "walk_condition P c =
     (case c of
        BinaryOp l opr r \<Rightarrow>
          sbind (walk_binary P l opr r) (\<lambda>(lt, rt, t). sret (t, maybe_narrow_condition l opr r lt rt))
      | _ \<Rightarrow> sbind (expr P c) (\<lambda>t. sret (t, None)))"

definition walk_if :: "procs \<Rightarrow> node \<Rightarrow> node block \<Rightarrow> node block option \<Rightarrow> tref tc" where
  "walk_if P c then_block else_block =
     sbind (walk_condition P c) (\<lambda>(ct, nar).
     sdo (require_type P ct (NamedType ''bool'') ''if condition'')
     (sbind (infer_block_value P nar (statements then_block)) (\<lambda>tt.
      sbind (case else_block of
          None \<Rightarrow> sret (NamedType ''void'')
        | Some b \<Rightarrow> infer_block_value P None (statements b)) (\<lambda>et.
      merge_value_types P tt et ''if expression branches''))))"

text \<open>What the loop over the arms has seen: \<open>else\<close>, the patterns, the variants, the type so far.\<close>

record arms_seen =
  seen_else :: bool
  seen_patterns :: "pattern_key list"
  seen_variants :: "string list"
  result_type :: "tref option"

definition else_arm :: "string \<Rightarrow> bool \<Rightarrow> arms_seen \<Rightarrow> arms_seen tc" where
  "else_arm what is_last acc =
     sdo (check is_last (what @ '': else must be the last arm'')) (sret (acc\<lparr>seen_else := True\<rparr>))"

definition new_pattern :: "string \<Rightarrow> node \<Rightarrow> arms_seen \<Rightarrow> arms_seen tc" where
  "new_pattern what p acc =
     sbind (slift (match_pattern_key p)) (\<lambda>k.
     sdo (check (k \<notin> set (seen_patterns acc)) (what @ '': duplicate pattern''))
     (sret (acc\<lparr>seen_patterns := k # seen_patterns acc, seen_variants := pattern_variant p @ seen_variants acc\<rparr>)))"

definition match_pattern :: "procs \<Rightarrow> tref \<Rightarrow> node \<Rightarrow> arms_seen \<Rightarrow> arms_seen tc" where
  "match_pattern P st p acc =
     sbind (expr P p) (\<lambda>pt.
     sdo (if named st ''error'' then
            sdo (check (is_string_literal p) (''match error pattern: expected str literal, got '' @ ty pt))
              (require_type P pt (NamedType ''str'') ''match error pattern'')
          else
            sbind (slift (match_pattern_key p)) (\<lambda>_. require_type P pt st ''match pattern''))
     (new_pattern ''match expression'' p acc))"

definition arm_body :: "procs \<Rightarrow> string \<Rightarrow> node \<Rightarrow> arms_seen \<Rightarrow> arms_seen tc" where
  "arm_body P context b acc =
     sbind (expr P b) (\<lambda>bt.
     sbind (case result_type acc of None \<Rightarrow> sret bt | Some r \<Rightarrow> merge_value_types P r bt context) (\<lambda>r.
     sret (acc\<lparr>result_type := Some r\<rparr>)))"

fun match_arms ::
  "string \<Rightarrow> (node \<Rightarrow> arms_seen \<Rightarrow> arms_seen tc) \<Rightarrow> (node \<Rightarrow> arms_seen \<Rightarrow> arms_seen tc) \<Rightarrow>
    (node option \<times> node) list \<Rightarrow> arms_seen \<Rightarrow> arms_seen tc" where
  "match_arms what pattern body [] acc = sret acc"
| "match_arms what pattern body ((p, b) # rest) acc =
     sdo (check (\<not> seen_else acc) (what @ '': else must be the last arm''))
     (sbind (case p of None \<Rightarrow> else_arm what (rest = []) acc | Some q \<Rightarrow> pattern q acc) (\<lambda>acc.
      sbind (body b acc) (match_arms what pattern body rest)))"

definition no_arms :: "tref option \<Rightarrow> arms_seen" where
  "no_arms r = \<lparr>seen_else = False, seen_patterns = [], seen_variants = [], result_type = r\<rparr>"

definition scrutinee_variants :: "tref \<Rightarrow> symtab \<Rightarrow> string list option" where
  "scrutinee_variants st T =
     (case lookup (type_key st) T of
        Inl _ \<Rightarrow> None
      | Inr sy \<Rightarrow>
          if sym_is ''enum'' sy then (case lookup_enum (type_key st) T of Inl _ \<Rightarrow> None | Inr vs \<Rightarrow> Some vs)
          else None)"

definition check_exhaustive :: "tref \<Rightarrow> string list option \<Rightarrow> arms_seen \<Rightarrow> unit tc" where
  "check_exhaustive st variants acc =
     (if seen_else acc then sret ()
      else if named st ''error'' then tfail ''match expression: error match requires else''
      else
        (case variants of
           None \<Rightarrow> tfail ''match expression: non-enum match requires else''
         | Some vs \<Rightarrow>
             let missing = filter (\<lambda>v. v \<notin> set (seen_variants acc)) vs in
             check (missing = []) (''match expression: missing enum variants '' @ join '', '' (sort missing))))"

definition infer_match_value :: "procs \<Rightarrow> node \<Rightarrow> (node option \<times> node) list \<Rightarrow> tref tc" where
  "infer_match_value P scrutinee arms =
     sbind (expr P scrutinee) (\<lambda>st.
     sdo (check (arms \<noteq> []) ''match expression: expected at least one arm'')
     (sbind (sget (\<lambda>s. if named st ''error'' then None else scrutinee_variants st (tab s))) (\<lambda>variants.
      sbind (match_arms ''match expression'' (match_pattern P st) (arm_body P ''match expression arms'') arms
        (no_arms None)) (\<lambda>acc.
      sdo (check_exhaustive st variants acc) (sret (or_void (result_type acc)))))))"

subsection \<open>Errors\<close>

definition walk_fallible_expr :: "procs \<Rightarrow> node \<Rightarrow> string \<Rightarrow> tref tc" where
  "walk_fallible_expr P e context =
     sbind (in_fallible_op (w_expr P e)) (\<lambda>(t, fallible).
     sdo (check fallible (context @ '' requires a fallible call'')) (sret t))"

fun is_call :: "node \<Rightarrow> bool" where
  "is_call (FunctionCall _ _ _ _) = True"
| "is_call (MethodCall _ _ _ _) = True"
| "is_call _ = False"

definition walk_fallible_call_for_try :: "procs \<Rightarrow> node \<Rightarrow> tref tc" where
  "walk_fallible_call_for_try P call =
     sdo (check (is_call call) (''try requires a fallible function or method call, got '' @ node_class call))
     (sbind (in_fallible_op (w_expr P call)) (\<lambda>(t, fallible).
      sdo (check fallible ''try requires a fallible call'') (sret t)))"

definition walk_fallible_op :: "procs \<Rightarrow> node \<Rightarrow> string \<Rightarrow> tref tc" where
  "walk_fallible_op P e opr =
     sbind (sget defer_depth) (\<lambda>d.
     sdo (check (\<not> (opr = ''??'' \<and> 0 < d)) ''defer cannot propagate fallible calls with ??'')
     (sbind (walk_fallible_expr P e opr) (\<lambda>t.
      sdo (if opr = ''??'' then mark_current_fallible
           else check (opr = ''!!'') (''unknown fallible operator '' @ opr))
      (sret t))))"

definition walk_error_handler :: "procs \<Rightarrow> node \<Rightarrow> string \<Rightarrow> node block \<Rightarrow> tref tc" where
  "walk_error_handler P e x handler =
     sbind (walk_fallible_expr P e ''err?'') (\<lambda>t.
     sbind (scoped (sdo (declare_var x (Some (NamedType ''error''))) (infer_block_value P None (statements handler)))) (\<lambda>ht.
     merge_value_types P t ht ''err? handler''))"

definition error_pattern :: "procs \<Rightarrow> node \<Rightarrow> arms_seen \<Rightarrow> arms_seen tc" where
  "error_pattern P p acc =
     sbind (expr P p) (\<lambda>pt.
     sdo (check (is_string_literal p) (''match? pattern: expected str literal, got '' @ ty pt))
     (sdo (require_type P pt (NamedType ''str'') ''match? pattern'') (new_pattern ''match? expression'' p acc)))"

definition walk_error_match :: "procs \<Rightarrow> node \<Rightarrow> string \<Rightarrow> (node option \<times> node) list \<Rightarrow> tref tc" where
  "walk_error_match P e x arms =
     sbind (walk_fallible_expr P e ''match?'') (\<lambda>t.
     sdo (check (arms \<noteq> []) ''match? expression: expected at least one arm'')
     (sbind (scoped (sdo (declare_var x (Some (NamedType ''error'')))
        (match_arms ''match? expression'' (error_pattern P) (arm_body P ''match? arms'') arms (no_arms (Some t))))) (\<lambda>acc.
      sdo (check (seen_else acc) ''match? expression requires else'') (sret (or_void (result_type acc))))))"

definition walk_return :: "procs \<Rightarrow> node option \<Rightarrow> unit tc" where
  "walk_return P e =
     (case e of
        Some e \<Rightarrow>
          sbind (expr P e) (\<lambda>t.
          sbind (sget cur_ret) (\<lambda>r. case r of
              None \<Rightarrow> smod (ret_values_update (\<lambda>ts. ts @ [t]))
            | Some r \<Rightarrow> require_type P t r ''ret''))
      | None \<Rightarrow>
          sbind (sget cur_ret) (\<lambda>r. case r of
              None \<Rightarrow> smod (ret_void_update (\<lambda>_. True))
            | Some r \<Rightarrow> check (named r ''void'') (''ret: expected '' @ ty r @ '', got void'')))"

definition walk_err_return :: "procs \<Rightarrow> node \<Rightarrow> unit tc" where
  "walk_err_return P e =
     sbind (sget defer_depth) (\<lambda>d.
     sdo (check (d = 0) ''defer cannot return errors'')
     (sbind (expr P e) (\<lambda>t. sdo (require_error_type t ''err'') mark_current_fallible)))"

subsection \<open>Literals, fields and elements\<close>

definition walk_magic :: "string \<Rightarrow> tref tc" where
  "walk_magic x =
     (if x \<in> set [''__FILE__'', ''__FUNC__'', ''__MODULE__''] then
        sbind (sget callable) (\<lambda>c.
        sdo (check (\<not> (x = ''__FUNC__'' \<and> c = None)) ''__FUNC__ is only available inside functions'')
        (sret (NamedType ''str'')))
      else if x \<in> set [''__LINE__'', ''__COL__''] then sret (NamedType ''i32'')
      else tfail (''unknown magic constant '' @ x))"

definition walk_interpolated :: "procs \<Rightarrow> node list \<Rightarrow> tref tc" where
  "walk_interpolated P ps =
     sdo (seach (\<lambda>p. sbind (expr P p) (\<lambda>t.
         check (named_in t STRINGIFIABLE_TYPES) (''string interpolation: cannot convert '' @ ty t @ '' to str''))) ps)
     (sret (NamedType ''str''))"

definition walk_enum_ref :: "string \<Rightarrow> string \<Rightarrow> tref tc" where
  "walk_enum_ref e v =
     sdo (require_public None e)
     (sbind (at_tab (lookup e)) (\<lambda>_.
      sbind (at_tab (lookup_enum e)) (\<lambda>vs.
      sdo (check (v \<in> set vs) (''enum '' @ e @ '': unknown variant '' @ v)) (sret (NamedType e)))))"

text \<open>A field of a struct literal with its type, after the fields \<open>seen\<close>.\<close>

definition literal_field ::
  "procs \<Rightarrow> string \<Rightarrow> (string \<times> tref) list \<Rightarrow> string \<times> tref \<Rightarrow> string list \<Rightarrow> string list tc" where
  "literal_field P x d ft seen =
     sdo (check (fst ft \<notin> set seen) (''struct '' @ x @ '': duplicate field '' @ fst ft))
     (case map_of d (fst ft) of
        None \<Rightarrow> tfail (''struct '' @ x @ '': unknown field '' @ fst ft)
      | Some t \<Rightarrow>
          sdo (require_type P (snd ft) t (''struct '' @ x @ ''.'' @ fst ft)) (sret (fst ft # seen)))"

definition walk_struct_literal :: "procs \<Rightarrow> string \<Rightarrow> (string \<times> node) list \<Rightarrow> bool \<Rightarrow> tref tc" where
  "walk_struct_literal P x fs heap =
     sdo (require_public None x)
     (sbind (smap (\<lambda>(f, v). sbind (expr P v) (\<lambda>t. sret (f, t))) fs) (\<lambda>fts.
      sbind (at_tab (lookup_struct x)) (\<lambda>d.
      sbind (sfold (literal_field P x d) fts []) (\<lambda>seen.
      sdo (seach (\<lambda>(f, _). check (f \<in> set seen) (''struct '' @ x @ '': missing field '' @ f)) d)
      (sret (if heap then PointerType (NamedType x) False else NamedType x))))))"

definition walk_struct_field :: "tref \<Rightarrow> string \<Rightarrow> tref tc" where
  "walk_struct_field ot f =
     sbind (at_tab (lookup_struct (struct_key ot))) (\<lambda>d. case map_of d f of
         Some t \<Rightarrow> sret t
       | None \<Rightarrow>
           sbind (at_tab (\<lambda>T. promoted_field (embed_fuel T) T (struct_key ot) f [])) (\<lambda>m. case m of
               Some (_, t) \<Rightarrow> sret t
             | None \<Rightarrow> tfail (struct_key ot @ '': unknown field '' @ f)))"

definition walk_field_access :: "cenv \<Rightarrow> procs \<Rightarrow> node \<Rightarrow> node \<Rightarrow> string \<Rightarrow> tref tc" where
  "walk_field_access E P n obj f =
     sbind (expr P obj) (\<lambda>ot.
       let unknown = tfail (ty ot @ '': unknown field '' @ f); u64 = NamedType ''u64'' in
       if is_nullable_pointer_type ot
       then tfail (''nullable pointer type '' @ ty ot @ '': field access requires if p != nil narrowing'')
       else if named ot ''str'' then
         (if trusted_node E n \<and> f = ''ptr'' then sret (PointerType (NamedType ''i8'') True)
          else if trusted_node E n \<and> f = ''len'' then sret u64
          else unknown)
       else if as_slice_type ot \<noteq> None \<and> trusted_node E n then
         (case as_slice_type ot of
            Some elem \<Rightarrow>
              if f = ''ptr'' then sret (PointerType elem True)
              else if f \<in> set [''len'', ''cap''] then sret u64
              else unknown
          | None \<Rightarrow> unknown)
       else walk_struct_field ot f)"

text \<open>
  The type of an array or slice literal is read back from a text with the user's form of the element
  type in it.
\<close>

definition array_literal_type :: "nat \<Rightarrow> tref \<Rightarrow> tref res" where
  "array_literal_type k elem = parse_type_ref (''['' @ show_nat k @ '']'' @ ty elem)"

definition slice_literal_type :: "tref \<Rightarrow> tref res" where
  "slice_literal_type elem = parse_type_ref (''[]'' @ ty elem)"

definition walk_elements :: "procs \<Rightarrow> string \<Rightarrow> tref \<Rightarrow> node list \<Rightarrow> unit tc" where
  "walk_elements P what elem es = seach (\<lambda>e. sbind (expr P e) (\<lambda>t. require_type P t elem what)) es"

definition walk_array_literal :: "procs \<Rightarrow> nat \<Rightarrow> tref \<Rightarrow> node list \<Rightarrow> tref tc" where
  "walk_array_literal P k elem es =
     sdo (check (length es = k) (''array literal: expected '' @ show_nat k @ '' elements, got '' @ show_nat (length es)))
     (sdo (walk_elements P ''array element'' elem es) (slift (array_literal_type k elem)))"

definition walk_slice_literal :: "procs \<Rightarrow> tref option \<Rightarrow> node list \<Rightarrow> tref tc" where
  "walk_slice_literal P elem es =
     (case elem of
        Some t \<Rightarrow> sdo (walk_elements P ''slice element'' t es) (slift (slice_literal_type t))
      | None \<Rightarrow>
          (case es of
             [] \<Rightarrow> tfail ''slice literal: cannot infer element type from empty literal''
           | e # rest \<Rightarrow>
               sbind (expr P e) (\<lambda>t.
               sdo (check (\<not> untyped_default t) (''slice literal: cannot infer element type from '' @ ty t))
               (sdo (walk_elements P ''slice element'' t rest) (slift (slice_literal_type t))))))"

definition map_parts :: "tref \<Rightarrow> (tref \<times> tref) tc" where
  "map_parts t = sbind (check_map_type None t) (\<lambda>kv. case kv of Some kv \<Rightarrow> sret kv | None \<Rightarrow> slift (Inl ValueError))"

definition walk_entries :: "procs \<Rightarrow> tref \<times> tref \<Rightarrow> (node \<times> node) list \<Rightarrow> unit tc" where
  "walk_entries P kt entries =
     seach (\<lambda>(k, v).
       sbind (expr P k) (\<lambda>t. sdo (require_type P t (fst kt) ''map literal key'')
       (sbind (expr P v) (\<lambda>t. require_type P t (snd kt) ''map literal value'')))) entries"

definition walk_map_literal :: "procs \<Rightarrow> tref option \<Rightarrow> (node \<times> node) list \<Rightarrow> tref tc" where
  "walk_map_literal P t entries =
     (case t of
        Some t \<Rightarrow> sbind (map_parts t) (\<lambda>kt. sdo (walk_entries P kt entries) (sret t))
      | None \<Rightarrow>
          (case entries of
             [] \<Rightarrow> tfail ''map literal: cannot infer key/value types from empty literal''
           | (k, v) # rest \<Rightarrow>
               sbind (expr P k) (\<lambda>kt. sbind (expr P v) (\<lambda>vt.
               sbind (slift (parse_type_ref (''map['' @ ty kt @ '','' @ ty vt @ '']''))) (\<lambda>t.
               sbind (map_parts t) (\<lambda>kv. sdo (walk_entries P kv rest) (sret t)))))))"

definition walk_index :: "procs \<Rightarrow> node \<Rightarrow> node \<Rightarrow> tref tc" where
  "walk_index P obj i =
     sbind (expr P obj) (\<lambda>ot. sbind (expr P i) (\<lambda>it.
       let index = require_type P it (NamedType ''i32'') ''index'' in
       if named ot ''str'' then sdo index (sret (NamedType ''i32''))
       else if named ot ''nc_map'' then sdo (require_type P it (NamedType ''str'') ''map key'') (sret (NamedType ''str''))
       else if map_type_args ot \<noteq> None then
         sbind (map_parts ot) (\<lambda>(k, v). sdo (require_type P it k ''map key'') (sret v))
       else
         (case ot of
            SliceType elem \<Rightarrow> sdo index (sret elem)
          | ArrayTypeRef _ elem \<Rightarrow> sdo index (sret elem)
          | PointerType _ _ \<Rightarrow> tfail (''pointer type '' @ ty ot @ '': indexing is not allowed'')
          | _ \<Rightarrow> sdo index (sret ot))))"

definition slice_result :: "tref \<Rightarrow> tref" where
  "slice_result t = (case t of ArrayTypeRef _ elem \<Rightarrow> SliceType elem | _ \<Rightarrow> t)"

definition walk_slice_expr :: "procs \<Rightarrow> node \<Rightarrow> node \<Rightarrow> node option \<Rightarrow> tref tc" where
  "walk_slice_expr P obj start end_e =
     sbind (expr P obj) (\<lambda>ot.
     sbind (expr P start) (\<lambda>t. sdo (require_type P t (NamedType ''i32'') ''slice start'')
     (sdo (case end_e of
         None \<Rightarrow> sret ()
       | Some e \<Rightarrow> sbind (expr P e) (\<lambda>t. require_type P t (NamedType ''i32'') ''slice end''))
      (sret (slice_result ot)))))"

subsection \<open>Bodies and result types\<close>

text \<open>
  The loop over the parameters of a declaration: a default is visited before its parameter is in
  scope. An instance of a generic function has had its defaults typed; \<open>strict\<close> is the variant of
  \<open>validate_function_defaults\<close>, which asks for the type of such a parameter again.
\<close>

definition check_param :: "procs \<Rightarrow> bool \<Rightarrow> bool \<Rightarrow> string \<Rightarrow> node param \<Rightarrow> unit tc" where
  "check_param P generic strict context p =
     sbind (case pdefault p of
         Some d \<Rightarrow>
           if \<not> generic \<or> ptype p = None then
             sdo (slift (validate_default_expr_shape (pname p) d))
             (sbind (expr P d) (\<lambda>dt.
              sbind (slift (infer_default_param_type p dt)) (\<lambda>t.
              sdo (swhen (ptype p = None) (smod (set_param_type p t)))
              (sdo (require_type P dt t (''default parameter '' @ pname p)) (sret (Some t))))))
           else if strict then sbind (slift (require_concrete_param_type p context)) (\<lambda>t. sret (Some t))
           else sret (ptype p)
       | None \<Rightarrow> sbind (slift (require_concrete_param_type p context)) (\<lambda>t. sret (Some t)))
     (declare_var (pname p))"

definition declare_receiver :: "node \<Rightarrow> unit tc" where
  "declare_receiver d = (case decl_receiver d of Some (r, t) \<Rightarrow> declare_var r (Some t) | None \<Rightarrow> sret ())"

text \<open>The tail of a body against the result type: an expression of that type, or a return.\<close>

definition check_tail :: "procs \<Rightarrow> string \<Rightarrow> node list \<Rightarrow> tref option \<Rightarrow> tref \<Rightarrow> unit tc" where
  "check_tail P what stmts last_type r =
     (if named r ''void'' \<or> ends_with_return stmts then sret ()
      else
        (case last_type of
           Some t \<Rightarrow> if is_never t then sret () else require_type P t r (what @ '' tail expression'')
         | None \<Rightarrow> tfail (what @ '': missing ret '' @ ty r)))"

definition tail_value :: "node list \<Rightarrow> tref option \<Rightarrow> tref list" where
  "tail_value stmts last_type =
     (case (block_tail_expr stmts, last_type) of
        (Some e, Some t) \<Rightarrow> (case tail_expr_type e t of None \<Rightarrow> [] | Some t \<Rightarrow> if is_never t then [] else [t])
      | _ \<Rightarrow> [])"

text \<open>The values a body returns, and whether it returns without one.\<close>

definition body_returns ::
  "cenv \<Rightarrow> procs \<Rightarrow> callable_ref \<Rightarrow> node \<Rightarrow> node param list \<Rightarrow> node list \<Rightarrow> string \<Rightarrow> (tref list \<times> bool) tc" where
  "body_returns E P c n ps stmts display =
     inferring c (scoped
       (sdo (declare_receiver n)
       (sdo (seach (check_param P (generic_origin E n) False display) ps)
       (sbind (w_stmts P False stmts) (\<lambda>lt.
        sdo (smod (ret_values_update (\<lambda>ts. ts @ tail_value stmts lt)))
        (sget (\<lambda>s. (ret_values s, ret_void s))))))))"

definition infer_return_from_body ::
  "cenv \<Rightarrow> procs \<Rightarrow> callable_ref \<Rightarrow> node \<Rightarrow> node param list \<Rightarrow> node list \<Rightarrow> string \<Rightarrow> tref tc" where
  "infer_return_from_body E P c n ps stmts display =
     sbind (body_returns E P c n ps stmts display) (\<lambda>(ts, saw_void).
       case filter (\<lambda>t. \<not> is_never t) ts of
         [] \<Rightarrow> sret (NamedType ''void'')
       | t # rest \<Rightarrow>
           sdo (check (\<not> saw_void) (display @ '': cannot mix value ret and void ret''))
           (sdo (seach (\<lambda>u. require_type P u t (display @ '' ret type'')) rest) (sret t)))"

definition set_global_type :: "string \<Rightarrow> tref \<Rightarrow> symtab \<Rightarrow> symtab" where
  "set_global_type x r T =
     T\<lparr>scopes := butlast (scopes T) @
         (if scopes T = [] then []
          else [map (\<lambda>(y, sy). (y, if y = x then sy\<lparr>sym_type := Some r\<rparr> else sy)) (last (scopes T))])\<rparr>"

definition set_signature :: "callable_ref \<Rightarrow> tref \<Rightarrow> symtab \<Rightarrow> symtab" where
  "set_signature c r T =
     (let sig = (\<lambda>(_, ps). (Some r, ps)) in
      case c of
        CFunction x \<Rightarrow>
          set_global_type x r (T\<lparr>fun_sigs := map (\<lambda>(y, g). (y, if y = x then sig g else g)) (fun_sigs T)\<rparr>)
      | CMethod t x \<Rightarrow>
          set_global_type (t @ ''_'' @ x) r
            (T\<lparr>methods := map (\<lambda>(u, ms). (u, if u = t then map (\<lambda>(y, g). (y, if y = x then sig g else g)) ms else ms))
                 (methods T)\<rparr>)
      | _ \<Rightarrow> T)"

text \<open>The result type goes into the declaration and into the table.\<close>

definition set_return_type :: "callable_ref \<Rightarrow> tref \<Rightarrow> tcs \<Rightarrow> tcs" where
  "set_return_type c r s =
     s\<lparr>fns := map (\<lambda>(y, d). (y, if c = CFunction y then set_return r d else d)) (fns s),
       mths := map (\<lambda>((t, y), d). ((t, y), if c = CMethod t y then set_return r d else d)) (mths s),
       tab := set_signature c r (tab s)\<rparr>"

fun callable_text :: "callable_ref \<Rightarrow> string" where
  "callable_text (CFunction x) = x"
| "callable_text (CMethod _ x) = x"
| "callable_text (CNested x) = x"
| "callable_text CExpr = []"

definition no_such_callable :: "callable_ref \<Rightarrow> string" where
  "no_such_callable c =
     (case c of
        CMethod t x \<Rightarrow> t @ '': method '' @ x @ '' not found''
      | _ \<Rightarrow> ''Function '' @ callable_text c @ '' not found'')"

text \<open>\<open>resolve_function_return\<close> and \<open>resolve_method_return\<close>\<close>

definition resolve_return :: "cenv \<Rightarrow> procs \<Rightarrow> callable_ref \<Rightarrow> tref tc" where
  "resolve_return E P c =
     sbind (sget (decl_of c)) (\<lambda>v. case v of
         None \<Rightarrow> tfail (no_such_callable c)
       | Some d \<Rightarrow>
           if return_type_explicit d then
             sdo (smod (set_return_type c (or_void (decl_return d)))) (sret (or_void (decl_return d)))
           else
             (case decl_return d of
                Some r \<Rightarrow> sret r
              | None \<Rightarrow>
                  sbind (sget (\<lambda>s. c \<in> set (resolving s))) (\<lambda>again.
                  sdo (check (\<not> again)
                    (''function '' @ callable_text c @ '': ret type inference cycle; add explicit ret type''))
                  (sbind (resolving_return c
                     (infer_return_from_body E P c d (decl_params d) (decl_body d) (''function '' @ callable_text c))) (\<lambda>r.
                   sdo (smod (set_return_type c r)) (sret r))))))"

subsection \<open>Function expressions\<close>

definition expr_param :: "node param \<Rightarrow> unit res" where
  "expr_param p =
     (if pdefault p \<noteq> None then fail ''function expressions cannot have default parameters''
      else rbind (require_concrete_param_type p ''function expression'') (\<lambda>_. Inr ()))"

definition declare_expr_param :: "node param \<Rightarrow> unit tc" where
  "declare_expr_param p =
     (case ptype p of
        None \<Rightarrow> tfail (''function expression: parameter '' @ pname p @ '' requires a type'')
      | Some t \<Rightarrow> sbind (check_map_type None t) (\<lambda>_. declare_var (pname p) (Some t)))"

definition walk_function_expr ::
  "cenv \<Rightarrow> procs \<Rightarrow> node \<Rightarrow> node param list \<Rightarrow> tref option \<Rightarrow> node list \<Rightarrow> bool \<Rightarrow> bool \<Rightarrow> tref tc" where
  "walk_function_expr E P n ps ret stmts explicit err =
     sdo (check (\<not> err) ''function expressions cannot be marked err in v1'')
     (sdo (slift (require_default_param_shape False ps ''function expression''))
     (sdo (seach (\<lambda>p. slift (expr_param p)) ps)
     (sbind (if explicit then sret (or_void ret)
             else infer_return_from_body E P CExpr n ps stmts ''function expression'') (\<lambda>r.
      in_callable (Some r) CExpr (scoped
        (sdo (seach declare_expr_param ps)
        (sbind (in_closure n (w_stmts P False stmts)) (\<lambda>lt.
         sdo (check_tail P ''function expression'' stmts lt r)
         (sbind (slift (opt_types ps)) (\<lambda>pts. sret (fn_type pts r))))))))))) "

subsection \<open>Expressions\<close>

definition typed :: "tref tc \<Rightarrow> (tref \<times> bool) tc" where
  "typed m = sbind m (\<lambda>t. sret (t, False))"

definition never :: "unit tc \<Rightarrow> (tref \<times> bool) tc" where
  "never m = sdo m (sret (NEVER, False))"

definition literal_type :: "string option \<Rightarrow> string \<Rightarrow> tref" where
  "literal_type suffix standard = NamedType (case suffix of Some t \<Rightarrow> t | None \<Rightarrow> standard)"

text \<open>A node without a type is read by nobody in the code; reading it would raise.\<close>

definition walk_expr :: "cenv \<Rightarrow> procs \<Rightarrow> node \<Rightarrow> (tref \<times> bool) tc" where
  "walk_expr E P n =
     (case n of
        Return _ e \<Rightarrow> never (walk_return P e)
      | ErrReturn _ e \<Rightarrow> never (walk_err_return P e)
      | IntegerLiteral _ _ suffix \<Rightarrow> typed (sret (literal_type suffix ''i32''))
      | FloatLiteral _ _ suffix \<Rightarrow> typed (sret (literal_type suffix ''f64''))
      | StringLiteral _ _ \<Rightarrow> typed (sret (NamedType ''str''))
      | RuneLiteral _ _ \<Rightarrow> typed (sret (NamedType ''rune''))
      | InterpolatedString _ ps \<Rightarrow> typed (walk_interpolated P ps)
      | BoolLiteral _ _ \<Rightarrow> typed (sret (NamedType ''bool''))
      | NilLiteral _ \<Rightarrow> typed (sret (NamedType ''__nil''))
      | MagicConst _ x \<Rightarrow> typed (walk_magic x)
      | Identifier _ x _ \<Rightarrow> typed (walk_identifier P x)
      | UnaryOp opr e \<Rightarrow> typed (walk_unary P opr e)
      | BinaryOp l opr r \<Rightarrow> typed (sbind (walk_binary P l opr r) (\<lambda>(_, _, t). sret t))
      | FunctionCall _ x as _ \<Rightarrow> walk_function_call E P n x as
      | FallibleOp _ e opr \<Rightarrow> typed (walk_fallible_op P e opr)
      | ErrorHandlerExpr _ e x handler \<Rightarrow> typed (walk_error_handler P e x handler)
      | ErrorMatchExpr _ e x arms \<Rightarrow> typed (walk_error_match P e x arms)
      | SizeOfType _ t \<Rightarrow> typed (sdo (check_sized_type t) (sret (NamedType ''u64'')))
      | FunctionExpr _ ps ret body explicit err \<Rightarrow>
          typed (walk_function_expr E P n ps ret (statements body) explicit err)
      | GenericFunctionValue x _ \<Rightarrow>
          typed (sdo (require_public None x) (function_value P ''generic function value'' x))
      | IfExpr _ c t e \<Rightarrow> typed (walk_if P c t e)
      | BlockExpr _ b \<Rightarrow> typed (infer_block_value P None (statements b))
      | MatchExpr _ e arms \<Rightarrow> typed (infer_match_value P e arms)
      | EnumRef e v \<Rightarrow> typed (walk_enum_ref e v)
      | StructLiteral _ x fs heap \<Rightarrow> typed (walk_struct_literal P x fs heap)
      | FieldAccess obj f \<Rightarrow> typed (walk_field_access E P n obj f)
      | MethodCall _ obj m as \<Rightarrow> walk_method_call P obj m as
      | ArrayLiteral _ k elem es \<Rightarrow> typed (walk_array_literal P k elem es)
      | SliceLiteral _ elem es \<Rightarrow> typed (walk_slice_literal P elem es)
      | MapLiteral _ t entries \<Rightarrow> typed (walk_map_literal P t entries)
      | IndexAccess obj i _ \<Rightarrow> typed (walk_index P obj i)
      | SliceExpr obj start end_e \<Rightarrow> typed (walk_slice_expr P obj start end_e)
      | _ \<Rightarrow> slift (Inl AttributeError))"

subsection \<open>Statements\<close>

definition walk_let :: "procs \<Rightarrow> string \<Rightarrow> node \<Rightarrow> tref option \<Rightarrow> unit tc" where
  "walk_let P x init ann =
     sdo (case ann of
         None \<Rightarrow> sret ()
       | Some t \<Rightarrow>
           sdo (require_public None (format_type_ref t))
           (sdo (check (\<not> is_fallible_fn_type t) ''fallible function values are not supported in v1'')
           (sbind (check_map_type None t) (\<lambda>_. sret ()))))
     (sbind (expr P init) (\<lambda>it.
      let t = (case ann of Some t \<Rightarrow> t | None \<Rightarrow> it) in
      sdo (check (\<not> untyped_default t) (''let '' @ x @ '': cannot bind void value''))
      (sdo (check (\<not> is_never t) (''let '' @ x @ '': cannot bind never value''))
      (sdo (require_type P it t (''let '' @ x))
      (on_tab (declare_symbol x (Some t) False (is_upper_const_name x)))))))"

text \<open>What assignments and updates ask of their target, with its type.\<close>

definition is_capture :: "string \<Rightarrow> tcs \<Rightarrow> bool" where
  "is_capture x s = (case lookup x (tab s) of Inl _ \<Rightarrow> False | Inr sy \<Rightarrow> captures x sy s)"

definition check_target_name :: "node \<Rightarrow> unit tc" where
  "check_target_name target =
     (case target_ident target of
        None \<Rightarrow> sret ()
      | Some x \<Rightarrow>
          sbind (sget (\<lambda>s. has_key (narrowed s) x)) (\<lambda>forbidden.
          sdo (check (\<not> forbidden)
            (''cannot assign to narrowed nullable pointer '' @ x @ '' inside non-nil block''))
          (sbind (sget (is_capture x)) (\<lambda>cap.
            check (\<not> cap) (''cannot assign to captured variable '' @ x)))))"

definition walk_target :: "procs \<Rightarrow> node \<Rightarrow> tref tc" where
  "walk_target P target =
     sbind (expr P target) (\<lambda>t.
     sdo (slift (require_assignable target))
     (sdo (at_tab (\<lambda>T. require_mutable_binding T target))
     (sdo (check_target_name target) (sret t))))"

definition walk_assignment :: "procs \<Rightarrow> node \<Rightarrow> node \<Rightarrow> string \<Rightarrow> unit tc" where
  "walk_assignment P target e opr =
     sbind (walk_target P target) (\<lambda>tt.
     sbind (expr P e) (\<lambda>et.
       if opr = ''='' then require_type P et tt ''assignment'' else compound_check P (butlast opr) tt et))"

definition walk_update :: "procs \<Rightarrow> node \<Rightarrow> string \<Rightarrow> unit tc" where
  "walk_update P target opr =
     sbind (walk_target P target) (\<lambda>t.
     sdo (check (\<not> is_rune_type t) (opr @ '': expected numeric lvalue, got rune''))
     (check (is_numeric_type t \<and> \<not> is_pointerish t) (opr @ '': expected numeric lvalue, got '' @ ty t)))"

definition body_of :: "procs \<Rightarrow> node list \<Rightarrow> unit tc" where
  "body_of P stmts = sbind (w_stmts P False stmts) (\<lambda>_. sret ())"

definition walk_for_condition :: "procs \<Rightarrow> node \<Rightarrow> node list \<Rightarrow> unit tc" where
  "walk_for_condition P c stmts =
     sbind (expr P c) (\<lambda>t.
     sdo (require_type P t (NamedType ''bool'') ''for condition'') (scoped (in_loop (body_of P stmts))))"

definition required :: "'x option \<Rightarrow> ('x \<Rightarrow> 'a tc) \<Rightarrow> 'a tc" where
  "required v f = (case v of None \<Rightarrow> slift (Inl AttributeError) | Some x \<Rightarrow> f x)"

definition declare_elements :: "string \<Rightarrow> string option \<Rightarrow> tref \<Rightarrow> unit tc" where
  "declare_elements i v t =
     (case map_type_args t of
        Some margs \<Rightarrow>
          (case (v, margs) of
             (None, _) \<Rightarrow> tfail ''for-in: map requires key, value variables''
           | (Some x, k # e # _) \<Rightarrow> sdo (declare_var i (Some k)) (declare_var x (Some e))
           | _ \<Rightarrow> slift (Inl IndexError))
      | None \<Rightarrow>
          sdo (declare_var i (Some (NamedType ''i32'')))
          (case v of None \<Rightarrow> sret () | Some x \<Rightarrow> declare_var x (as_slice_type t)))"

definition walk_for_in ::
  "procs \<Rightarrow> string \<Rightarrow> string option \<Rightarrow> node option \<Rightarrow> node list \<Rightarrow> node option \<Rightarrow> node option \<Rightarrow> unit tc" where
  "walk_for_in P i v iterable stmts start end_e =
     sbind (case start of
         Some st \<Rightarrow>
           sbind (expr P st) (\<lambda>t. required end_e (\<lambda>e. sbind (expr P e) (\<lambda>u.
           sdo (require_type P t (NamedType ''i32'') ''for range start'')
           (sdo (require_type P u (NamedType ''i32'') ''for range end'')
           (sret None)))))
       | None \<Rightarrow>
           required iterable (\<lambda>it. sbind (expr P it) (\<lambda>t.
           sdo (check (as_slice_type t \<noteq> None \<or> map_type_args t \<noteq> None)
             (''for-in: expected slice or map, got '' @ ty t))
           (sret (Some t))))) (\<lambda>over.
     scoped (sdo (case over of
         None \<Rightarrow> declare_var i (Some (NamedType ''i32''))
       | Some t \<Rightarrow> declare_elements i v t)
       (in_loop (body_of P stmts))))"

definition walk_try ::
  "procs \<Rightarrow> node \<Rightarrow> node list \<Rightarrow> string option \<Rightarrow> string option \<Rightarrow> node block option \<Rightarrow> unit tc" where
  "walk_try P call success_block success_name error_name error_block =
     sbind (walk_fallible_call_for_try P call) (\<lambda>t.
     sdo (if named t ''void'' then check (success_name = None) ''try: void fallible call cannot bind a success value''
          else check (success_name \<noteq> None)
            (''try: fallible call returning '' @ ty t @ '' requires a success binding''))
     (sdo (scoped (sdo (case success_name of None \<Rightarrow> sret () | Some x \<Rightarrow> declare_var x (Some t))
        (body_of P success_block)))
     (case error_block of
        None \<Rightarrow> sret ()
      | Some b \<Rightarrow>
          scoped (sdo (required error_name (\<lambda>x. declare_var x (Some (NamedType ''error''))))
            (body_of P (statements b))))))"

definition walk_struct_decl :: "node \<Rightarrow> string \<Rightarrow> (string \<times> tref) list \<Rightarrow> string list \<Rightarrow> unit tc" where
  "walk_struct_decl n x fs embedded =
     sdo (at_tab (\<lambda>T. validate_struct_embedding T x fs embedded))
     (sdo (seach (\<lambda>(_, t). sdo (require_public (owner_name n) (format_type_ref t))
        (sbind (check_map_type (owner_name n) t) (\<lambda>_. sret ()))) fs)
     (seach (\<lambda>f. case map_of (rev fs) f of
         None \<Rightarrow> slift (Inl KeyError)
       | Some t \<Rightarrow>
           sbind (sget (\<lambda>s. is_struct_type s t)) (\<lambda>ok.
             check ok (''struct '' @ x @ '': embedded struct '' @ ty t @ '' not found''))) embedded))"

text \<open>
  The result type and the parameters of a declaration: those in the state for a declaration of the top
  level, where earlier phases filled them in, and as parsed for one in a body.
\<close>

definition callable_at :: "bool \<Rightarrow> node \<Rightarrow> callable_ref" where
  "callable_at is_top d = (if is_top then callable_of d else CNested (decl_name d))"

definition current_decl :: "bool \<Rightarrow> node \<Rightarrow> tcs \<Rightarrow> node" where
  "current_decl is_top d s =
     (if is_top then (case decl_of (callable_of d) s of Some d' \<Rightarrow> d' | None \<Rightarrow> d) else d)"

definition check_signature_type :: "node \<Rightarrow> tref \<Rightarrow> unit tc" where
  "check_signature_type d t =
     sdo (require_public (owner_name d) (format_type_ref t)) (sbind (check_map_type (owner_name d) t) (\<lambda>_. sret ()))"

definition walk_function :: "cenv \<Rightarrow> procs \<Rightarrow> bool \<Rightarrow> node \<Rightarrow> unit tc" where
  "walk_function E P is_top parsed =
     sbind (sget (current_decl is_top parsed)) (\<lambda>d.
     let what = ''function '' @ decl_name d in
     sdo (slift (require_default_param_shape False (decl_params d) what))
     (sdo (case decl_return d of
         None \<Rightarrow> sret ()
       | Some r \<Rightarrow>
           sdo (require_public (owner_name d) (format_type_ref r))
           (sdo (check (\<not> is_fallible_fn_type r) ''fallible function values are not supported in v1'')
           (sbind (check_map_type (owner_name d) r) (\<lambda>_. sret ()))))
     (sdo (case decl_receiver d of Some (_, t) \<Rightarrow> check_signature_type d t | None \<Rightarrow> sret ())
     (sdo (seach (\<lambda>p. case ptype p of None \<Rightarrow> sret () | Some t \<Rightarrow> check_signature_type d t) (decl_params d))
     (scoped
       (sdo (if return_type_explicit d then sret ()
             else sbind (w_resolve P (callable_of d)) (\<lambda>_. sret ()))
       (sbind (sget (\<lambda>s. or_void (decl_return (current_decl is_top parsed s)))) (\<lambda>r.
        in_callable (Some r) (callable_at is_top d)
          (sdo (declare_receiver d)
          (sdo (seach (check_param P (generic_origin E d) False what) (decl_params d))
          (sbind (w_stmts P False (decl_body d)) (\<lambda>lt. check_tail P what (decl_body d) lt r))))))))))))"

definition walk_spawn :: "procs \<Rightarrow> node \<Rightarrow> unit tc" where
  "walk_spawn P f =
     (case f of
        FunctionExpr _ ps _ _ _ _ \<Rightarrow>
          sbind (expr P f) (\<lambda>_. check (ps = []) ''spawn function must take no parameters'')
      | _ \<Rightarrow> tfail ''spawn must be followed by a function expression'')"

definition walk_stmt :: "cenv \<Rightarrow> procs \<Rightarrow> bool \<Rightarrow> node \<Rightarrow> tref option tc" where
  "walk_stmt E P is_top n =
     (let quiet = (\<lambda>m. sdo m (sret None)) in
      case n of
        VariableDeclaration _ x init ann \<Rightarrow> quiet (walk_let P x init ann)
      | ExpressionStatement e \<Rightarrow> sbind (expr P e) (\<lambda>t. sret (Some t))
      | Assignment target e opr \<Rightarrow> quiet (walk_assignment P target e opr)
      | Update target opr \<Rightarrow> quiet (walk_update P target opr)
      | ForCondition c body \<Rightarrow> quiet (walk_for_condition P c (statements body))
      | FunctionDeclaration _ _ _ _ _ _ _ _ _ _ _ _ _ \<Rightarrow> quiet (walk_function E P is_top n)
      | Return _ e \<Rightarrow> quiet (walk_return P e)
      | ErrReturn _ e \<Rightarrow> quiet (walk_err_return P e)
      | TryStatement _ call sb sn en eb \<Rightarrow> quiet (walk_try P call (statements sb) sn en eb)
      | StructDecl x fs _ _ embedded \<Rightarrow> quiet (walk_struct_decl n x fs embedded)
      | IfaceDecl x _ _ \<Rightarrow> quiet (sbind (at_tab (\<lambda>T. iface_methods T x)) (\<lambda>_. sret ()))
      | ExternBlock _ _ fs \<Rightarrow> quiet (seach (\<lambda>f. slift (validate_extern_function (trusted_decl E f) f)) fs)
      | ForIn i v iterable body start end_e \<Rightarrow> quiet (walk_for_in P i v iterable (statements body) start end_e)
      | Defer _ body \<Rightarrow> quiet (in_defer (body_of P (statements body)))
      | SpawnStmt _ f \<Rightarrow> quiet (walk_spawn P f)
      | Break _ \<Rightarrow> quiet (sbind (sget break_depth) (\<lambda>d. check (0 < d) ''break outside loop''))
      | _ \<Rightarrow> sret None)"

fun walk_stmts :: "cenv \<Rightarrow> procs \<Rightarrow> bool \<Rightarrow> node list \<Rightarrow> tref option tc" where
  "walk_stmts E P is_top [] = sret None"
| "walk_stmts E P is_top [n] = walk_stmt E P is_top n"
| "walk_stmts E P is_top (n # m # ns) = sbind (walk_stmt E P is_top n) (\<lambda>_. walk_stmts E P is_top (m # ns))"

subsection \<open>The recursion\<close>

text \<open>
  Each visit of a child, of a body and each inference of a result type uses one unit of fuel.
\<close>

fun run_expr :: "cenv \<Rightarrow> nat \<Rightarrow> node \<Rightarrow> (tref \<times> bool) tc"
  and run_stmts :: "cenv \<Rightarrow> nat \<Rightarrow> bool \<Rightarrow> node list \<Rightarrow> tref option tc"
  and run_resolve :: "cenv \<Rightarrow> nat \<Rightarrow> callable_ref \<Rightarrow> tref tc"
where
  "run_expr E 0 e s = Inl OutOfFuel"
| "run_expr E (Suc n) e s =
     walk_expr E \<lparr>w_expr = run_expr E n, w_stmts = run_stmts E n, w_resolve = run_resolve E n\<rparr> e s"
| "run_stmts E 0 is_top ns s = Inl OutOfFuel"
| "run_stmts E (Suc n) is_top ns s =
     walk_stmts E \<lparr>w_expr = run_expr E n, w_stmts = run_stmts E n, w_resolve = run_resolve E n\<rparr> is_top ns s"
| "run_resolve E 0 c s = Inl OutOfFuel"
| "run_resolve E (Suc n) c s =
     resolve_return E \<lparr>w_expr = run_expr E n, w_stmts = run_stmts E n, w_resolve = run_resolve E n\<rparr> c s"

definition procs_at :: "cenv \<Rightarrow> nat \<Rightarrow> procs" where
  "procs_at E n = \<lparr>w_expr = run_expr E n, w_stmts = run_stmts E n, w_resolve = run_resolve E n\<rparr>"

subsection \<open>The pass\<close>

fun is_function_decl :: "node \<Rightarrow> bool" where
  "is_function_decl (FunctionDeclaration _ _ _ _ _ _ _ _ _ _ _ _ _) = True"
| "is_function_decl _ = False"

fun fallible_explicit :: "node \<Rightarrow> bool" where
  "fallible_explicit (FunctionDeclaration _ _ _ _ _ _ _ _ _ r2 _ _ _) = r2"
| "fallible_explicit _ = False"

fun is_extern :: "node \<Rightarrow> bool" where
  "is_extern (FunctionDeclaration _ _ _ _ _ _ _ _ _ _ _ ext _) = ext"
| "is_extern _ = False"

definition collect_decl :: "node \<Rightarrow> tcs \<Rightarrow> tcs res" where
  "collect_decl d s =
     (case callable_of d of
        CMethod t x \<Rightarrow>
          if has_key (mths s) (t, x) then fail (t @ '': duplicate method '' @ x)
          else Inr (s\<lparr>mths := dict_set (t, x) d (mths s)\<rparr>)
      | _ \<Rightarrow> Inr (s\<lparr>fns := dict_set (decl_name d) d (fns s)\<rparr>))"

definition check_constraints :: "cenv \<Rightarrow> nat \<Rightarrow> node \<Rightarrow> unit tc" where
  "check_constraints E n d =
     (case generic_info E d of (cs, erased, kind, x) \<Rightarrow> at_tab (\<lambda>T. validate_generic_constraints n T cs erased kind x))"

definition validate_function_defaults :: "cenv \<Rightarrow> procs \<Rightarrow> node \<Rightarrow> unit tc" where
  "validate_function_defaults E P parsed =
     sbind (sget (current_decl True parsed)) (\<lambda>d.
     sdo (slift (require_default_param_shape False (decl_params d) (''function '' @ decl_name d)))
     (scoped (sdo (declare_receiver d)
       (seach (check_param P (generic_origin E d) True (''function '' @ decl_name d)) (decl_params d)))))"

definition mark_fallible :: "node \<Rightarrow> unit tc" where
  "mark_fallible d = swhen (mark_direct_fallible d) (smod (fallible_fns_update (List.insert (callable_of d))))"

definition check_err_marker :: "node \<Rightarrow> unit tc" where
  "check_err_marker d =
     (if \<not> fallible_explicit d then sret ()
      else if is_extern d then tfail ''extern functions cannot be marked err''
      else
        sbind (sget (\<lambda>s. callable_of d \<in> set (fallible_fns s))) (\<lambda>f.
          check f (''function '' @ decl_name d @ '': err marker requires a fallible body'')))"

definition initial_tcs :: "symtab \<Rightarrow> tcs" where
  "initial_tcs T = \<lparr>tab = T, fns = [], mths = [], cur_ret = Some (NamedType ''void''), callable = None,
     break_depth = 0, fallible_depth = 0, defer_depth = 0, closures = [], captured = [], ret_values = [],
     ret_void = False, resolving = [], fallible_fns = [], narrowed = [], in_default = False\<rparr>"

fun is_struct_decl :: "node \<Rightarrow> bool" where
  "is_struct_decl (StructDecl _ _ _ _ _) = True"
| "is_struct_decl _ = False"

definition check_program :: "cenv \<Rightarrow> nat \<Rightarrow> node list \<Rightarrow> tref option tc" where
  "check_program E n stmts =
     (let P = procs_at E n; decls = filter is_function_decl stmts in
      sdo (\<lambda>s. rbind (rfold collect_decl decls s) (\<lambda>s. Inr ((), s)))
      (sdo (seach (check_constraints E n) (filter (\<lambda>d. is_function_decl d \<or> is_struct_decl d) stmts))
      (sdo (seach (validate_function_defaults E P) decls)
      (sdo (seach mark_fallible decls)
      (sdo (seach check_err_marker decls)
      (sdo (seach (\<lambda>d. sbind (w_resolve P (callable_of d)) (\<lambda>_. sret ())) decls)
      (w_stmts P True stmts)))))))"

definition infer_types :: "cenv \<Rightarrow> nat \<Rightarrow> node list \<Rightarrow> symtab \<Rightarrow> tcs res" where
  "infer_types E n stmts T = rbind (check_program E n stmts (initial_tcs T)) (\<lambda>(_, s). Inr s)"

end
