(* ===== verification/TypeCheckProps.thy ===== *)
theory TypeCheckProps
  imports TypeCheck
begin

text \<open>
  The walk of the type checker leaves the state as it found it but for declarations of the current
  scope and inferred types, and its result does not depend on the fuel: both are shown at once, for
  every definition, by rules that follow its structure. Then what the checks guarantee (fallible calls
  are handled, matches are exhaustive), and programs on which they do not hold what they promise.
\<close>

named_theorems run_rules \<open>rules for the relation between runs with different fuel\<close>

subsection \<open>What a walk may change\<close>

definition scope_names :: "symtab \<Rightarrow> string list list" where
  "scope_names T = map (map fst) (scopes T)"

definition tab_decls ::
  "symtab \<Rightarrow> (string \<times> (string \<times> tref) list) list \<times> (string \<times> (string \<times> tref) list) list
     \<times> (string \<times> string list) list \<times> (string \<times> ((string \<times> node param list \<times> tref \<times> bool) list \<times> tref list)) list
     \<times> string list \<times> string list \<times> (string \<times> string list) list" where
  "tab_decls T = (structs T, struct_embeds T, enums T, ifaces T, extern_functions T, map fst (fun_sigs T),
     map (\<lambda>(c, ms). (c, map fst ms)) (methods T))"

definition tab_frame :: "symtab \<Rightarrow> symtab \<Rightarrow> bool" where
  "tab_frame T T' \<longleftrightarrow> tab_decls T' = tab_decls T \<and> level T' = level T
     \<and> length (scopes T') = length (scopes T) \<and> tl (scope_names T') = tl (scope_names T)
     \<and> (scopes T \<noteq> [] \<longrightarrow> (\<exists>xs. hd (scope_names T') = hd (scope_names T) @ xs))"

definition walk_context ::
  "tcs \<Rightarrow> tref option \<times> callable_ref option \<times> nat \<times> nat \<times> nat \<times> int list \<times> callable_ref list
     \<times> (string \<times> tref) list \<times> bool" where
  "walk_context s = (cur_ret s, callable s, break_depth s, fallible_depth s, defer_depth s, map fst (closures s),
     resolving s, narrowed s, in_default s)"

definition frame :: "tcs \<Rightarrow> tcs \<Rightarrow> bool" where
  "frame s s' \<longleftrightarrow> walk_context s' = walk_context s \<and> tab_frame (tab s) (tab s')
     \<and> map fst (fns s') = map fst (fns s) \<and> map fst (mths s') = map fst (mths s)
     \<and> set (fallible_fns s) \<subseteq> set (fallible_fns s')"

text \<open>
  \<open>runs m m'\<close>: \<open>m'\<close> is \<open>m\<close> with more fuel, and \<open>m\<close> only changes what it may.
\<close>

definition runs :: "'a tc \<Rightarrow> 'a tc \<Rightarrow> bool" where
  "runs m m' \<longleftrightarrow>
     (\<forall>s. (m s = Inl OutOfFuel \<or> m' s = m s) \<and> (\<forall>a s'. m s = Inr (a, s') \<longrightarrow> frame s s'))"

definition proc_le :: "procs \<Rightarrow> procs \<Rightarrow> bool" where
  "proc_le P Q \<longleftrightarrow> (\<forall>e. runs (w_expr P e) (w_expr Q e)) \<and> (\<forall>b ns. runs (w_stmts P b ns) (w_stmts Q b ns))
     \<and> (\<forall>c. runs (w_resolve P c) (w_resolve Q c))"

lemma tab_frame_refl [simp]: "tab_frame T T"
  by (auto simp: tab_frame_def)

lemma scope_names_Nil: "scope_names T = [] \<longleftrightarrow> scopes T = []"
  by (simp add: scope_names_def)

lemma tab_frame_trans: "tab_frame T U \<Longrightarrow> tab_frame U V \<Longrightarrow> tab_frame T V"
  unfolding tab_frame_def by (metis append_assoc length_0_conv)

lemma frame_refl [simp]: "frame s s"
  by (simp add: frame_def)

lemma frame_trans: "frame s t \<Longrightarrow> frame t u \<Longrightarrow> frame s u"
  unfolding frame_def by (metis order_trans tab_frame_trans)

lemma runsI:
  assumes "\<And>s. m s = Inl OutOfFuel \<or> m' s = m s" and "\<And>s a s'. m s = Inr (a, s') \<Longrightarrow> frame s s'"
  shows "runs m m'"
  using assms unfolding runs_def by blast

lemma runs_frame: "runs m m' \<Longrightarrow> m s = Inr (a, s') \<Longrightarrow> frame s s'"
  unfolding runs_def by blast

lemma runs_fuel: "runs m m' \<Longrightarrow> m s \<noteq> Inl OutOfFuel \<Longrightarrow> m' s = m s"
  unfolding runs_def by blast

lemma runs_sret [run_rules]: "runs (sret a) (sret a)"
  by (rule runsI) (auto simp: sret_def)

lemma runs_slift [run_rules]: "runs (slift r) (slift r)"
  by (rule runsI) (auto simp: slift_def)

lemma runs_tfail [run_rules]: "runs (tfail msg) (tfail msg)"
  unfolding tfail_def by (rule runs_slift)

lemma runs_check [run_rules]: "runs (check c msg) (check c msg)"
  unfolding check_def by (cases c) (simp_all add: run_rules)

lemma runs_sget [run_rules]: "runs (sget f) (sget f)"
  by (rule runsI) (auto simp: sget_def)

lemma runs_at_tab [run_rules]: "runs (at_tab f) (at_tab f)"
  by (rule runsI) (auto simp: at_tab_def)

lemma runs_slift_state: "runs (\<lambda>s. slift (f s) s) (\<lambda>s. slift (f s) s)"
  by (rule runsI) (auto simp: slift_def)

lemma runs_smod:
  assumes "\<And>s. frame s (f s)"
  shows "runs (smod f) (smod f)"
  using assms by (intro runsI) (auto simp: smod_def)

lemma runs_sbind [run_rules]:
  assumes m: "runs m m'" and f: "\<And>a. runs (f a) (f' a)"
  shows "runs (sbind m f) (sbind m' f')"
proof (rule runsI)
  fix s :: tcs
  show "sbind m f s = Inl OutOfFuel \<or> sbind m' f' s = sbind m f s"
  proof (cases "m s")
    case (Inl e)
    then show ?thesis using runs_fuel [OF m, of s] by (cases "e = OutOfFuel") (simp_all add: sbind_def)
  next
    case (Inr r)
    then have "m' s = m s" using runs_fuel [OF m, of s] by simp
    with Inr show ?thesis using f unfolding runs_def by (cases r) (simp add: sbind_def)
  qed
next
  fix s s' :: tcs and b
  assume "sbind m f s = Inr (b, s')"
  then obtain a t where a: "m s = Inr (a, t)" "f a t = Inr (b, s')" by (auto simp: sbind_eq_Inr)
  show "frame s s'" using runs_frame [OF m a(1)] runs_frame [OF f a(2)] by (rule frame_trans)
qed

lemma runs_sdo [run_rules]: "runs m m' \<Longrightarrow> runs k k' \<Longrightarrow> runs (sdo m k) (sdo m' k')"
  unfolding sdo_def by (rule runs_sbind)

lemma runs_if [run_rules]: "(c \<Longrightarrow> runs m m') \<Longrightarrow> (\<not> c \<Longrightarrow> runs k k') \<Longrightarrow> runs (if c then m else k) (if c then m' else k')"
  by simp

lemma runs_prod [run_rules]: "(\<And>x y. runs (f x y) (f' x y)) \<Longrightarrow> runs (case p of (x, y) \<Rightarrow> f x y) (case p of (x, y) \<Rightarrow> f' x y)"
  by (cases p) simp

lemma runs_prod_app [run_rules]:
  "(\<And>x y. runs (f x y z) (f' x y z)) \<Longrightarrow> runs ((case p of (x, y) \<Rightarrow> f x y) z) ((case p of (x, y) \<Rightarrow> f' x y) z)"
  by (cases p) simp

lemma runs_option [run_rules]:
  "(v = None \<Longrightarrow> runs m m') \<Longrightarrow> (\<And>x. v = Some x \<Longrightarrow> runs (f x) (f' x)) \<Longrightarrow>
   runs (case v of None \<Rightarrow> m | Some x \<Rightarrow> f x) (case v of None \<Rightarrow> m' | Some x \<Rightarrow> f' x)"
  by (cases v) simp_all

lemma runs_sum [run_rules]:
  "(\<And>x. runs (f x) (f' x)) \<Longrightarrow> (\<And>x. runs (g x) (g' x)) \<Longrightarrow>
   runs (case v of Inl x \<Rightarrow> f x | Inr x \<Rightarrow> g x) (case v of Inl x \<Rightarrow> f' x | Inr x \<Rightarrow> g' x)"
  by (cases v) simp_all

lemma runs_list [run_rules]:
  "(xs = [] \<Longrightarrow> runs m m') \<Longrightarrow> (\<And>y ys. xs = y # ys \<Longrightarrow> runs (f y ys) (f' y ys)) \<Longrightarrow>
   runs (case xs of [] \<Rightarrow> m | y # ys \<Rightarrow> f y ys) (case xs of [] \<Rightarrow> m' | y # ys \<Rightarrow> f' y ys)"
  by (cases xs) simp_all

lemma runs_let [run_rules]: "(\<And>x. runs (f x) (f' x)) \<Longrightarrow> runs (Let v f) (Let v f')"
  by (simp add: Let_def)

lemma runs_smap [run_rules]: "(\<And>x. x \<in> set xs \<Longrightarrow> runs (f x) (f' x)) \<Longrightarrow> runs (smap f xs) (smap f' xs)"
  by (induction xs) (auto intro!: run_rules)

lemma runs_sfold [run_rules]: "(\<And>x a. runs (f x a) (f' x a)) \<Longrightarrow> runs (sfold f xs a) (sfold f' xs a)"
  by (induction xs arbitrary: a) (auto intro!: run_rules)

lemma runs_seach [run_rules]: "(\<And>x. x \<in> set xs \<Longrightarrow> runs (f x) (f' x)) \<Longrightarrow> runs (seach f xs) (seach f' xs)"
  unfolding seach_def by (intro run_rules)

lemma runs_swhen [run_rules]: "runs m m' \<Longrightarrow> runs (swhen c m) (swhen c m')"
  unfolding swhen_def by (intro run_rules)

lemma runs_require [run_rules]: "runs m m' \<Longrightarrow> runs (require c msg m) (require c msg m')"
  unfolding require_def by (intro run_rules)

lemma runs_bracket:
  assumes m: "runs m m'" and l: "\<And>s t. frame (enter s) t \<Longrightarrow> frame s (leave s t)"
  shows "runs (bracket enter leave m) (bracket enter leave m')"
proof (rule runsI)
  fix s :: tcs
  show "bracket enter leave m s = Inl OutOfFuel \<or> bracket enter leave m' s = bracket enter leave m s"
    using runs_fuel [OF m, of "enter s"] by (cases "m (enter s) = Inl OutOfFuel") (simp_all add: bracket_def)
next
  fix s s' :: tcs and a
  assume "bracket enter leave m s = Inr (a, s')"
  then obtain t where "m (enter s) = Inr (a, t)" "s' = leave s t" by (auto simp: bracket_def)
  then show "frame s s'" using l runs_frame [OF m] by blast
qed

subsection \<open>The combinators\<close>

lemma frameI:
  assumes "walk_context s' = walk_context s" and "tab_frame (tab s) (tab s')"
    and "map fst (fns s') = map fst (fns s)" and "map fst (mths s') = map fst (mths s)"
    and "set (fallible_fns s) \<subseteq> set (fallible_fns s')"
  shows "frame s s'"
  using assms by (simp add: frame_def)

lemma runs_scoped [run_rules]:
  assumes m: "runs m m'"
  shows "runs (scoped m) (scoped m')"
proof (rule runsI)
  fix s :: tcs
  let ?u = "tab_update push_scope s"
  show "scoped m s = Inl OutOfFuel \<or> scoped m' s = scoped m s"
    using runs_fuel [OF m, of ?u]
    by (cases "m ?u = Inl OutOfFuel") (simp_all add: scoped_def sdo_def sbind_def smod_def)
next
  fix s s' :: tcs and a
  let ?u = "tab_update push_scope s"
  assume "scoped m s = Inr (a, s')"
  then obtain t T where t: "m ?u = Inr (a, t)" "pop_scope (tab t) = Inr T" "s' = t\<lparr>tab := T\<rparr>"
    by (auto simp: scoped_def sdo_def sbind_def smod_def on_tab_def sret_def)
  have f: "frame ?u t" by (rule runs_frame [OF m t(1)])
  have u: "tab_frame (push_scope (tab s)) (tab t)" using f by (simp add: frame_def)
  obtain x rest where sc: "scopes (tab t) = x # rest" and T: "T = (tab t)\<lparr>scopes := rest, level := level (tab t) - 1\<rparr>"
    using t(2) by (auto simp: pop_scope_def split: list.splits)
  have "tab_frame (tab s) T"
    using u sc unfolding tab_frame_def T
    by (auto simp: push_scope_def tab_decls_def scope_names_def intro!: exI [of _ "[]"])
  with f t(3) show "frame s s'"
    unfolding frame_def walk_context_def by simp
qed

lemma runs_on_tab:
  assumes "\<And>T T'. f T = Inr T' \<Longrightarrow> tab_frame T T'"
  shows "runs (on_tab f) (on_tab f)"
  using assms by (intro runsI) (auto simp: on_tab_def frame_def walk_context_def)

lemma tab_frame_declare: "declare_symbol x t b i T = Inr T' \<Longrightarrow> tab_frame T T'"
  unfolding declare_symbol_def tab_frame_def tab_decls_def scope_names_def
  by (cases "scopes T") (auto split: if_splits simp: rbind_def has_key_iff update_keys split: sum.splits)

lemma runs_declare_var [run_rules]: "runs (declare_var x t) (declare_var x t)"
  unfolding declare_var_def by (rule runs_on_tab) (rule tab_frame_declare)

lemma runs_declare [run_rules]: "runs (on_tab (declare_symbol x t b i)) (on_tab (declare_symbol x t b i))"
  by (rule runs_on_tab) (rule tab_frame_declare)

lemmas frame_simps = frame_def walk_context_def

lemma runs_in_loop [run_rules]: "runs m m' \<Longrightarrow> runs (in_loop m) (in_loop m')"
  unfolding in_loop_def by (erule runs_bracket) (simp add: frame_simps)

lemma runs_in_defer [run_rules]: "runs m m' \<Longrightarrow> runs (in_defer m) (in_defer m')"
  unfolding in_defer_def by (erule runs_bracket) (simp add: frame_simps)

lemma runs_in_fallible_op [run_rules]: "runs m m' \<Longrightarrow> runs (in_fallible_op m) (in_fallible_op m')"
  unfolding in_fallible_op_def by (erule runs_bracket) (simp add: frame_simps)

lemma runs_outside_fallible_op [run_rules]: "runs m m' \<Longrightarrow> runs (outside_fallible_op m) (outside_fallible_op m')"
  unfolding outside_fallible_op_def by (erule runs_bracket) (simp add: frame_simps)

lemma runs_in_callable [run_rules]: "runs m m' \<Longrightarrow> runs (in_callable r c m) (in_callable r c m')"
  unfolding in_callable_def by (erule runs_bracket) (simp add: frame_simps)

lemma runs_inferring [run_rules]: "runs m m' \<Longrightarrow> runs (inferring c m) (inferring c m')"
  unfolding inferring_def by (erule runs_bracket) (simp add: frame_simps)

lemma runs_resolving_return [run_rules]: "runs m m' \<Longrightarrow> runs (resolving_return c m) (resolving_return c m')"
  unfolding resolving_return_def by (erule runs_bracket) (simp add: frame_simps)

lemma runs_as_default [run_rules]: "runs m m' \<Longrightarrow> runs (as_default m) (as_default m')"
  unfolding as_default_def by (erule runs_bracket) (simp add: frame_simps)

lemma runs_narrowing [run_rules]: "runs m m' \<Longrightarrow> runs (narrowing v m) (narrowing v m')"
proof (cases v)
  case (Some xt)
  assume "runs m m'"
  then have "runs (bracket (narrowed_update (Cons xt)) (\<lambda>_. narrowed_update tl) m)
      (bracket (narrowed_update (Cons xt)) (\<lambda>_. narrowed_update tl) m')"
    by (rule runs_bracket) (simp add: frame_simps)
  with Some show ?thesis by (simp add: narrowing_def)
qed (simp add: narrowing_def)

lemma runs_in_closure [run_rules]:
  assumes m: "runs m m'"
  shows "runs (in_closure n m) (in_closure n m')"
proof (rule runsI)
  fix s :: tcs
  let ?u = "s\<lparr>closures := (level (tab s), []) # closures s\<rparr>"
  show "in_closure n m s = Inl OutOfFuel \<or> in_closure n m' s = in_closure n m s"
    using runs_fuel [OF m, of ?u] by (cases "m ?u = Inl OutOfFuel") (simp_all add: in_closure_def)
next
  fix s s' :: tcs and a
  let ?u = "s\<lparr>closures := (level (tab s), []) # closures s\<rparr>"
  assume "in_closure n m s = Inr (a, s')"
  then obtain t where m_t: "m ?u = Inr (a, t)"
    and rest: "(case closures t of [] \<Rightarrow> Inl IndexError
        | (_, caps) # rest \<Rightarrow> Inr (a, t\<lparr>closures := rest, captured := dict_set n caps (captured t)\<rparr>)) = Inr (a, s')"
    by (cases "m ?u") (auto simp: in_closure_def split: list.split_asm prod.split_asm)
  obtain l caps rest where "closures t = (l, caps) # rest" using rest by (cases "closures t") auto
  with m_t rest have t: "m ?u = Inr (a, t)" "closures t = (l, caps) # rest"
    "s' = t\<lparr>closures := rest, captured := dict_set n caps (captured t)\<rparr>" by simp_all
  have "frame ?u t" by (rule runs_frame [OF m t(1)])
  with t(2,3) show "frame s s'" by (simp add: frame_simps)
qed

lemma runs_set_param_type [run_rules]: "runs (smod (set_param_type p t)) (smod (set_param_type p t))"
  by (rule runs_smod)
    (auto simp: frame_simps set_param_type_def tab_frame_def tab_decls_def scope_names_def Let_def comp_def
      case_prod_unfold)

lemma runs_add_capture [run_rules]: "runs (smod (add_capture x t)) (smod (add_capture x t))"
  by (rule runs_smod) (auto simp: frame_simps add_capture_def split: list.splits)

lemma runs_mark [run_rules]: "runs (smod (fallible_fns_update (List.insert c))) (smod (fallible_fns_update (List.insert c)))"
  by (rule runs_smod) (auto simp: frame_simps)

lemma runs_ret_values [run_rules]: "runs (smod (ret_values_update f)) (smod (ret_values_update f))"
  by (rule runs_smod) (simp add: frame_simps)

lemma runs_ret_void [run_rules]: "runs (smod (ret_void_update f)) (smod (ret_void_update f))"
  by (rule runs_smod) (simp add: frame_simps)

lemma tab_frame_set_global: "tab_frame T (set_global_type x r T)"
proof (cases "scopes T" rule: rev_cases)
  case Nil
  then show ?thesis by (simp add: tab_frame_def set_global_type_def tab_decls_def scope_names_def)
next
  case (snoc ss g)
  have "map fst (map (\<lambda>(y, sy). (y, if y = x then sy\<lparr>sym_type := Some r\<rparr> else sy)) g) = map fst g"
    by (simp add: case_prod_unfold)
  with snoc have "scope_names (set_global_type x r T) = scope_names T"
    by (simp add: set_global_type_def scope_names_def)
  with snoc show ?thesis by (auto simp: tab_frame_def set_global_type_def tab_decls_def)
qed

lemma tab_frame_set_signature: "tab_frame T (set_signature c r T)"
proof (cases c)
  case (CFunction x)
  have "tab_frame T (T\<lparr>fun_sigs := map (\<lambda>(y, g). (y, if y = x then (\<lambda>(_, ps). (Some r, ps)) g else g)) (fun_sigs T)\<rparr>)"
    by (auto simp: tab_frame_def tab_decls_def scope_names_def comp_def case_prod_unfold)
  with CFunction show ?thesis
    unfolding set_signature_def Let_def by (auto intro: tab_frame_trans tab_frame_set_global)
next
  case (CMethod t x)
  have "tab_frame T (T\<lparr>methods := map (\<lambda>(u, ms). (u, if u = t
      then map (\<lambda>(y, g). (y, if y = x then (\<lambda>(_, ps). (Some r, ps)) g else g)) ms else ms)) (methods T)\<rparr>)"
    by (auto simp: tab_frame_def tab_decls_def scope_names_def comp_def case_prod_unfold)
  with CMethod show ?thesis
    unfolding set_signature_def Let_def by (auto intro: tab_frame_trans tab_frame_set_global)
qed (simp_all add: set_signature_def)

lemma runs_set_return_type [run_rules]: "runs (smod (set_return_type c r)) (smod (set_return_type c r))"
  by (rule runs_smod)
    (simp add: frame_simps set_return_type_def tab_frame_set_signature comp_def case_prod_unfold)

lemma runs_require_public [run_rules]: "runs (require_public ow n) (require_public ow n)"
  by (rule runsI) (auto simp: require_public_def slift_def)

lemma runs_check_map_type [run_rules]: "runs (check_map_type ow t) (check_map_type ow t)"
  by (rule runsI) (auto simp: check_map_type_def slift_def)

lemma runs_check_sized_type [run_rules]: "runs (check_sized_type t) (check_sized_type t)"
  by (rule runsI) (auto simp: check_sized_type_def slift_def)

subsection \<open>Every definition of the walk\<close>

lemma runs_w_expr [run_rules]: "proc_le P Q \<Longrightarrow> runs (w_expr P e) (w_expr Q e)"
  by (simp add: proc_le_def)

lemma runs_w_stmts [run_rules]: "proc_le P Q \<Longrightarrow> runs (w_stmts P b ns) (w_stmts Q b ns)"
  by (simp add: proc_le_def)

lemma runs_w_resolve [run_rules]: "proc_le P Q \<Longrightarrow> runs (w_resolve P c) (w_resolve Q c)"
  by (simp add: proc_le_def)

lemma runs_expr [run_rules]: "proc_le P Q \<Longrightarrow> runs (expr P e) (expr Q e)"
  unfolding expr_def by (intro run_rules)

lemma runs_resolved [run_rules]: "proc_le P Q \<Longrightarrow> runs (resolved P c ret) (resolved Q c ret)"
  unfolding resolved_def by (intro run_rules)

lemma runs_implements_all [run_rules]: "proc_le P Q \<Longrightarrow> runs (implements_all P t ms) (implements_all Q t ms)"
  by (induction P t ms rule: implements_all.induct) (auto intro!: run_rules)

lemma runs_pointer [run_rules]:
  "(\<And>r. runs (f r) (f' r)) \<Longrightarrow> runs k k' \<Longrightarrow>
   runs (case t of PointerType r False \<Rightarrow> f r | _ \<Rightarrow> k) (case t of PointerType r False \<Rightarrow> f' r | _ \<Rightarrow> k')"
  by (cases t) (simp_all split: bool.split)

lemma runs_pointer_implements_iface [run_rules]: "proc_le P Q \<Longrightarrow> runs (pointer_implements_iface P t x) (pointer_implements_iface Q t x)"
  unfolding pointer_implements_iface_def by (intro run_rules)

lemma runs_is_assignable_type [run_rules]: "proc_le P Q \<Longrightarrow> runs (is_assignable_type P t u) (is_assignable_type Q t u)"
  unfolding is_assignable_type_def by (intro run_rules)

lemma runs_require_type [run_rules]: "proc_le P Q \<Longrightarrow> runs (require_type P t u c) (require_type Q t u c)"
  unfolding require_type_def by (intro run_rules)

lemma runs_require_param [run_rules]: "proc_le P Q \<Longrightarrow> runs (require_param P t u c) (require_param Q t u c)"
  unfolding require_param_def by (intro run_rules)

lemma runs_merge_value_types [run_rules]: "proc_le P Q \<Longrightarrow> runs (merge_value_types P t u c) (merge_value_types Q t u c)"
  unfolding merge_value_types_def by (intro run_rules)

lemma runs_require_operand [run_rules]: "proc_le P Q \<Longrightarrow> runs (require_operand P t u c) (require_operand Q t u c)"
  unfolding require_operand_def by (intro run_rules)

lemma runs_validate_operator_method [run_rules]: "proc_le P Q \<Longrightarrow> runs (validate_operator_method P t m) (validate_operator_method Q t m)"
  unfolding validate_operator_method_def by (intro run_rules)

lemma runs_validate_unary_operator_method [run_rules]: "proc_le P Q \<Longrightarrow> runs (validate_unary_operator_method P t m) (validate_unary_operator_method Q t m)"
  unfolding validate_unary_operator_method_def by (intro run_rules)

lemma runs_overload [run_rules]: "proc_le P Q \<Longrightarrow> runs (overload P t u m) (overload Q t u m)"
  unfolding overload_def by (intro run_rules)

lemma runs_overload_or_fail [run_rules]: "proc_le P Q \<Longrightarrow> runs (overload_or_fail P opr w t u) (overload_or_fail Q opr w t u)"
  unfolding overload_or_fail_def by (intro run_rules)

lemma runs_equality_type [run_rules]: "proc_le P Q \<Longrightarrow> runs (equality_type P t u) (equality_type Q t u)"
  unfolding equality_type_def by (intro run_rules)

lemma runs_order_type [run_rules]: "proc_le P Q \<Longrightarrow> runs (order_type P opr t u) (order_type Q opr t u)"
  unfolding order_type_def by (intro run_rules)

lemma runs_binary_type [run_rules]: "proc_le P Q \<Longrightarrow> runs (binary_type P opr t u) (binary_type Q opr t u)"
  unfolding binary_type_def by (intro run_rules)

lemma runs_walk_binary [run_rules]: "proc_le P Q \<Longrightarrow> runs (walk_binary P l opr r) (walk_binary Q l opr r)"
  unfolding walk_binary_def by (intro run_rules)

lemma runs_walk_unary [run_rules]: "proc_le P Q \<Longrightarrow> runs (walk_unary P opr e) (walk_unary Q opr e)"
  unfolding walk_unary_def by (intro run_rules)

lemma runs_compound_overload [run_rules]: "proc_le P Q \<Longrightarrow> runs (compound_overload P opr w t u) (compound_overload Q opr w t u)"
  unfolding compound_overload_def by (intro run_rules)

lemma runs_compound_check [run_rules]: "proc_le P Q \<Longrightarrow> runs (compound_check P opr t u) (compound_check Q opr t u)"
  unfolding compound_check_def Let_def by (intro run_rules)

lemma runs_default_arg [run_rules]: "proc_le P Q \<Longrightarrow> runs (default_arg P ps c p as) (default_arg Q ps c p as)"
  unfolding default_arg_def by (intro run_rules)

lemma runs_apply_default_args [run_rules]: "proc_le P Q \<Longrightarrow> runs (apply_default_args P as ps c) (apply_default_args Q as ps c)"
  unfolding apply_default_args_def by (intro run_rules)

lemma runs_check_args [run_rules]: "proc_le P Q \<Longrightarrow> runs (check_args P b c as ps) (check_args Q b c as ps)"
  unfolding check_args_def by (intro run_rules)

lemma runs_check_positional [run_rules]: "proc_le P Q \<Longrightarrow> runs (check_positional P c ts us) (check_positional Q c ts us)"
  unfolding check_positional_def by (intro run_rules)

lemma runs_infer_builtin_call [run_rules]:
  assumes "\<And>t u c. runs (f t u c) (f' t u c)"
  shows "runs (infer_builtin_call f x ts) (infer_builtin_call f' x ts)"
  unfolding infer_builtin_call_def Let_def by (intro run_rules assms)

lemma runs_mark_current_fallible [run_rules]: "runs mark_current_fallible mark_current_fallible"
  unfolding mark_current_fallible_def
  by (intro run_rules) (simp split: callable_ref.split add: run_rules)

lemma runs_function_value [run_rules]: "proc_le P Q \<Longrightarrow> runs (function_value P w x) (function_value Q w x)"
  unfolding function_value_def by (intro run_rules)

lemma runs_walk_identifier [run_rules]: "proc_le P Q \<Longrightarrow> runs (walk_identifier P x) (walk_identifier Q x)"
  unfolding walk_identifier_def by (intro run_rules)

lemma runs_require_handled [run_rules]: "runs (require_handled w f) (require_handled w f)"
  unfolding require_handled_def by (intro run_rules)

lemma runs_walk_declared_call [run_rules]: "proc_le P Q \<Longrightarrow> runs (walk_declared_call E P n x as ret) (walk_declared_call E Q n x as ret)"
  unfolding walk_declared_call_def Let_def by (intro run_rules)

lemma runs_walk_closure_call [run_rules]: "proc_le P Q \<Longrightarrow> runs (walk_closure_call P x ts) (walk_closure_call Q x ts)"
  unfolding walk_closure_call_def
  by (intro run_rules) (simp split: tref.split add: run_rules)

lemma runs_walk_function_call [run_rules]: "proc_le P Q \<Longrightarrow> runs (walk_function_call E P n x as) (walk_function_call E Q n x as)"
  unfolding walk_function_call_def by (intro run_rules)

lemma runs_walk_map_method [run_rules]: "proc_le P Q \<Longrightarrow> runs (walk_map_method P t m ms ts) (walk_map_method Q t m ms ts)"
  unfolding walk_map_method_def by (intro run_rules)

lemma runs_walk_iface_method [run_rules]: "proc_le P Q \<Longrightarrow> runs (walk_iface_method P t m ts) (walk_iface_method Q t m ts)"
  unfolding walk_iface_method_def by (intro run_rules)

lemma runs_walk_struct_method [run_rules]: "proc_le P Q \<Longrightarrow> runs (walk_struct_method P t m as) (walk_struct_method Q t m as)"
  unfolding walk_struct_method_def by (intro run_rules)

lemma runs_walk_method_call [run_rules]: "proc_le P Q \<Longrightarrow> runs (walk_method_call P o1 m as) (walk_method_call Q o1 m as)"
  unfolding walk_method_call_def by (intro run_rules)

lemma runs_infer_block_value [run_rules]: "proc_le P Q \<Longrightarrow> runs (infer_block_value P v ns) (infer_block_value Q v ns)"
  unfolding infer_block_value_def by (intro run_rules)

lemma runs_walk_condition [run_rules]: "proc_le P Q \<Longrightarrow> runs (walk_condition P c) (walk_condition Q c)"
  unfolding walk_condition_def by (cases c) (auto intro!: run_rules)

lemma runs_walk_if [run_rules]: "proc_le P Q \<Longrightarrow> runs (walk_if P c t e) (walk_if Q c t e)"
  unfolding walk_if_def by (intro run_rules)

lemma runs_else_arm [run_rules]: "runs (else_arm w b acc) (else_arm w b acc)"
  unfolding else_arm_def by (intro run_rules)

lemma runs_new_pattern [run_rules]: "runs (new_pattern w p acc) (new_pattern w p acc)"
  unfolding new_pattern_def by (intro run_rules)

lemma runs_match_pattern [run_rules]: "proc_le P Q \<Longrightarrow> runs (match_pattern P st p acc) (match_pattern Q st p acc)"
  unfolding match_pattern_def by (intro run_rules)

lemma runs_arm_body [run_rules]: "proc_le P Q \<Longrightarrow> runs (arm_body P c b acc) (arm_body Q c b acc)"
  unfolding arm_body_def by (intro run_rules)

lemma runs_match_arms [run_rules]:
  assumes "\<And>p acc. runs (f p acc) (f' p acc)" and "\<And>b acc. runs (g b acc) (g' b acc)"
  shows "runs (match_arms w f g arms acc) (match_arms w f' g' arms acc)"
  proof (induction arms arbitrary: acc)
  case (Cons arm arms)
  then show ?case by (cases arm) (auto intro!: run_rules assms)
qed (simp add: run_rules)

lemma runs_check_exhaustive [run_rules]: "runs (check_exhaustive st vs acc) (check_exhaustive st vs acc)"
  unfolding check_exhaustive_def Let_def by (intro run_rules)

lemma runs_infer_match_value [run_rules]: "proc_le P Q \<Longrightarrow> runs (infer_match_value P e arms) (infer_match_value Q e arms)"
  unfolding infer_match_value_def by (intro run_rules)

lemma runs_walk_fallible_expr [run_rules]: "proc_le P Q \<Longrightarrow> runs (walk_fallible_expr P e c) (walk_fallible_expr Q e c)"
  unfolding walk_fallible_expr_def by (intro run_rules)

lemma runs_walk_fallible_call_for_try [run_rules]: "proc_le P Q \<Longrightarrow> runs (walk_fallible_call_for_try P e) (walk_fallible_call_for_try Q e)"
  unfolding walk_fallible_call_for_try_def by (intro run_rules)

lemma runs_walk_fallible_op [run_rules]: "proc_le P Q \<Longrightarrow> runs (walk_fallible_op P e opr) (walk_fallible_op Q e opr)"
  unfolding walk_fallible_op_def by (intro run_rules)

lemma runs_walk_error_handler [run_rules]: "proc_le P Q \<Longrightarrow> runs (walk_error_handler P e x b) (walk_error_handler Q e x b)"
  unfolding walk_error_handler_def by (intro run_rules)

lemma runs_error_pattern [run_rules]: "proc_le P Q \<Longrightarrow> runs (error_pattern P p acc) (error_pattern Q p acc)"
  unfolding error_pattern_def by (intro run_rules)

lemma runs_walk_error_match [run_rules]: "proc_le P Q \<Longrightarrow> runs (walk_error_match P e x arms) (walk_error_match Q e x arms)"
  unfolding walk_error_match_def by (intro run_rules)

lemma runs_require_error_type [run_rules]: "runs (require_error_type t c) (require_error_type t c)"
  unfolding require_error_type_def by (intro run_rules)

lemma runs_walk_return [run_rules]: "proc_le P Q \<Longrightarrow> runs (walk_return P e) (walk_return Q e)"
  unfolding walk_return_def by (intro run_rules)

lemma runs_walk_err_return [run_rules]: "proc_le P Q \<Longrightarrow> runs (walk_err_return P e) (walk_err_return Q e)"
  unfolding walk_err_return_def by (intro run_rules)

lemma runs_walk_magic [run_rules]: "runs (walk_magic x) (walk_magic x)"
  unfolding walk_magic_def by (intro run_rules)

lemma runs_walk_interpolated [run_rules]: "proc_le P Q \<Longrightarrow> runs (walk_interpolated P ps) (walk_interpolated Q ps)"
  unfolding walk_interpolated_def by (intro run_rules)

lemma runs_walk_enum_ref [run_rules]: "runs (walk_enum_ref e v) (walk_enum_ref e v)"
  unfolding walk_enum_ref_def by (intro run_rules)

lemma runs_literal_field [run_rules]: "proc_le P Q \<Longrightarrow> runs (literal_field P x d ft seen) (literal_field Q x d ft seen)"
  unfolding literal_field_def by (intro run_rules)

lemma runs_walk_struct_literal [run_rules]: "proc_le P Q \<Longrightarrow> runs (walk_struct_literal P x fs h) (walk_struct_literal Q x fs h)"
  unfolding walk_struct_literal_def by (intro run_rules)

lemma runs_walk_struct_field [run_rules]: "runs (walk_struct_field t f) (walk_struct_field t f)"
  unfolding walk_struct_field_def by (intro run_rules)

lemma runs_walk_field_access [run_rules]: "proc_le P Q \<Longrightarrow> runs (walk_field_access E P n e f) (walk_field_access E Q n e f)"
  unfolding walk_field_access_def Let_def by (intro run_rules)

lemma runs_walk_elements [run_rules]: "proc_le P Q \<Longrightarrow> runs (walk_elements P w t es) (walk_elements Q w t es)"
  unfolding walk_elements_def by (intro run_rules)

lemma runs_walk_array_literal [run_rules]: "proc_le P Q \<Longrightarrow> runs (walk_array_literal P k t es) (walk_array_literal Q k t es)"
  unfolding walk_array_literal_def by (intro run_rules)

lemma runs_walk_slice_literal [run_rules]: "proc_le P Q \<Longrightarrow> runs (walk_slice_literal P t es) (walk_slice_literal Q t es)"
  unfolding walk_slice_literal_def by (intro run_rules)

lemma runs_map_parts [run_rules]: "runs (map_parts t) (map_parts t)"
  unfolding map_parts_def by (intro run_rules)

lemma runs_walk_entries [run_rules]: "proc_le P Q \<Longrightarrow> runs (walk_entries P kt es) (walk_entries Q kt es)"
  unfolding walk_entries_def by (intro run_rules)

lemma runs_walk_map_literal [run_rules]: "proc_le P Q \<Longrightarrow> runs (walk_map_literal P t es) (walk_map_literal Q t es)"
  unfolding walk_map_literal_def by (intro run_rules)

lemma runs_walk_index [run_rules]: "proc_le P Q \<Longrightarrow> runs (walk_index P e i) (walk_index Q e i)"
  unfolding walk_index_def Let_def
  by (intro run_rules) (auto split: tref.split intro!: run_rules)

lemma runs_walk_slice_expr [run_rules]: "proc_le P Q \<Longrightarrow> runs (walk_slice_expr P e a b) (walk_slice_expr Q e a b)"
  unfolding walk_slice_expr_def by (intro run_rules)

lemma runs_check_param [run_rules]: "proc_le P Q \<Longrightarrow> runs (check_param P g st c p) (check_param Q g st c p)"
  unfolding check_param_def by (intro run_rules)

lemma runs_declare_receiver [run_rules]: "runs (declare_receiver d) (declare_receiver d)"
  unfolding declare_receiver_def by (intro run_rules)

lemma runs_check_tail [run_rules]: "proc_le P Q \<Longrightarrow> runs (check_tail P w ns lt r) (check_tail Q w ns lt r)"
  unfolding check_tail_def by (intro run_rules)

lemma runs_body_returns [run_rules]: "proc_le P Q \<Longrightarrow> runs (body_returns E P c n ps ns w) (body_returns E Q c n ps ns w)"
  unfolding body_returns_def by (intro run_rules)

lemma runs_infer_return_from_body [run_rules]: "proc_le P Q \<Longrightarrow> runs (infer_return_from_body E P c n ps ns w) (infer_return_from_body E Q c n ps ns w)"
  unfolding infer_return_from_body_def by (intro run_rules)

lemma runs_resolve_return [run_rules]: "proc_le P Q \<Longrightarrow> runs (resolve_return E P c) (resolve_return E Q c)"
  unfolding resolve_return_def by (intro run_rules)

lemma runs_declare_expr_param [run_rules]: "runs (declare_expr_param p) (declare_expr_param p)"
  unfolding declare_expr_param_def by (intro run_rules)

lemma runs_walk_function_expr [run_rules]: "proc_le P Q \<Longrightarrow> runs (walk_function_expr E P n ps ret ns e1 e2) (walk_function_expr E Q n ps ret ns e1 e2)"
  unfolding walk_function_expr_def by (intro run_rules)

lemma runs_typed [run_rules]: "runs m m' \<Longrightarrow> runs (typed m) (typed m')"
  unfolding typed_def by (intro run_rules)

lemma runs_never [run_rules]: "runs m m' \<Longrightarrow> runs (never m) (never m')"
  unfolding never_def by (intro run_rules)

lemma runs_walk_expr [run_rules]: "proc_le P Q \<Longrightarrow> runs (walk_expr E P n) (walk_expr E Q n)"
  unfolding walk_expr_def by (cases n) (simp_all add: run_rules)

lemma runs_walk_let [run_rules]: "proc_le P Q \<Longrightarrow> runs (walk_let P x e t) (walk_let Q x e t)"
  unfolding walk_let_def Let_def by (intro run_rules)

lemma runs_check_target_name [run_rules]: "runs (check_target_name n) (check_target_name n)"
  unfolding check_target_name_def by (intro run_rules)

lemma runs_walk_target [run_rules]: "proc_le P Q \<Longrightarrow> runs (walk_target P n) (walk_target Q n)"
  unfolding walk_target_def by (intro run_rules)

lemma runs_walk_assignment [run_rules]: "proc_le P Q \<Longrightarrow> runs (walk_assignment P t e opr) (walk_assignment Q t e opr)"
  unfolding walk_assignment_def by (intro run_rules)

lemma runs_walk_update [run_rules]: "proc_le P Q \<Longrightarrow> runs (walk_update P t opr) (walk_update Q t opr)"
  unfolding walk_update_def by (intro run_rules)

lemma runs_body_of [run_rules]: "proc_le P Q \<Longrightarrow> runs (body_of P ns) (body_of Q ns)"
  unfolding body_of_def by (intro run_rules)

lemma runs_walk_for_condition [run_rules]: "proc_le P Q \<Longrightarrow> runs (walk_for_condition P c ns) (walk_for_condition Q c ns)"
  unfolding walk_for_condition_def by (intro run_rules)

lemma runs_required [run_rules]: "(\<And>x. runs (f x) (f' x)) \<Longrightarrow> runs (required v f) (required v f')"
  unfolding required_def by (intro run_rules)

lemma runs_declare_elements [run_rules]: "runs (declare_elements i v t) (declare_elements i v t)"
  unfolding declare_elements_def by (intro run_rules)

lemma runs_walk_for_in [run_rules]: "proc_le P Q \<Longrightarrow> runs (walk_for_in P i v it ns st e) (walk_for_in Q i v it ns st e)"
  unfolding walk_for_in_def by (intro run_rules)

lemma runs_walk_try [run_rules]: "proc_le P Q \<Longrightarrow> runs (walk_try P c ns x y b) (walk_try Q c ns x y b)"
  unfolding walk_try_def by (intro run_rules)

lemma runs_walk_struct_decl [run_rules]: "runs (walk_struct_decl n x fs es) (walk_struct_decl n x fs es)"
  unfolding walk_struct_decl_def by (intro run_rules)

lemma runs_check_signature_type [run_rules]: "runs (check_signature_type d t) (check_signature_type d t)"
  unfolding check_signature_type_def by (intro run_rules)

lemma runs_walk_function [run_rules]: "proc_le P Q \<Longrightarrow> runs (walk_function E P b d) (walk_function E Q b d)"
  unfolding walk_function_def Let_def by (intro run_rules)

lemma runs_walk_spawn [run_rules]: "proc_le P Q \<Longrightarrow> runs (walk_spawn P f) (walk_spawn Q f)"
  unfolding walk_spawn_def by (cases f) (simp_all add: run_rules)

lemma runs_walk_stmt [run_rules]: "proc_le P Q \<Longrightarrow> runs (walk_stmt E P b n) (walk_stmt E Q b n)"
  unfolding walk_stmt_def by (cases n) (auto intro!: run_rules)

lemma runs_walk_stmts [run_rules]: "proc_le P Q \<Longrightarrow> runs (walk_stmts E P b ns) (walk_stmts E Q b ns)"
  by (induction E P b ns rule: walk_stmts.induct) (auto intro!: run_rules)

subsection \<open>The fuel and the frame\<close>

lemma run_Suc:
  "run_expr E (Suc n) e = walk_expr E (procs_at E n) e"
  "run_stmts E (Suc n) b ns = walk_stmts E (procs_at E n) b ns"
  "run_resolve E (Suc n) c = resolve_return E (procs_at E n) c"
  by (simp_all add: procs_at_def fun_eq_iff)

lemma procs_at_simps [simp]:
  "w_expr (procs_at E n) = run_expr E n" "w_stmts (procs_at E n) = run_stmts E n"
  "w_resolve (procs_at E n) = run_resolve E n"
  by (simp_all add: procs_at_def)

lemma runs_no_fuel: "(\<And>s. m s = Inl OutOfFuel) \<Longrightarrow> runs m m'"
  by (rule runsI) simp_all

lemma procs_le: "n \<le> k \<Longrightarrow> proc_le (procs_at E n) (procs_at E k)"
proof (induction n arbitrary: k)
  case 0
  show ?case unfolding proc_le_def by (auto intro: runs_no_fuel)
next
  case (Suc n)
  then obtain j where k: "k = Suc j" and le: "n \<le> j" by (cases k) auto
  show ?case
    using Suc.IH [OF le] unfolding proc_le_def [of "procs_at E (Suc n)"] k procs_at_simps run_Suc
    by (auto intro: run_rules)
qed

definition fuel_le :: "'a res \<Rightarrow> 'a res \<Rightarrow> bool" where
  "fuel_le r r' \<longleftrightarrow> r = Inl OutOfFuel \<or> r' = r"

named_theorems fuel_rules \<open>rules for the relation between results with different fuel\<close>

lemma fuel_refl [fuel_rules]: "fuel_le r r"
  by (simp add: fuel_le_def)

lemma fuel_Inl: "fuel_le (Inl OutOfFuel) r"
  by (simp add: fuel_le_def)

lemma fuel_rbind [fuel_rules]:
  assumes "fuel_le m m'" and "\<And>x. fuel_le (f x) (f' x)"
  shows "fuel_le (rbind m f) (rbind m' f')"
proof (cases m)
  case (Inl e)
  with assms(1) show ?thesis by (cases "e = OutOfFuel") (simp_all add: fuel_le_def)
next
  case (Inr x)
  with assms(1) have "m' = Inr x" by (simp add: fuel_le_def)
  with Inr assms(2) show ?thesis by simp
qed

lemma fuel_rmap [fuel_rules]: "(\<And>x. fuel_le (f x) (g x)) \<Longrightarrow> fuel_le (rmap f xs) (rmap g xs)"
  by (induction xs) (auto intro!: fuel_rules)

lemma fuel_rfold [fuel_rules]: "(\<And>x s. fuel_le (f x s) (g x s)) \<Longrightarrow> fuel_le (rfold f xs s) (rfold g xs s)"
  by (induction xs arbitrary: s) (auto intro!: fuel_rules)

lemma fuel_if [fuel_rules]:
  "(c \<Longrightarrow> fuel_le a a') \<Longrightarrow> (\<not> c \<Longrightarrow> fuel_le b b') \<Longrightarrow> fuel_le (if c then a else b) (if c then a' else b')"
  by simp

lemma fuel_prod [fuel_rules]: "(\<And>x y. fuel_le (f x y) (g x y)) \<Longrightarrow> fuel_le (case p of (x, y) \<Rightarrow> f x y) (case p of (x, y) \<Rightarrow> g x y)"
  by (cases p) simp

lemma fuel_prod_app [fuel_rules]:
  "(\<And>x y. fuel_le (f x y z) (g x y z)) \<Longrightarrow> fuel_le ((case p of (x, y) \<Rightarrow> f x y) z) ((case p of (x, y) \<Rightarrow> g x y) z)"
  by (cases p) simp

lemma fuel_option [fuel_rules]:
  "fuel_le a a' \<Longrightarrow> (\<And>x. fuel_le (f x) (f' x)) \<Longrightarrow>
   fuel_le (case v of None \<Rightarrow> a | Some x \<Rightarrow> f x) (case v of None \<Rightarrow> a' | Some x \<Rightarrow> f' x)"
  by (cases v) simp_all

lemma fuel_sum [fuel_rules]:
  "(\<And>x. fuel_le (f x) (f' x)) \<Longrightarrow> (\<And>x. fuel_le (g x) (g' x)) \<Longrightarrow>
   fuel_le (case v of Inl x \<Rightarrow> f x | Inr x \<Rightarrow> g x) (case v of Inl x \<Rightarrow> f' x | Inr x \<Rightarrow> g' x)"
  by (cases v) simp_all

lemma fuel_resolve [fuel_rules]:
  "n \<le> k \<Longrightarrow> fuel_le (resolve_struct_method n T t m seen) (resolve_struct_method k T t m seen)"
proof (induction n arbitrary: k t seen)
  case (Suc n)
  then obtain j where k: "k = Suc j" and le: "n \<le> j" by (cases k) auto
  show ?case unfolding k resolve_struct_method.simps by (intro fuel_rules Suc.IH [OF le])
qed (simp add: fuel_Inl)

lemma fuel_constraints:
  assumes "n \<le> k"
  shows "fuel_le (validate_generic_constraints n T cs b w x) (validate_generic_constraints k T cs b w x)"
  unfolding validate_generic_constraints_def constraint_error_type_def ord_error_type_def
  by (intro fuel_rules assms)

lemma runs_check_constraints [run_rules]: "n \<le> k \<Longrightarrow> runs (check_constraints E n d) (check_constraints E k d)"
proof -
  assume "n \<le> k"
  note f = fuel_constraints [OF this]
  obtain cs b w x where g: "generic_info E d = (cs, b, w, x)" by (cases "generic_info E d") auto
  show ?thesis
  proof (rule runsI)
    show "check_constraints E n d s = Inl OutOfFuel \<or> check_constraints E k d s = check_constraints E n d s" for s
      using f [of "tab s" cs b w x] unfolding fuel_le_def check_constraints_def g at_tab_def by auto
  qed (auto simp: check_constraints_def g at_tab_def)
qed

lemma runs_validate_function_defaults [run_rules]:
  "proc_le P Q \<Longrightarrow> runs (validate_function_defaults E P d) (validate_function_defaults E Q d)"
  unfolding validate_function_defaults_def by (intro run_rules)

lemma runs_mark_fallible [run_rules]: "runs (mark_fallible d) (mark_fallible d)"
  unfolding mark_fallible_def by (intro run_rules)

lemma runs_check_err_marker [run_rules]: "runs (check_err_marker d) (check_err_marker d)"
  unfolding check_err_marker_def by (intro run_rules)

text \<open>The phases of the pass after the declarations are collected.\<close>

definition collect :: "node list \<Rightarrow> tcs \<Rightarrow> tcs res" where
  "collect decls s = rfold collect_decl decls s"

definition phases :: "cenv \<Rightarrow> nat \<Rightarrow> node list \<Rightarrow> tref option tc" where
  "phases E n stmts =
     (let P = procs_at E n; decls = filter is_function_decl stmts in
      sdo (seach (check_constraints E n) (filter (\<lambda>d. is_function_decl d \<or> is_struct_decl d) stmts))
      (sdo (seach (validate_function_defaults E P) decls)
      (sdo (seach mark_fallible decls)
      (sdo (seach check_err_marker decls)
      (sdo (seach (\<lambda>d. sbind (w_resolve P (callable_of d)) (\<lambda>_. sret ())) decls)
      (w_stmts P True stmts))))))"

lemma infer_types_phases:
  "infer_types E n stmts T = rbind (collect (filter is_function_decl stmts) (initial_tcs T)) (\<lambda>s.
     rbind (phases E n stmts s) (\<lambda>(_, s). Inr s))"
  unfolding infer_types_def check_program_def phases_def collect_def Let_def sdo_def sbind_def
  by (simp add: rbind_assoc)

lemma runs_phases: "n \<le> k \<Longrightarrow> runs (phases E n stmts) (phases E k stmts)"
  unfolding phases_def Let_def by (intro run_rules procs_le)

subsection \<open>Handled errors\<close>

text \<open>A computation that only marks its result as fallible inside an operator that handles errors.\<close>

definition flagged :: "(tref \<times> bool) tc \<Rightarrow> bool" where
  "flagged m \<longleftrightarrow> (\<forall>s t s'. m s = Inr ((t, True), s') \<longrightarrow> 0 < fallible_depth s)"

named_theorems flag_rules \<open>rules for the mark of fallible calls\<close>

lemma frame_fallible_depth: "frame s s' \<Longrightarrow> fallible_depth s' = fallible_depth s"
  by (simp add: frame_simps)

lemma flagged_sbind:
  assumes m: "runs m m" and f: "\<And>a. flagged (f a)"
  shows "flagged (sbind m f)"
  unfolding flagged_def sbind_eq_Inr
  using f runs_frame [OF m] frame_fallible_depth unfolding flagged_def by metis

lemma flagged_sdo: "runs m m \<Longrightarrow> flagged k \<Longrightarrow> flagged (sdo m k)"
  unfolding sdo_def by (rule flagged_sbind)

lemma flagged_false [flag_rules]: "flagged (sret (t, False))" "flagged (slift (Inl e))" "flagged (tfail msg)"
  by (simp_all add: flagged_def sret_def tfail_def slift_def fail_def)

lemma flagged_typed [flag_rules]: "flagged (typed m)"
  by (auto simp: flagged_def typed_def sbind_eq_Inr sret_def)

lemma flagged_never [flag_rules]: "flagged (never m)"
  by (auto simp: flagged_def never_def sdo_def sbind_eq_Inr sret_def)

lemma require_handled_depth: "require_handled w True s = Inr (u, s') \<Longrightarrow> s' = s \<and> 0 < fallible_depth s"
  by (cases "fallible_depth s")
    (auto simp: require_handled_def sbind_eq_Inr sget_def check_def tfail_def slift_def fail_def sret_def)

lemma flagged_handled:
  "flagged (sdo (require_handled w f) (sbind m (\<lambda>t. sret (t, f))))"
  "flagged (sdo (require_handled w f) (sret (t, f)))"
  unfolding flagged_def sdo_def sbind_eq_Inr by (auto simp: sret_def dest: require_handled_depth)

lemma flagged_if: "(c \<Longrightarrow> flagged a) \<Longrightarrow> (\<not> c \<Longrightarrow> flagged b) \<Longrightarrow> flagged (if c then a else b)"
  by simp

lemma flagged_option: "flagged a \<Longrightarrow> (\<And>x. flagged (f x)) \<Longrightarrow> flagged (case v of None \<Rightarrow> a | Some x \<Rightarrow> f x)"
  by (cases v) simp_all

lemma flagged_prod: "(\<And>x y. flagged (f x y)) \<Longrightarrow> flagged (case p of (x, y) \<Rightarrow> f x y)"
  by (cases p) simp

lemma flagged_prod_app: "(\<And>x y. flagged (f x y z)) \<Longrightarrow> flagged ((case p of (x, y) \<Rightarrow> f x y) z)"
  by (cases p) simp

lemma flagged_list: "flagged a \<Longrightarrow> (\<And>y ys. flagged (f y ys)) \<Longrightarrow> flagged (case xs of [] \<Rightarrow> a | y # ys \<Rightarrow> f y ys)"
  by (cases xs) simp_all

lemma flagged_sum: "(\<And>x. flagged (f x)) \<Longrightarrow> (\<And>x. flagged (g x)) \<Longrightarrow> flagged (case v of Inl x \<Rightarrow> f x | Inr x \<Rightarrow> g x)"
  by (cases v) simp_all

lemmas flag_steps = flagged_handled flag_rules flagged_sbind flagged_sdo flagged_if flagged_option flagged_prod
  flagged_prod_app flagged_list flagged_sum

lemma flagged_declared_call [flag_rules]: "proc_le P P \<Longrightarrow> flagged (walk_declared_call E P n x as ret)"
  unfolding walk_declared_call_def Let_def by (rule flag_steps | intro run_rules | assumption)+

lemma flagged_closure_call [flag_rules]: "proc_le P P \<Longrightarrow> flagged (walk_closure_call P x ts)"
  unfolding walk_closure_call_def
  by (rule flag_steps | intro run_rules | assumption)+
    (auto split: tref.split intro!: flag_rules flagged_sdo run_rules)

lemma flagged_function_call [flag_rules]: "proc_le P P \<Longrightarrow> flagged (walk_function_call E P n x as)"
  unfolding walk_function_call_def by (rule flag_steps flagged_declared_call flagged_closure_call | intro run_rules | assumption)+

lemma flagged_methods [flag_rules]:
  "proc_le P P \<Longrightarrow> flagged (walk_map_method P ot m ms ts)"
  "proc_le P P \<Longrightarrow> flagged (walk_iface_method P ot m ts)"
  "proc_le P P \<Longrightarrow> flagged (walk_struct_method P ot m as)"
  unfolding walk_map_method_def walk_iface_method_def walk_struct_method_def
  by (rule flag_steps | intro run_rules | assumption)+

lemma flagged_method_call [flag_rules]: "proc_le P P \<Longrightarrow> flagged (walk_method_call P obj m as)"
  unfolding walk_method_call_def by (rule flag_steps flagged_methods | intro run_rules | assumption)+

lemma flagged_walk_expr: "proc_le P P \<Longrightarrow> flagged (walk_expr E P n)"
  unfolding walk_expr_def by (cases n) (simp_all add: flag_rules)

lemma proc_le_refl: "proc_le (procs_at E n) (procs_at E n)"
  by (rule procs_le) simp

subsection \<open>Sample programs\<close>

text \<open>A program without marks of earlier passes, and what the two passes over it raise.\<close>

definition plain_env :: cenv where
  "plain_env = \<lparr>trusted_node = \<lambda>_. False, trusted_decl = \<lambda>_. False, erased_args = \<lambda>_. None,
     erased_template = \<lambda>_. None, generic_origin = \<lambda>_. False, generic_info = \<lambda>_. ([], False, [], [])\<rparr>"

definition outcome :: "nat \<Rightarrow> node list \<Rightarrow> exn option" where
  "outcome n stmts =
     (case rbind (build_symbol_table stmts) (infer_types plain_env n stmts) of Inl e \<Rightarrow> Some e | Inr _ \<Rightarrow> None)"

abbreviation t_i32 :: tref where "t_i32 \<equiv> NamedType ''i32''"
abbreviation t_void :: tref where "t_void \<equiv> NamedType ''void''"

definition var :: "string \<Rightarrow> node" where
  "var x = Identifier None x []"

definition lit :: "nat \<Rightarrow> node" where
  "lit k = IntegerLiteral None k None"

definition call :: "string \<Rightarrow> node list \<Rightarrow> node" where
  "call f as = FunctionCall None f as []"

definition let_var :: "string \<Rightarrow> node \<Rightarrow> node" where
  "let_var x e = VariableDeclaration None x e None"

definition ret :: "node \<Rightarrow> node" where
  "ret e = Return None (Some e)"

definition fun_decl :: "string \<Rightarrow> node param list \<Rightarrow> tref option \<Rightarrow> node list \<Rightarrow> node" where
  "fun_decl f ps r body =
     FunctionDeclaration f ps r (Block body) None None (r \<noteq> None) [] [] False None False None"

lemmas sample_defs = var_def lit_def call_def let_var_def ret_def fun_decl_def

subsection \<open>Claims\<close>

text \<open>
  C9: A walk over statements leaves the context as it found it (result type, current function, loop,
  error and defer depth, open closures, functions being resolved, narrowed names, the mark of default
  arguments), the outer scopes with the same names, the current scope with its names and perhaps more
  after them, and the declared types; the functions known to be fallible only grow.
\<close>

theorem walk_restores:
  assumes "run_stmts E n is_top ns s = Inr (t, s')"
  shows "walk_context s' = walk_context s \<and> tab_decls (tab s') = tab_decls (tab s)
     \<and> level (tab s') = level (tab s) \<and> tl (scope_names (tab s')) = tl (scope_names (tab s))
     \<and> (scopes (tab s) \<noteq> [] \<longrightarrow> (\<exists>xs. hd (scope_names (tab s')) = hd (scope_names (tab s)) @ xs))
     \<and> map fst (fns s') = map fst (fns s) \<and> map fst (mths s') = map fst (mths s)
     \<and> set (fallible_fns s) \<subseteq> set (fallible_fns s')"
proof -
  have "proc_le (procs_at E n) (procs_at E n)" by (rule proc_le_refl)
  then have "runs (run_stmts E n is_top ns) (run_stmts E n is_top ns)" by (simp add: proc_le_def)
  then have "frame s s'" using assms by (rule runs_frame)
  then show ?thesis unfolding frame_def tab_frame_def by blast
qed

definition walk_sample :: "node list" where
  "walk_sample = [let_var ''x'' (lit 1), ForCondition (BoolLiteral None True) (Block [let_var ''y'' (var ''x''), Break None])]"

lemma walk_sample_runs: "case run_stmts plain_env 5 False walk_sample (initial_tcs initial_symtab) of Inl _ \<Rightarrow> False | Inr _ \<Rightarrow> True"
  by code_simp

theorem walk_restores_witness:
  "\<exists>t s'. run_stmts plain_env 5 False walk_sample (initial_tcs initial_symtab) = Inr (t, s')
     \<and> walk_context s' = walk_context (initial_tcs initial_symtab)"
proof -
  obtain r where r: "run_stmts plain_env 5 False walk_sample (initial_tcs initial_symtab) = Inr r"
    using walk_sample_runs by (cases "run_stmts plain_env 5 False walk_sample (initial_tcs initial_symtab)") auto
  obtain t s' where "r = (t, s')" by (cases r)
  with r walk_restores [of plain_env 5 False walk_sample "initial_tcs initial_symtab" t s'] show ?thesis by blast
qed

text \<open>
  The fuel is not observable: when the pass answers, with types or with an error, it gives the same
  answer with any more fuel.
\<close>

theorem fuel_irrelevant:
  assumes "infer_types E n stmts T \<noteq> Inl OutOfFuel" and "n \<le> k"
  shows "infer_types E k stmts T = infer_types E n stmts T"
proof (cases "collect (filter is_function_decl stmts) (initial_tcs T)")
  case (Inr s)
  have "phases E n stmts s \<noteq> Inl OutOfFuel" using assms(1) Inr by (auto simp: infer_types_phases)
  then have "phases E k stmts s = phases E n stmts s" by (rule runs_fuel [OF runs_phases [OF assms(2)]])
  with Inr show ?thesis by (simp add: infer_types_phases)
qed (simp add: infer_types_phases)

definition fuel_sample :: "node list" where
  "fuel_sample = [fun_decl ''f'' [Param ''a'' (Some t_i32) None] None [ret (var ''a'')]]"

lemma fuel_sample_runs:
  "case rbind (build_symbol_table fuel_sample) (infer_types plain_env 8 fuel_sample) of Inl _ \<Rightarrow> False | Inr _ \<Rightarrow> True"
  by code_simp

theorem fuel_irrelevant_witness:
  "\<exists>T s. build_symbol_table fuel_sample = Inr T \<and> infer_types plain_env 8 fuel_sample T = Inr s
     \<and> infer_types plain_env 100 fuel_sample T = Inr s"
proof -
  obtain T where T: "build_symbol_table fuel_sample = Inr T"
    using fuel_sample_runs by (cases "build_symbol_table fuel_sample") auto
  with fuel_sample_runs obtain s where s: "infer_types plain_env 8 fuel_sample T = Inr s"
    by (cases "infer_types plain_env 8 fuel_sample T") auto
  have "infer_types plain_env 100 fuel_sample T = infer_types plain_env 8 fuel_sample T"
    by (rule fuel_irrelevant) (simp_all add: s)
  with T s show ?thesis by auto
qed

text \<open>
  C8: An expression that is marked as a fallible call is only accepted while an operator that handles
  errors is open: outside of \<open>??\<close>, \<open>!!\<close>, \<open>err?\<close>, \<open>match?\<close> and \<open>try\<close> no accepted expression carries
  the mark.
\<close>

theorem fallible_calls_handled:
  assumes "run_expr E n e s = Inr ((t, fallible), s')" and "fallible"
  shows "0 < fallible_depth s"
proof (cases n)
  case (Suc m)
  have "flagged (walk_expr E (procs_at E m) e)" by (rule flagged_walk_expr [OF proc_le_refl])
  with assms show ?thesis by (auto simp: Suc run_Suc flagged_def simp del: run_expr.simps)
qed (use assms in simp)

definition handled_state :: tcs where
  "handled_state =
     (let h = fun_decl ''h'' [] (Some t_i32) [ErrReturn None (StringLiteral None [])] in
      (initial_tcs (initial_symtab\<lparr>fun_sigs := [(''h'', (Some t_i32, []))]\<rparr>))
        \<lparr>fns := [(''h'', h)], fallible_fns := [CFunction ''h''], fallible_depth := 1\<rparr>)"

lemma handled_sample_runs:
  "case run_expr plain_env 4 (call ''h'' []) handled_state of Inl _ \<Rightarrow> False | Inr ((t, fallible), _) \<Rightarrow> fallible"
  by code_simp

theorem fallible_calls_handled_witness:
  "\<exists>t s'. run_expr plain_env 4 (call ''h'' []) handled_state = Inr ((t, True), s') \<and> 0 < fallible_depth handled_state"
proof -
  obtain t fallible s' where r: "run_expr plain_env 4 (call ''h'' []) handled_state = Inr ((t, fallible), s')" and f: "fallible"
    using handled_sample_runs by (cases "run_expr plain_env 4 (call ''h'' []) handled_state") auto
  with fallible_calls_handled [OF r f] show ?thesis by auto
qed

text \<open>The arms a loop over them has accepted.\<close>

definition arm_patterns :: "(node option \<times> node) list \<Rightarrow> node list" where
  "arm_patterns arms = concat (map (\<lambda>(p, _). kids_opt p) arms)"

lemma arm_patterns_simps [simp]:
  "arm_patterns [] = []"
  "arm_patterns ((None, b) # arms) = arm_patterns arms"
  "arm_patterns ((Some p, b) # arms) = p # arm_patterns arms"
  by (simp_all add: arm_patterns_def kids_opt_def)

lemma arm_patterns_mem: "p \<in> set (arm_patterns arms) \<longleftrightarrow> (\<exists>b. (Some p, b) \<in> set arms)"
  by (induction arms rule: list.induct) (auto simp: arm_patterns_def kids_opt_def split: option.splits)

definition same_arms :: "arms_seen \<Rightarrow> arms_seen \<Rightarrow> bool" where
  "same_arms a b \<longleftrightarrow> seen_else b = seen_else a \<and> seen_patterns b = seen_patterns a \<and> seen_variants b = seen_variants a"

definition adds_pattern :: "node \<Rightarrow> arms_seen \<Rightarrow> arms_seen \<Rightarrow> bool" where
  "adds_pattern p a b \<longleftrightarrow>
     (\<exists>k. match_pattern_key p = Inr k \<and> k \<notin> set (seen_patterns a)
        \<and> b = a\<lparr>seen_patterns := k # seen_patterns a, seen_variants := pattern_variant p @ seen_variants a\<rparr>)"

lemma check_Inr: "check c msg s = Inr (u, s') \<longleftrightarrow> c \<and> s' = s"
  by (auto simp: check_def sret_def tfail_def slift_def fail_def)

lemma sdo_Inr: "sdo m k s = Inr r \<longleftrightarrow> (\<exists>u s1. m s = Inr (u, s1) \<and> k s1 = Inr r)"
  by (auto simp: sdo_def sbind_eq_Inr)

lemma slift_Inr: "slift v s = Inr (a, s') \<longleftrightarrow> v = Inr a \<and> s' = s"
  by (auto simp: slift_def)

lemma new_pattern_adds: "new_pattern w p acc s = Inr (acc', s') \<Longrightarrow> adds_pattern p acc acc'"
  unfolding new_pattern_def by (auto simp: sbind_eq_Inr sdo_Inr slift_Inr check_Inr sret_eq_Inr adds_pattern_def)

lemma match_pattern_adds: "match_pattern P st p acc s = Inr (acc', s') \<Longrightarrow> adds_pattern p acc acc'"
  unfolding match_pattern_def by (auto simp: sbind_eq_Inr sdo_Inr dest: new_pattern_adds)

lemma arm_body_same: "arm_body P c b acc s = Inr (acc', s') \<Longrightarrow> same_arms acc acc'"
  unfolding arm_body_def by (auto simp: sbind_eq_Inr sret_eq_Inr same_arms_def)

definition arms_accepted :: "(node option \<times> node) list \<Rightarrow> arms_seen \<Rightarrow> arms_seen \<Rightarrow> bool" where
  "arms_accepted arms acc acc' \<longleftrightarrow>
    (\<forall>arm \<in> set (butlast arms). fst arm \<noteq> None)
    \<and> (seen_else acc' \<longrightarrow> seen_else acc \<or> arms \<noteq> [] \<and> fst (last arms) = None)
    \<and> set (seen_variants acc') = set (seen_variants acc) \<union> (\<Union>p \<in> set (arm_patterns arms). set (pattern_variant p))
    \<and> (\<exists>ks. map match_pattern_key (arm_patterns arms) = map Inr ks \<and> distinct ks \<and> set ks \<inter> set (seen_patterns acc) = {})"

lemma match_arms_seen:
  assumes "match_arms w f g arms acc s = Inr (acc', s')"
    and f: "\<And>p acc s acc' s'. f p acc s = Inr (acc', s') \<Longrightarrow> adds_pattern p acc acc'"
    and g: "\<And>b acc s acc' s'. g b acc s = Inr (acc', s') \<Longrightarrow> same_arms acc acc'"
  shows "arms_accepted arms acc acc'"
  using assms(1) unfolding arms_accepted_def
proof (induction arms arbitrary: acc s)
  case Nil
  then show ?case by (simp add: sret_eq_Inr)
next
  case (Cons arm arms)
  obtain p b where arm: "arm = (p, b)" by (cases arm)
  obtain acc1 s1 acc2 s2 where ne: "\<not> seen_else acc"
    and pat: "(case p of None \<Rightarrow> else_arm w (arms = []) acc | Some q \<Rightarrow> f q acc) s = Inr (acc1, s1)"
    and body: "g b acc1 s1 = Inr (acc2, s2)" and rest: "match_arms w f g arms acc2 s2 = Inr (acc', s')"
    using Cons.prems unfolding arm match_arms.simps by (auto simp: sdo_Inr sbind_eq_Inr check_Inr)
  note ih = Cons.IH [OF rest]
  have same: "seen_else acc2 = seen_else acc1" "seen_patterns acc2 = seen_patterns acc1" "seen_variants acc2 = seen_variants acc1"
    using g [OF body] by (simp_all add: same_arms_def)
  show ?case
  proof (cases p)
    case None
    with pat have "arms = []" "acc1 = acc\<lparr>seen_else := True\<rparr>"
      by (auto simp: else_arm_def sdo_Inr check_Inr sret_eq_Inr)
    with ih same show ?thesis unfolding arm None by simp
  next
    case (Some q)
    with pat f obtain k where k: "match_pattern_key q = Inr k" "k \<notin> set (seen_patterns acc)"
      and acc1: "acc1 = acc\<lparr>seen_patterns := k # seen_patterns acc, seen_variants := pattern_variant q @ seen_variants acc\<rparr>"
      unfolding adds_pattern_def by fastforce
    obtain ks where ks: "map match_pattern_key (arm_patterns arms) = map Inr ks" "distinct ks"
        "set ks \<inter> set (seen_patterns acc2) = {}"
      using ih by blast
    have "map match_pattern_key (arm_patterns (arm # arms)) = map Inr (k # ks) \<and> distinct (k # ks)
        \<and> set (k # ks) \<inter> set (seen_patterns acc) = {}"
      using ks k same acc1 unfolding arm Some by auto
    moreover have "seen_else acc' \<longrightarrow> fst (last (arm # arms)) = None"
      using ih same acc1 ne by (cases arms) auto
    moreover have "\<forall>a \<in> set (butlast (arm # arms)). fst a \<noteq> None"
      using ih unfolding arm Some by (cases arms) auto
    moreover have "set (seen_variants acc') = set (seen_variants acc)
        \<union> (\<Union>p \<in> set (arm_patterns (arm # arms)). set (pattern_variant p))"
      using ih same acc1 unfolding arm Some by auto
    ultimately show ?thesis by blast
  qed
qed

text \<open>
  C10: An accepted \<open>match\<close> has \<open>else\<close> at most as its last arm and patterns with pairwise different keys.
  Without \<open>else\<close> the scrutinee has the type of an enum, and every variant of it is the variant of a
  pattern.
\<close>

theorem match_exhaustive:
  assumes "run_expr E n (MatchExpr sp e arms) s = Inr (r, s')"
  shows "(\<forall>arm \<in> set (butlast arms). fst arm \<noteq> None)
    \<and> (\<exists>ks. map match_pattern_key (arm_patterns arms) = map Inr ks \<and> distinct ks)
    \<and> (fst (last arms) = None
       \<or> (\<exists>m st flag s1 vs. n = Suc m \<and> run_expr E m e s = Inr ((st, flag), s1)
            \<and> map_of (enums (tab s)) (type_key st) = Some vs
            \<and> (\<forall>v \<in> set vs. \<exists>en b. (Some (EnumRef en v), b) \<in> set arms)))"
proof -
  obtain m where n: "n = Suc m" using assms by (cases n) auto
  let ?P = "procs_at E m"
  have "typed (infer_match_value ?P e arms) s = Inr (r, s')"
    using assms unfolding n run_Suc by (simp add: walk_expr_def)
  then obtain t where "infer_match_value ?P e arms s = Inr (t, s')"
    by (auto simp: typed_def sbind_eq_Inr sret_eq_Inr)
  then obtain st s1 acc s2 u where sc: "expr ?P e s = Inr (st, s1)"
    and arms: "match_arms ''match expression'' (match_pattern ?P st) (arm_body ?P ''match expression arms'') arms
        (no_arms None) s1 = Inr (acc, s2)"
    and ex: "check_exhaustive st (if named st ''error'' then None else scrutinee_variants st (tab s1)) acc s2 = Inr (u, s')"
    unfolding infer_match_value_def by (auto simp: sbind_eq_Inr sdo_Inr check_Inr sget_def sret_eq_Inr)
  have "arms_accepted arms (no_arms None) acc"
    by (rule match_arms_seen [OF arms]) (erule match_pattern_adds arm_body_same)+
  then have seen: "(\<forall>arm \<in> set (butlast arms). fst arm \<noteq> None)"
      "seen_else acc \<longrightarrow> arms \<noteq> [] \<and> fst (last arms) = None"
      "set (seen_variants acc) = (\<Union>p \<in> set (arm_patterns arms). set (pattern_variant p))"
      "\<exists>ks. map match_pattern_key (arm_patterns arms) = map Inr ks \<and> distinct ks"
    unfolding arms_accepted_def no_arms_def by auto
  have run: "\<exists>flag. run_expr E m e s = Inr ((st, flag), s1)"
    using sc by (auto simp: expr_def sbind_eq_Inr sret_eq_Inr)
  have "runs (expr ?P e) (expr ?P e)" by (rule runs_expr [OF proc_le_refl])
  from runs_frame [OF this sc] have enums: "enums (tab s1) = enums (tab s)"
    by (simp add: frame_def tab_frame_def tab_decls_def)
  have "\<exists>vs. map_of (enums (tab s)) (type_key st) = Some vs \<and> (\<forall>v \<in> set vs. \<exists>en b. (Some (EnumRef en v), b) \<in> set arms)"
    if "fst (last arms) \<noteq> None"
  proof -
    have ne: "\<not> seen_else acc" using seen(2) that by blast
    with ex obtain vs where vs: "scrutinee_variants st (tab s1) = Some vs"
      and missing: "filter (\<lambda>v. v \<notin> set (seen_variants acc)) vs = []"
      unfolding check_exhaustive_def by (auto simp: Let_def check_Inr tfail_def slift_def fail_def split: if_splits option.splits)
    have "lookup_enum (type_key st) (tab s1) = Inr vs"
      using vs by (auto simp: scrutinee_variants_def split: sum.splits if_splits)
    then have "map_of (enums (tab s)) (type_key st) = Some vs"
      using enums by (auto simp: lookup_enum_def split: option.splits)
    moreover have "\<exists>en b. (Some (EnumRef en v), b) \<in> set arms" if "v \<in> set vs" for v
    proof -
      have "v \<in> set (seen_variants acc)" using missing that by (auto simp: filter_empty_conv)
      then obtain p where p: "p \<in> set (arm_patterns arms)" "v \<in> set (pattern_variant p)"
        using seen(3) by auto
      obtain en where "p = EnumRef en v" using p(2) by (cases p) simp_all
      with p(1) show ?thesis by (auto simp: arm_patterns_mem)
    qed
    ultimately show ?thesis by blast
  qed
  then show ?thesis using seen run n by blast
qed

definition match_state :: tcs where
  "match_state = initial_tcs (initial_symtab\<lparr>
     scopes := [[(''E'', \<lparr>sym_type = Some (NamedType ''enum''), sym_level = 0, sym_immutable = False\<rparr>)]],
     enums := [(''E'', [''A'', ''B''])]\<rparr>)"

definition match_sample :: "(node option \<times> node) list" where
  "match_sample = [(Some (EnumRef ''E'' ''B''), lit 1), (Some (EnumRef ''E'' ''A''), lit 2)]"

lemma match_sample_runs:
  "case run_expr plain_env 4 (MatchExpr None (EnumRef ''E'' ''A'') match_sample) match_state of Inl _ \<Rightarrow> False | Inr _ \<Rightarrow> True"
  by code_simp

theorem match_exhaustive_witness:
  "\<exists>r s' ks. run_expr plain_env 4 (MatchExpr None (EnumRef ''E'' ''A'') match_sample) match_state = Inr (r, s')
     \<and> map match_pattern_key (arm_patterns match_sample) = map Inr ks \<and> distinct ks"
proof -
  obtain r s' where "run_expr plain_env 4 (MatchExpr None (EnumRef ''E'' ''A'') match_sample) match_state = Inr (r, s')"
    using match_sample_runs
    by (cases "run_expr plain_env 4 (MatchExpr None (EnumRef ''E'' ''A'') match_sample) match_state") auto
  with match_exhaustive [OF this] show ?thesis by blast
qed

end
