(* ===== verification/TypeCheckCases.thy ===== *)
theory TypeCheckCases
  imports TypeCheckProps
begin

text \<open>
  Where the walk of the type checker does not hold what its checks promise: narrowing follows names and
  not variables, loops are counted across closures, literals of functions get a type nothing else has,
  default arguments are visited in the scope of the caller and without an end when they call their own
  function, and the inferred types depend on the order of the declarations.
\<close>

lemma walk_restores_context:
  "run_stmts E n b ns s = Inr (t, s') \<Longrightarrow> walk_context s' = walk_context s \<and> level (tab s') = level (tab s)"
  using runs_frame [of "run_stmts E n b ns" "run_stmts E n b ns"] proc_le_refl [of E n]
  unfolding proc_le_def frame_def tab_frame_def procs_at_simps by blast

lemma declared_symbol:
  "declare_symbol x t a i T = Inr T' \<Longrightarrow>
     lookup x T' = Inr \<lparr>sym_type = t, sym_level = level T, sym_immutable = i\<rparr> \<and> level T' = level T"
  unfolding declare_symbol_def by (cases "scopes T") (auto simp: rbind_def lookup_def split: if_splits sum.splits)

text \<open>
  C37: A name that is narrowed by a check against nil keeps the narrowed type even after a declaration
  of a new variable of that name: the access is checked with the type of the outer variable.
\<close>

theorem narrowing_ignores_shadowing:
  assumes nar: "map_of (narrowed s) x = Some t" and lvl: "0 < level (tab s)"
    and run: "run_stmts E n b [VariableDeclaration sp x e (Some u)] s = Inr (r, s')"
  shows "(\<exists>sy. lookup x (tab s') = Inr sy \<and> sym_type sy = Some u)
    \<and> (\<exists>s''. run_expr E (Suc m) (Identifier sp' x as) s' = Inr ((t, False), s''))"
proof -
  obtain k where n: "n = Suc k" using run by (cases n) auto
  have ctx: "narrowed s' = narrowed s" "level (tab s') = level (tab s)"
    using walk_restores_context [OF run] by (simp_all add: walk_context_def)
  have "walk_let (procs_at E k) x e (Some u) s = Inr ((), s')"
    using run unfolding n run_Suc by (simp add: walk_stmt_def sdo_Inr sret_eq_Inr)
  then obtain s1 where d: "on_tab (declare_symbol x (Some u) False (is_upper_const_name x)) s1 = Inr ((), s')"
    unfolding walk_let_def by (auto simp: sdo_Inr sbind_eq_Inr Let_def)
  then have "declare_symbol x (Some u) False (is_upper_const_name x) (tab s1) = Inr (tab s')"
    by (auto simp: on_tab_def)
  note dec = declared_symbol [OF this]
  then have lk: "lookup x (tab s') = Inr \<lparr>sym_type = Some u, sym_level = level (tab s1), sym_immutable = is_upper_const_name x\<rparr>"
      and l1: "level (tab s') = level (tab s1)" by simp_all
  with ctx lvl have "\<not> is_function_symbol x
      \<lparr>sym_type = Some u, sym_level = level (tab s1), sym_immutable = is_upper_const_name x\<rparr> s'"
    by (simp add: is_function_symbol_def)
  then have "\<exists>s''. walk_identifier (procs_at E m) x s' = Inr (t, s'')"
    using nar ctx lk
    by (auto simp: walk_identifier_def sbind_def at_tab_def sget_def sdo_def swhen_def smod_def sret_def)
  then show ?thesis
    using lk by (auto simp: run_Suc walk_expr_def typed_def sbind_eq_Inr sret_eq_Inr simp del: run_expr.simps)
qed

abbreviation t_ptr :: tref where "t_ptr \<equiv> PointerType (NamedType ''T'') False"
abbreviation t_opt :: tref where "t_opt \<equiv> PointerType (NamedType ''T'') True"

definition non_nil_state :: tcs where
  "non_nil_state = (initial_tcs (push_scope initial_symtab))\<lparr>narrowed := [(''p'', t_ptr)]\<rparr>"

lemma shadow_runs:
  "case run_stmts plain_env 3 False [VariableDeclaration None ''p'' (NilLiteral None) (Some t_opt)] non_nil_state of
     Inl _ \<Rightarrow> False | Inr _ \<Rightarrow> True"
  by code_simp

theorem narrowing_ignores_shadowing_witness:
  "\<exists>r s' s''. run_stmts plain_env 3 False [VariableDeclaration None ''p'' (NilLiteral None) (Some t_opt)] non_nil_state
       = Inr (r, s')
     \<and> run_expr plain_env 1 (var ''p'') s' = Inr ((t_ptr, False), s'')"
proof -
  obtain r s' where r: "run_stmts plain_env 3 False [VariableDeclaration None ''p'' (NilLiteral None) (Some t_opt)]
      non_nil_state = Inr (r, s')"
    using shadow_runs
    by (cases "run_stmts plain_env 3 False [VariableDeclaration None ''p'' (NilLiteral None) (Some t_opt)] non_nil_state") auto
  have "map_of (narrowed non_nil_state) ''p'' = Some t_ptr" "0 < level (tab non_nil_state)"
    by (simp_all add: non_nil_state_def initial_tcs_def push_scope_def initial_symtab_def empty_symtab_def)
  from narrowing_ignores_shadowing [OF this r, of 0] r show ?thesis by (auto simp: var_def)
qed

text \<open>
  The access of a field of a variable that is \<open>nil\<close>: refused in \<open>{ let p: ?*T = nil ret p.x }\<close>, accepted
  when the block is that of \<open>if p != nil\<close> for a parameter of the same name.
\<close>

definition nil_access :: "node list" where
  "nil_access = [VariableDeclaration None ''p'' (NilLiteral None) (Some t_opt), ret (FieldAccess (var ''p'') ''x'')]"

definition nil_program :: "node list \<Rightarrow> node list" where
  "nil_program body =
     [StructDecl ''T'' [(''x'', t_i32)] [] [] [],
      fun_decl ''f'' [Param ''p'' (Some t_opt) None] (Some t_i32) (body @ [ret (lit 0)])]"

lemma nil_access_accepted:
  "outcome 10 (nil_program [ExpressionStatement (IfExpr None (BinaryOp (var ''p'') ''!='' (NilLiteral None))
     (Block nil_access) None)]) = None"
  "outcome 10 (nil_program [ExpressionStatement (BlockExpr None (Block nil_access))])
     = Some (TypeCheckError ''nullable pointer type ?*T: field access requires if p != nil narrowing'')"
  by code_simp+

text \<open>
  \<open>break\<close> is counted across the border of a function: inside a loop, a function expression whose body
  is \<open>break\<close> is accepted and gets its function type.
\<close>

theorem break_crosses_closure:
  assumes "0 < break_depth s"
  shows "\<exists>s'. run_expr E (Suc (Suc n)) (FunctionExpr sp [] (Some t_void) (Block [Break sp']) True False) s
     = Inr ((FunctionType [] t_void False, False), s')"
  using assms
  by (simp add: walk_expr_def typed_def walk_function_expr_def sdo_def sbind_def check_def sret_def slift_def
      seach_def in_callable_def bracket_def scoped_def smod_def in_closure_def walk_stmt_def sget_def
      on_tab_def push_scope_def pop_scope_def check_tail_def named_def type_key_def opt_types_def fn_type_def or_void_def)

theorem break_crosses_closure_witness:
  "\<exists>s'. run_expr plain_env 2 (FunctionExpr None [] (Some t_void) (Block [Break None]) True False)
       ((initial_tcs initial_symtab)\<lparr>break_depth := 1\<rparr>) = Inr ((FunctionType [] t_void False, False), s')"
  using break_crosses_closure [of "(initial_tcs initial_symtab)\<lparr>break_depth := 1\<rparr>" plain_env 0 None None]
  by (simp add: numeral_2_eq_2 del: run_expr.simps)

subsection \<open>Literals of functions\<close>

lemma strip_fun: "\<exists>t'. py_strip (''fun('' @ t) = ''fun('' @ t' \<and> length t' \<le> length t"
  by (rule strip_prefix) (simp_all add: py_char_defs)

lemma strip_slice_fun: "\<exists>t'. py_strip (''[]fun('' @ t) = ''[]fun('' @ t'"
  using strip_prefix [of "''[]fun(''" t] by (auto simp: py_char_defs)

lemma find_char_fun: "find_char CHR ''['' (''fun('' @ t) = Some i \<Longrightarrow> \<exists>j. i = j + 4"
  by (auto simp: numeral_eq_Suc split: if_splits)

text \<open>The user's form of a function type is not read as one: the text stays in front.\<close>

lemma parse_fun_text:
  "parse_type_ref (''fun('' @ t) = Inr r \<Longrightarrow> \<exists>u. format_type_ref r = ''fun('' @ u"
proof (induction "length t" arbitrary: t r rule: less_induct)
  case less
  obtain t' where t': "py_strip (''fun('' @ t) = ''fun('' @ t'" "length t' \<le> length t" using strip_fun by blast
  show ?case
  proof (cases "find_char CHR ''['' (''fun('' @ t')")
    case None
    with less.prems t' show ?thesis by (subst (asm) parse_type_ref.simps) (auto simp: Let_def)
  next
    case (Some i)
    then obtain j where i: "i = j + 4" using find_char_fun by blast
    have tk: "take i (''fun('' @ t') = ''fun('' @ take j t'" by (simp add: i numeral_eq_Suc)
    have j: "j < length t'" using find_char_Some [OF Some] by (simp add: i)
    have "r = NamedType (''fun('' @ t') \<or>
        (\<exists>b as. parse_type_ref (''fun('' @ take j t') = Inr b \<and> r = GenericType b as)"
      using less.prems t' Some tk
      by (subst (asm) parse_type_ref.simps) (auto simp: Let_def split: if_splits option.splits)
    moreover have "length (take j t') < length t" using j t' by simp
    ultimately show ?thesis using less.hyps [of "take j t'"] by auto
  qed
qed

lemma slice_literal_text:
  assumes "slice_literal_type (FunctionType ps r b) = Inr t"
  shows "\<exists>u. t = SliceType u \<and> \<not> same_type t (SliceType (FunctionType ps r b))"
proof -
  obtain v where v: "ty (FunctionType ps r b) = ''fun('' @ v" by simp
  obtain t' where t': "py_strip (''[]fun('' @ v) = ''[]fun('' @ t'" using strip_slice_fun by blast
  have "parse_type_ref (''[]fun('' @ v) = Inr t" using assms v by (simp add: slice_literal_type_def)
  then obtain u where u: "t = SliceType u" "parse_type_ref (''fun('' @ t') = Inr u"
    using t' by (subst (asm) parse_type_ref.simps) (auto simp: Let_def)
  then obtain w where "format_type_ref u = ''fun('' @ w" using parse_fun_text by blast
  with u show ?thesis by (auto simp: same_type_def type_key_def)
qed

text \<open>
  C38: A variable that is declared as a slice of functions cannot be initialised with a literal of that
  slice type: the declaration is never accepted, whatever the elements, the scope and the fuel.
\<close>

theorem function_slice_rejected:
  "run_stmts E n b [VariableDeclaration sp x (SliceLiteral sp' (Some (FunctionType ps r f)) es)
     (Some (SliceType (FunctionType ps r f)))] s \<noteq> Inr v"
proof
  let ?F = "FunctionType ps r f"
  assume run: "run_stmts E n b [VariableDeclaration sp x (SliceLiteral sp' (Some ?F) es) (Some (SliceType ?F))] s = Inr v"
  then obtain k where n: "n = Suc k" by (cases n) auto
  have "\<exists>s'. walk_let (procs_at E k) x (SliceLiteral sp' (Some ?F) es) (Some (SliceType ?F)) s = Inr ((), s')"
    using run unfolding n run_Suc by (cases v) (auto simp: walk_stmt_def sdo_Inr sret_eq_Inr)
  then obtain it s1 s2 s3 where e: "expr (procs_at E k) (SliceLiteral sp' (Some ?F) es) s1 = Inr (it, s2)"
    and req: "require_type (procs_at E k) it (SliceType ?F) (''let '' @ x) s2 = Inr ((), s3)"
    unfolding walk_let_def by (auto simp: sdo_Inr sbind_eq_Inr Let_def check_Inr)
  obtain j where k: "k = Suc j" using e by (cases k) (auto simp: expr_def sbind_eq_Inr)
  have "slice_literal_type ?F = Inr it"
    using e unfolding k
    by (auto simp: expr_def sbind_eq_Inr sret_eq_Inr run_Suc walk_expr_def typed_def walk_slice_literal_def sdo_Inr
        slift_Inr simp del: run_expr.simps)
  then obtain u where u: "it = SliceType u" "\<not> same_type it (SliceType ?F)" using slice_literal_text by blast
  then have "is_assignable_type (procs_at E k) it (SliceType ?F) s2 = Inr (False, s2)"
    by (simp add: is_assignable_type_def sbind_def sget_def pointer_implements_iface_def sret_def named_def type_key_def
        is_nil_type_def)
  with req show False by (auto simp: require_type_def sbind_def check_def tfail_def slift_def fail_def)
qed

subsection \<open>Defaults that call their function\<close>

text \<open>\<open>fun f(g: fun() void = fun(): void { f() }): void {}\<close>\<close>

definition loop_default :: node where
  "loop_default = FunctionExpr None [] (Some t_void) (Block [ExpressionStatement (call ''f'' [])]) True False"

definition loop_param :: "node param" where
  "loop_param = Param ''g'' (Some (FunctionType [] t_void False)) (Some loop_default)"

definition loop_program :: "node list" where
  "loop_program = [fun_decl ''f'' [loop_param] (Some t_void) []]"

lemma loop_default_clone: "clone_default_expr [] loop_default = loop_default"
  by code_simp

lemma loop_default_shape: "validate_default_expr_shape x loop_default = Inr ()"
  by (subst validate_default_expr_shape.simps) (simp add: loop_default_def)

lemma builtin_f: "infer_builtin_call q ''f'' [] = sret None"
  by (simp add: infer_builtin_call_def Let_def NUMERIC_TYPES_def)

lemma public_f: "require_public_qualified d ow c ''f'' = Inr ()"
proof -
  have "private_name ''f'' = False" by code_simp
  then show ?thesis by (simp add: require_public_qualified_def)
qed

lemmas step_defs = sbind_def sdo_def sret_def slift_def sget_def smod_def check_def seach_def on_tab_def at_tab_def
  bracket_def scoped_def in_callable_def in_closure_def as_default_def outside_fallible_op_def typed_def expr_def

lemma loop_call:
  assumes IH: "\<And>s. map_of (fun_sigs (tab s)) ''f'' = Some (Some t_void, [loop_param]) \<Longrightarrow>
      run_expr plain_env k loop_default s = Inl OutOfFuel"
    and f: "map_of (fun_sigs (tab s)) ''f'' = Some (Some t_void, [loop_param])"
  shows "run_expr plain_env (Suc k) (call ''f'' []) s = Inl OutOfFuel"
proof -
  have "default_arg (procs_at plain_env k) [loop_param] ''f'' loop_param [] s = Inl OutOfFuel"
    using IH f loop_default_clone loop_default_shape
    by (simp add: default_arg_def loop_param_def replacements_def step_defs)
  then show ?thesis
    using f unfolding run_Suc
    by (simp add: walk_expr_def call_def walk_function_call_def require_public_def pub_def public_f builtin_f
        walk_declared_call_def resolved_def call_params_def fun_params_def plain_env_def Let_def
        apply_default_args_def required_param_count_def loop_param_def step_defs)
qed

lemma loop_default_diverges:
  "map_of (fun_sigs (tab s)) ''f'' = Some (Some t_void, [loop_param]) \<Longrightarrow>
   run_expr plain_env n loop_default s = Inl OutOfFuel"
proof (induction n arbitrary: s rule: less_induct)
  case (less n)
  show ?case
  proof (cases "n = 0 \<or> n = 1 \<or> n = 2")
    case False
    then obtain k where n: "n = Suc (Suc (Suc k))" by (metis One_nat_def Suc_1 not0_implies_Suc)
    have "run_expr plain_env (Suc k) (call ''f'' []) u = Inl OutOfFuel"
      if "map_of (fun_sigs (tab u)) ''f'' = Some (Some t_void, [loop_param])" for u
      by (rule loop_call [OF _ that]) (simp add: less.IH n)
    then have body: "run_stmts plain_env (Suc (Suc k)) False [ExpressionStatement (call ''f'' [])] u = Inl OutOfFuel"
      if "map_of (fun_sigs (tab u)) ''f'' = Some (Some t_void, [loop_param])" for u
      using that unfolding run_Suc(2) by (simp add: walk_stmt_def step_defs del: run_expr.simps)
    show ?thesis
      using less.prems unfolding n loop_default_def run_Suc(1) [of _ "Suc (Suc k)"]
      by (simp add: walk_expr_def walk_function_expr_def push_scope_def step_defs body del: run_expr.simps run_stmts.simps)
  qed (use less.prems in \<open>auto simp: numeral_2_eq_2 loop_default_def walk_expr_def walk_function_expr_def walk_stmt_def
      push_scope_def step_defs\<close>)
qed

text \<open>
  The type checker does not return on a function whose default argument is a function expression
  that calls the function without that argument: with every amount of fuel it is still running.
\<close>

theorem default_call_diverges: "outcome n loop_program = Some OutOfFuel"
proof -
  obtain T where T: "build_symbol_table loop_program = Inr T"
    and f: "map_of (fun_sigs T) ''f'' = Some (Some t_void, [loop_param])"
  proof -
    have "case build_symbol_table loop_program of Inl _ \<Rightarrow> False
        | Inr T \<Rightarrow> map_of (fun_sigs T) ''f'' = Some (Some t_void, [loop_param])"
      by code_simp
    then show ?thesis using that by (cases "build_symbol_table loop_program") auto
  qed
  let ?d = "fun_decl ''f'' [loop_param] (Some t_void) []"
  let ?s = "(initial_tcs T)\<lparr>fns := [(''f'', ?d)]\<rparr>"
  have decls: "filter is_function_decl loop_program = [?d]" by (simp add: loop_program_def fun_decl_def)
  have c: "collect [?d] (initial_tcs T) = Inr ?s"
    by (simp add: collect_def collect_decl_def fun_decl_def callable_of_def initial_tcs_def)
  have "check_param (procs_at plain_env n) False True ''function f'' loop_param u = Inl OutOfFuel"
    if "map_of (fun_sigs (tab u)) ''f'' = Some (Some t_void, [loop_param])" for u
    using loop_default_diverges [OF that] loop_default_shape
    by (simp add: check_param_def loop_param_def step_defs)
  then have "validate_function_defaults plain_env (procs_at plain_env n) ?d ?s = Inl OutOfFuel"
    using f by (simp add: validate_function_defaults_def current_decl_def decl_of_def callable_of_def fun_decl_def
        initial_tcs_def loop_param_def declare_receiver_def plain_env_def push_scope_def step_defs)
  then have "phases plain_env n loop_program ?s = Inl OutOfFuel"
    unfolding phases_def decls
    by (simp add: Let_def loop_program_def fun_decl_def check_constraints_def plain_env_def
        validate_generic_constraints_def step_defs)
  with T c show ?thesis by (simp add: outcome_def infer_types_phases decls)
qed

subsection \<open>Order and scope\<close>

text \<open>
  \<open>fun f(): i32 { let s = "${h()??}" ret 1 }\<close>, which propagates the error of \<open>h\<close> inside a string, and
  \<open>fun g(): i32 { ret f() }\<close>.
\<close>

definition propagating :: "node list" where
  "propagating =
     [fun_decl ''f'' [] (Some t_i32)
        [let_var ''s'' (InterpolatedString None [FallibleOp None (call ''h'' []) ''??'']), ret (lit 1)]]"

definition unhandled :: "node list" where
  "unhandled = [fun_decl ''g'' [] (Some t_i32) [ret (call ''f'' [])]]"

definition failing :: "node list" where
  "failing = [fun_decl ''h'' [] (Some t_i32) [ErrReturn None (StringLiteral None [])]]"

text \<open>
  Whether an unhandled call of a fallible function is found depends on the order of the
  declarations: declared before the function that propagates, the caller is accepted.
\<close>

theorem fallible_by_order:
  "outcome 10 (unhandled @ propagating @ failing) = None
   \<and> outcome 10 (propagating @ unhandled @ failing)
       = Some (TypeCheckError ''fallible call f must be handled with ??, !!, err?, match?, or try'')"
proof
  show "outcome 10 (unhandled @ propagating @ failing) = None" by code_simp
  show "outcome 10 (propagating @ unhandled @ failing)
      = Some (TypeCheckError ''fallible call f must be handled with ??, !!, err?, match?, or try'')" by code_simp
qed

text \<open>
  \<open>fun a() { let h = 1 let r = g() ret r }\<close>, \<open>fun h(): i32 { ret 2 }\<close>, \<open>fun g() { let k = h ret k() }\<close>.
\<close>

definition caller_a :: "node list" where
  "caller_a = [fun_decl ''a'' [] None [let_var ''h'' (lit 1), let_var ''r'' (call ''g'' []), ret (var ''r'')]]"

definition callee_g :: "node list" where
  "callee_g = [fun_decl ''h'' [] (Some t_i32) [ret (lit 2)],
     fun_decl ''g'' [] None [let_var ''k'' (var ''h''), ret (call ''k'' [])]]"

text \<open>
  The body of a function without a result type is visited in the scopes of its caller: a local
  variable of the caller hides a global function there, and the program is rejected or accepted
  according to which function is declared first.
\<close>

theorem inference_sees_caller:
  "outcome 14 (caller_a @ callee_g) = Some (TypeCheckError ''Function k not found'')
   \<and> outcome 14 (callee_g @ caller_a) = None"
proof
  show "outcome 14 (caller_a @ callee_g) = Some (TypeCheckError ''Function k not found'')" by code_simp
  show "outcome 14 (callee_g @ caller_a) = None" by code_simp
qed

text \<open>
  \<open>fun v(): i32 { ret 7 }\<close>, \<open>fun f(g: fun() i32 = v): i32 { ret g() }\<close>, and a caller with a local
  variable \<open>x\<close>: \<open>fun a(): i32 { let x = 1 ret f() }\<close>.
\<close>

definition default_caller :: "string \<Rightarrow> node list" where
  "default_caller x =
     [fun_decl ''v'' [] (Some t_i32) [ret (lit 7)],
      fun_decl ''f'' [Param ''g'' (Some (FunctionType [] t_i32 False)) (Some (var ''v''))] (Some t_i32) [ret (call ''g'' [])],
      fun_decl ''a'' [] (Some t_i32) [let_var x (lit 1), ret (call ''f'' [])]]"

text \<open>
  A default argument is visited in the scope of the call: the name of a local variable of the caller
  decides whether the call is accepted.
\<close>

theorem default_sees_caller:
  "outcome 14 (default_caller ''w'') = None
   \<and> outcome 14 (default_caller ''v'') = Some (TypeCheckError ''default argument g to f: expected fun() i32, got i32'')"
proof
  show "outcome 14 (default_caller ''w'') = None" by code_simp
  show "outcome 14 (default_caller ''v'')
      = Some (TypeCheckError ''default argument g to f: expected fun() i32, got i32'')" by code_simp
qed

end
