(* ===== verification/TypeCheckOps.thy ===== *)
theory TypeCheckOps
  imports TypeCheckProps
begin

text \<open>
  The operators of the type checker on values of scalar types, against a table.
\<close>

subsection \<open>Operators on scalar values\<close>

definition INTEGER_TYPES :: "string list" where
  "INTEGER_TYPES = [''i8'', ''i16'', ''i32'', ''i64'', ''u8'', ''u16'', ''u32'', ''u64'']"

text \<open>
  The types of the operators on values of scalar types, as a table: logic on \<open>bool\<close>, equality of any two values of one
  type other than \<open>error\<close>, ordering and arithmetic on two values of one numeric type, the operators on
  bits and the remainder on one integer type, ordering and concatenation of strings. \<open>design.md\<close> states these
  rules (lines 240 to 250), and that errors take no part in comparisons (281).
\<close>

definition operator_result :: "string \<Rightarrow> string \<Rightarrow> string \<Rightarrow> string option" where
  "operator_result opr l r =
     (if opr \<in> set [''&&'', ''||''] then (if l = ''bool'' \<and> r = ''bool'' then Some ''bool'' else None)
      else if r \<noteq> l then None
      else if opr \<in> set [''=='', ''!=''] then (if l \<noteq> ''error'' then Some ''bool'' else None)
      else if opr \<in> set [''<'', ''>'', ''<='', ''>=''] then (if l \<in> set (''str'' # NUMERIC_TYPES) then Some ''bool'' else None)
      else if opr = ''+'' \<and> l = ''str'' then Some ''str''
      else if opr \<in> set [''+'', ''-'', ''*'', ''/''] then (if l \<in> set NUMERIC_TYPES then Some l else None)
      else (if l \<in> set INTEGER_TYPES then Some l else None))"

text \<open>The one pair the checker accepts beyond the table: an error is ordered against a string on its right.\<close>

definition error_ordered :: "string \<Rightarrow> string \<Rightarrow> string \<Rightarrow> bool" where
  "error_ordered opr l r \<longleftrightarrow> opr \<in> set [''<'', ''>'', ''<='', ''>=''] \<and> l = ''error'' \<and> r = ''str''"

definition checker_result :: "string \<Rightarrow> string \<Rightarrow> string \<Rightarrow> string option" where
  "checker_result opr l r =
     (if opr \<in> set [''&&'', ''||''] then (if l = ''bool'' \<and> r = ''bool'' then Some ''bool'' else None)
      else if opr \<in> set [''=='', ''!=''] then (if r = l \<and> l \<noteq> ''error'' then Some ''bool'' else None)
      else if opr \<in> set [''<'', ''>'', ''<='', ''>=''] then
        (if r = l \<and> l \<in> set (''str'' # NUMERIC_TYPES) \<or> l = ''error'' \<and> r = ''str'' then Some ''bool'' else None)
      else if r \<noteq> l then None
      else if opr = ''+'' \<and> l = ''str'' then Some ''str''
      else if opr \<in> set [''+'', ''-'', ''*'', ''/''] then (if l \<in> set NUMERIC_TYPES then Some l else None)
      else (if l \<in> set INTEGER_TYPES then Some l else None))"

definition binary_operators :: "string list" where
  "binary_operators = [''=='', ''!='', ''<'', ''>'', ''<='', ''>='', ''&&'', ''||'', ''+'', ''-'', ''*'', ''/'', ''%'',
     ''&'', ''|'', ''^'', ''<<'', ''>>'']"

lemma operator_groups:
  "binary_operators = [''=='', ''!=''] @ [''<'', ''>'', ''<='', ''>=''] @ [''&&'', ''||'']
     @ [''+'', ''-'', ''*'', ''/''] @ [''%'', ''&'', ''|'', ''^'', ''<<'', ''>>'']"
  by (simp add: binary_operators_def)

lemma checker_result_table:
  "checker_result opr l r = (if error_ordered opr l r then Some ''bool'' else operator_result opr l r)"
  by (auto simp: checker_result_def operator_result_def error_ordered_def)

text \<open>No declaration has the name of a scalar type.\<close>

definition scalars_undeclared :: "symtab \<Rightarrow> bool" where
  "scalars_undeclared T \<longleftrightarrow> (\<forall>x \<in> set SCALAR_TYPES. \<not> has_key (structs T) x \<and> \<not> has_key (ifaces T) x)"

lemma scalar_predicates:
  "is_numeric_type (NamedType l) \<longleftrightarrow> l \<in> set NUMERIC_TYPES"
  "is_integer_type (NamedType l) \<longleftrightarrow> l \<in> set INTEGER_TYPES"
  "is_rune_type (NamedType l) \<longleftrightarrow> l = ''rune''"
  "is_nil_type (NamedType l) \<longleftrightarrow> l = ''__nil''"
  "named (NamedType l) x \<longleftrightarrow> l = x"
  "\<not> is_pointerish (NamedType l)"
  by (simp_all add: is_numeric_type_def is_integer_type_def is_rune_type_def is_nil_type_def named_def named_in_def
      type_key_def is_pointerish_def INTEGER_TYPES_def)

lemma scalar_not_nil: "l \<in> set SCALAR_TYPES \<Longrightarrow> l \<noteq> ''__nil''"
  by (auto simp: SCALAR_TYPES_def NUMERIC_TYPES_def)

lemma require_scalar:
  assumes "scalars_undeclared (tab s)" and "l \<in> set SCALAR_TYPES"
  shows "require_type P (NamedType r) (NamedType l) c s =
     (if r = l \<or> r = ''str'' \<and> l = ''error'' then Inr ((), s)
      else Inl (TypeCheckError (c @ '': expected '' @ l @ '', got '' @ r)))"
proof -
  have i: "\<not> is_iface_type (tab s) (NamedType l)"
    using assms by (auto simp: scalars_undeclared_def is_iface_type_def type_key_def)
  have "is_assignable_type P (NamedType r) (NamedType l) s = Inr (r = l \<or> r = ''str'' \<and> l = ''error'', s)"
    using i scalar_not_nil [OF assms(2)]
    by (auto simp: is_assignable_type_def sbind_def sget_def sret_def same_type_def type_key_def scalar_predicates)
  then show ?thesis by (simp add: require_type_def sbind_def check_def sret_def tfail_def slift_def fail_def)
qed

lemma overload_scalar:
  assumes "scalars_undeclared (tab s)" and "l \<in> set SCALAR_TYPES"
  shows "overload P (NamedType l) rt m s = Inr (None, s)"
  using assms
  by (simp add: overload_def sbind_def sget_def sret_def is_struct_type_def scalars_undeclared_def type_key_def)

lemma comparable_scalar:
  "l \<in> set SCALAR_TYPES \<Longrightarrow>
   require_comparable T (NamedType l) = (if l = ''error'' then fail ''comparison: type error is not comparable'' else Inr ())"
  by (auto simp: require_comparable_def comparable_error_type_def walk_fuel_def comparable_verdict_def named_in_def
      named_def type_key_def SCALAR_TYPES_def fail_if_def fail_def NUMERIC_TYPES_def)

text \<open>A step that gives a scalar type and leaves the state alone, or raises.\<close>

definition errs :: "'a res \<Rightarrow> bool" where
  "errs r \<longleftrightarrow> (\<exists>x. r = Inl (TypeCheckError x))"

definition gives :: "string option \<Rightarrow> tref tc \<Rightarrow> tcs \<Rightarrow> bool" where
  "gives v m s \<longleftrightarrow> (case v of Some t \<Rightarrow> m s = Inr (NamedType t, s) | None \<Rightarrow> errs (m s))"

lemma gives_if:
  assumes "c \<Longrightarrow> m s = Inr (NamedType t, s)" and "\<not> c \<Longrightarrow> errs (m s)"
  shows "gives (if c then Some t else None) m s"
  using assms by (simp add: gives_def)

lemma require_then:
  assumes "scalars_undeclared (tab s)" and "l \<in> set SCALAR_TYPES"
  shows "r = l \<or> r = ''str'' \<and> l = ''error'' \<Longrightarrow> sdo (require_type P (NamedType r) (NamedType l) c) k s = k s"
    "\<not> (r = l \<or> r = ''str'' \<and> l = ''error'') \<Longrightarrow>
       errs (sdo (require_type P (NamedType r) (NamedType l) c) k s)"
  by (auto simp: errs_def sdo_def sbind_def require_scalar [OF assms])

lemma raises: "errs (tfail m s)"
  by (simp add: errs_def tfail_def slift_def fail_def)

lemma equality_scalar:
  assumes "scalars_undeclared (tab s)" and "l \<in> set SCALAR_TYPES" and "r \<in> set SCALAR_TYPES"
  shows "gives (if r = l \<and> l \<noteq> ''error'' then Some ''bool'' else None) (equality_type P (NamedType l) (NamedType r)) s"
proof -
  have e: "equality_type P (NamedType l) (NamedType r) s = sdo (require_type P (NamedType r) (NamedType l) ''comparison'')
      (sdo (at_tab (\<lambda>T. require_comparable T (NamedType l))) (sret (NamedType ''bool''))) s"
    using scalar_not_nil [OF assms(2)] scalar_not_nil [OF assms(3)] by (simp add: equality_type_def scalar_predicates)
  have c: "sdo (at_tab (\<lambda>T. require_comparable T (NamedType l))) k s
      = (if l = ''error'' then Inl (TypeCheckError ''comparison: type error is not comparable'') else k s)" for k
    by (simp add: comparable_scalar [OF assms(2)] sdo_def sbind_def at_tab_def fail_def)
  show ?thesis
  proof (rule gives_if)
    assume "r = l \<and> l \<noteq> ''error''"
    then show "equality_type P (NamedType l) (NamedType r) s = Inr (NamedType ''bool'', s)"
      unfolding e by (simp add: require_then(1) [OF assms(1,2)] c sret_def)
  next
    assume "\<not> (r = l \<and> l \<noteq> ''error'')"
    then show "errs (equality_type P (NamedType l) (NamedType r) s)"
      unfolding e
    proof (cases "r = l \<or> r = ''str'' \<and> l = ''error''")
      case True
      with \<open>\<not> (r = l \<and> l \<noteq> ''error'')\<close> have "l = ''error''" by auto
      then show "errs (sdo (require_type P (NamedType r) (NamedType l) ''comparison'')
          (sdo (at_tab (\<lambda>T. require_comparable T (NamedType l))) (sret (NamedType ''bool''))) s)"
        unfolding require_then(1) [OF assms(1,2) True] c by (simp add: errs_def)
    qed (rule require_then(2) [OF assms(1,2)])
  qed
qed

lemma order_scalar:
  assumes "scalars_undeclared (tab s)" and "l \<in> set SCALAR_TYPES"
  shows "gives (if r = l \<and> l \<in> set (''str'' # NUMERIC_TYPES) \<or> l = ''error'' \<and> r = ''str'' then Some ''bool'' else None)
     (order_type P opr (NamedType l) (NamedType r)) s"
proof -
  let ?O = "order_type P opr (NamedType l) (NamedType r)"
  let ?num = "l \<in> set NUMERIC_TYPES \<and> r \<in> set NUMERIC_TYPES"
  let ?req = "sdo (require_type P (NamedType r) (NamedType l) ''comparison'') (sret (NamedType ''bool''))"
  have nums: "''rune'' \<notin> set NUMERIC_TYPES" "''str'' \<notin> set NUMERIC_TYPES" "''error'' \<notin> set NUMERIC_TYPES"
    by (simp_all add: NUMERIC_TYPES_def)
  have o_req: "?O s = ?req s" if "l \<noteq> ''rune''" "r \<noteq> ''rune''" "l = ''str'' \<or> r = ''str'' \<or> ?num"
    using that by (cases "l = ''str'' \<or> r = ''str''") (auto simp: order_type_def scalar_predicates)
  have o_fail: "errs (?O s)"
    if "l = ''rune'' \<or> r = ''rune'' \<or> l \<noteq> ''str'' \<and> r \<noteq> ''str'' \<and> \<not> ?num"
    using that by (cases "l = ''rune'' \<or> r = ''rune''") (simp_all add: order_type_def scalar_predicates sbind_def overload_scalar [OF assms] raises)
  show ?thesis
  proof (rule gives_if)
    assume c: "r = l \<and> l \<in> set (''str'' # NUMERIC_TYPES) \<or> l = ''error'' \<and> r = ''str''"
    then have "l \<noteq> ''rune''" "r \<noteq> ''rune''" "l = ''str'' \<or> r = ''str'' \<or> ?num" using nums by auto
    then have "?O s = ?req s" by (rule o_req)
    moreover have "r = l \<or> r = ''str'' \<and> l = ''error''" using c by auto
    ultimately show "?O s = Inr (NamedType ''bool'', s)" by (simp add: require_then(1) [OF assms] sret_def)
  next
    assume c: "\<not> (r = l \<and> l \<in> set (''str'' # NUMERIC_TYPES) \<or> l = ''error'' \<and> r = ''str'')"
    show "errs (?O s)"
    proof (cases "l \<noteq> ''rune'' \<and> r \<noteq> ''rune'' \<and> (l = ''str'' \<or> r = ''str'' \<or> ?num)")
      case True
      then have "\<not> (r = l \<or> r = ''str'' \<and> l = ''error'')" using c by auto
      then show ?thesis using o_req True require_then(2) [OF assms] by simp
    qed (use o_fail in blast)
  qed
qed

lemma arithmetic_scalar:
  assumes "scalars_undeclared (tab s)" and "l \<in> set SCALAR_TYPES"
  shows "errs (overload_or_fail P opr w (NamedType l) rt s)"
  by (simp add: overload_or_fail_def sbind_def overload_scalar [OF assms] raises)

lemma logic_scalar:
  assumes "scalars_undeclared (tab s)" and "opr \<in> set [''&&'', ''||'']"
  shows "gives (checker_result opr l r) (binary_type P opr (NamedType l) (NamedType r)) s"
proof -
  have b: "''bool'' \<in> set SCALAR_TYPES" by (simp add: SCALAR_TYPES_def)
  have "binary_type P opr (NamedType l) (NamedType r) =
      sdo (require_type P (NamedType l) (NamedType ''bool'') (''logical operator '' @ opr))
        (sdo (require_type P (NamedType r) (NamedType ''bool'') (''logical operator '' @ opr)) (sret (NamedType ''bool'')))"
    using assms(2) by (simp add: binary_type_def)
  moreover have "checker_result opr l r = (if l = ''bool'' \<and> r = ''bool'' then Some ''bool'' else None)"
    using assms(2) by (simp add: checker_result_def)
  ultimately show ?thesis
    using require_scalar [OF assms(1) b] by (auto simp: gives_def errs_def sdo_def sbind_def sret_def)
qed

lemma concat_scalar:
  assumes "scalars_undeclared (tab s)"
  shows "gives (checker_result ''+'' ''str'' r) (binary_type P ''+'' (NamedType ''str'') (NamedType r)) s"
proof -
  have b: "''str'' \<in> set SCALAR_TYPES" by (simp add: SCALAR_TYPES_def)
  have "binary_type P ''+'' (NamedType ''str'') (NamedType r) =
      sdo (require_type P (NamedType r) (NamedType ''str'') ''string concatenation'') (sret (NamedType ''str''))"
    by (simp add: binary_type_def scalar_predicates)
  moreover have "checker_result ''+'' ''str'' r = (if r = ''str'' then Some ''str'' else None)"
    by (simp add: checker_result_def)
  ultimately show ?thesis
    using require_scalar [OF assms b] by (auto simp: gives_def errs_def sdo_def sbind_def sret_def)
qed

text \<open>An operator that takes two operands of one type from a list of types.\<close>

lemma same_type_scalar:
  assumes "scalars_undeclared (tab s)" and "l \<in> set SCALAR_TYPES"
    and ok: "l \<in> set ts \<Longrightarrow> r \<in> set ts \<Longrightarrow> m s = sdo (require_type P (NamedType r) (NamedType l) c) (sret (NamedType l)) s"
    and bad: "\<not> (l \<in> set ts \<and> r \<in> set ts) \<Longrightarrow> errs (m s)" and e: "''error'' \<notin> set ts"
  shows "gives (if r = l \<and> l \<in> set ts then Some l else None) m s"
proof (rule gives_if)
  assume "r = l \<and> l \<in> set ts"
  then have "m s = sdo (require_type P (NamedType r) (NamedType l) c) (sret (NamedType l)) s" using ok by blast
  also have "\<dots> = Inr (NamedType l, s)" using \<open>r = l \<and> l \<in> set ts\<close> by (simp add: require_then(1) [OF assms(1,2)] sret_def)
  finally show "m s = Inr (NamedType l, s)" .
next
  assume c: "\<not> (r = l \<and> l \<in> set ts)"
  show "errs (m s)"
  proof (cases "l \<in> set ts \<and> r \<in> set ts")
    case True
    with c e have "\<not> (r = l \<or> r = ''str'' \<and> l = ''error'')" by auto
    with True ok require_then(2) [OF assms(1,2)] show ?thesis by simp
  qed (rule bad)
qed

lemma arith_scalar:
  assumes "scalars_undeclared (tab s)" and "l \<in> set SCALAR_TYPES"
    and opr: "opr \<in> set [''+'', ''-'', ''*'', ''/'']" "\<not> (opr = ''+'' \<and> l = ''str'')"
  shows "gives (checker_result opr l r) (binary_type P opr (NamedType l) (NamedType r)) s"
proof -
  let ?B = "binary_type P opr (NamedType l) (NamedType r)"
  have nums: "''rune'' \<notin> set NUMERIC_TYPES" "''error'' \<notin> set NUMERIC_TYPES" by (simp_all add: NUMERIC_TYPES_def)
  have b: "?B = (if l = ''rune'' \<or> r = ''rune'' then tfail (''rune type: operator '' @ opr @ '' is not allowed'')
      else if \<not> (l \<in> set NUMERIC_TYPES \<and> r \<in> set NUMERIC_TYPES)
      then overload_or_fail P opr ''numeric'' (NamedType l) (NamedType r)
      else sdo (require_type P (NamedType r) (NamedType l) (''binary operator '' @ opr)) (sret (NamedType l)))"
    using opr by (elim in_list) (simp_all add: binary_type_def scalar_predicates)
  have "gives (if r = l \<and> l \<in> set NUMERIC_TYPES then Some l else None) ?B s"
  proof (rule same_type_scalar [OF assms(1,2)])
    assume "l \<in> set NUMERIC_TYPES" "r \<in> set NUMERIC_TYPES"
    moreover from this have "l \<noteq> ''rune''" "r \<noteq> ''rune''" using nums by auto
    ultimately show "?B s = sdo (require_type P (NamedType r) (NamedType l) (''binary operator '' @ opr)) (sret (NamedType l)) s"
      by (simp add: b)
  next
    assume "\<not> (l \<in> set NUMERIC_TYPES \<and> r \<in> set NUMERIC_TYPES)"
    then show "errs (?B s)"
      by (simp add: b raises arithmetic_scalar [OF assms(1,2)])
  qed (rule nums)
  moreover have "checker_result opr l r = (if r = l \<and> l \<in> set NUMERIC_TYPES then Some l else None)"
    using opr by (auto simp: checker_result_def)
  ultimately show ?thesis by simp
qed

lemma int_scalar:
  assumes "scalars_undeclared (tab s)" and "l \<in> set SCALAR_TYPES"
    and opr: "opr \<in> set [''%'', ''&'', ''|'', ''^'', ''<<'', ''>>'']"
  shows "gives (checker_result opr l r) (binary_type P opr (NamedType l) (NamedType r)) s"
proof -
  let ?B = "binary_type P opr (NamedType l) (NamedType r)"
  have nums: "''rune'' \<notin> set INTEGER_TYPES" "''error'' \<notin> set INTEGER_TYPES" by (simp_all add: INTEGER_TYPES_def)
  have b: "?B s = (if l = ''rune'' \<or> r = ''rune'' then tfail (''rune type: operator '' @ opr @ '' is not allowed'')
      else if \<not> (l \<in> set INTEGER_TYPES \<and> r \<in> set INTEGER_TYPES)
      then (if opr = ''%'' then overload_or_fail P opr ''integer'' (NamedType l) (NamedType r)
        else tfail (''binary operator '' @ opr @ '': expected integer operands, got '' @ l @ '' and '' @ r))
      else sdo (require_type P (NamedType r) (NamedType l) (''binary operator '' @ opr)) (sret (NamedType l))) s"
    using opr by (elim in_list) (simp_all add: binary_type_def scalar_predicates)
  have "gives (if r = l \<and> l \<in> set INTEGER_TYPES then Some l else None) ?B s"
  proof (rule same_type_scalar [OF assms(1,2)])
    assume "l \<in> set INTEGER_TYPES" "r \<in> set INTEGER_TYPES"
    moreover from this have "l \<noteq> ''rune''" "r \<noteq> ''rune''" using nums by auto
    ultimately show "?B s = sdo (require_type P (NamedType r) (NamedType l) (''binary operator '' @ opr)) (sret (NamedType l)) s"
      by (simp add: b)
  next
    assume "\<not> (l \<in> set INTEGER_TYPES \<and> r \<in> set INTEGER_TYPES)"
    then show "errs (?B s)"
      by (simp add: b raises arithmetic_scalar [OF assms(1,2)])
  qed (rule nums)
  moreover have "checker_result opr l r = (if r = l \<and> l \<in> set INTEGER_TYPES then Some l else None)"
    using opr by (elim in_list) (simp_all add: checker_result_def)
  ultimately show ?thesis by simp
qed

text \<open>
  C11: On values of scalar types the operators have exactly the types of the table, change nothing in
  the state, and every other combination is an error, but for one the checker lets through: \<open><\<close>, \<open>>\<close>, \<open><=\<close> and
  \<open>>=\<close> of an error and a string, which \<open>design.md\<close> excludes.
\<close>

theorem scalar_operators:
  assumes "scalars_undeclared (tab s)" and "l \<in> set SCALAR_TYPES" and "r \<in> set SCALAR_TYPES"
    and "opr \<in> set binary_operators"
  shows "if error_ordered opr l r then binary_type P opr (NamedType l) (NamedType r) s = Inr (NamedType ''bool'', s)
    else case operator_result opr l r of
      Some t \<Rightarrow> binary_type P opr (NamedType l) (NamedType r) s = Inr (NamedType t, s)
    | None \<Rightarrow> (\<exists>m. binary_type P opr (NamedType l) (NamedType r) s = Inl (TypeCheckError m))"
proof -
  let ?B = "binary_type P opr (NamedType l) (NamedType r)"
  consider (eq) "opr \<in> set [''=='', ''!='']" | (ord) "opr \<in> set [''<'', ''>'', ''<='', ''>='']"
    | (logic) "opr \<in> set [''&&'', ''||'']" | (concat) "opr = ''+''" "l = ''str''"
    | (arith) "opr \<in> set [''+'', ''-'', ''*'', ''/'']" "\<not> (opr = ''+'' \<and> l = ''str'')"
    | (int) "opr \<in> set [''%'', ''&'', ''|'', ''^'', ''<<'', ''>>'']"
    using assms(4) unfolding operator_groups set_append by blast
  then have "gives (checker_result opr l r) ?B s"
  proof cases
    case eq
    then have "?B = equality_type P (NamedType l) (NamedType r)" by (auto simp: binary_type_def)
    moreover have "checker_result opr l r = (if r = l \<and> l \<noteq> ''error'' then Some ''bool'' else None)"
      using eq by (auto simp: checker_result_def)
    ultimately show ?thesis using equality_scalar [OF assms(1-3)] by simp
  next
    case ord
    then have "?B = order_type P opr (NamedType l) (NamedType r)" by (auto simp: binary_type_def)
    moreover have "checker_result opr l r = (if r = l \<and> l \<in> set (''str'' # NUMERIC_TYPES) \<or> l = ''error'' \<and> r = ''str''
        then Some ''bool'' else None)"
      using ord by (auto simp: checker_result_def)
    ultimately show ?thesis using order_scalar [OF assms(1,2)] by simp
  next
    case logic
    then show ?thesis using logic_scalar [OF assms(1)] by simp
  next
    case concat
    then show ?thesis using concat_scalar [OF assms(1)] by simp
  next
    case arith
    then show ?thesis using arith_scalar [OF assms(1,2)] by simp
  next
    case int
    then show ?thesis using int_scalar [OF assms(1,2)] by simp
  qed
  then show ?thesis
    unfolding checker_result_table gives_def errs_def by (cases "error_ordered opr l r") simp_all
qed

theorem scalar_operators_witness:
  "operator_result ''+'' ''i32'' ''i32'' = Some ''i32''
   \<and> binary_type (procs_at plain_env 0) ''+'' t_i32 t_i32 (initial_tcs initial_symtab) = Inr (t_i32, initial_tcs initial_symtab)"
proof -
  have t: "\<not> error_ordered ''+'' ''i32'' ''i32''" "operator_result ''+'' ''i32'' ''i32'' = Some ''i32''" by code_simp+
  have "scalars_undeclared (tab (initial_tcs initial_symtab))" by code_simp
  moreover have "''i32'' \<in> set SCALAR_TYPES" "''+'' \<in> set binary_operators" by code_simp+
  ultimately show ?thesis
    using scalar_operators [of "initial_tcs initial_symtab" "''i32''" "''i32''" "''+''" "procs_at plain_env 0"] t by simp
qed

end
