(* ===== verification/LlvmValues.thy ===== *)
theory LlvmValues
  imports Layout
begin

text \<open>
  The part of \<open>compiler/llvm_codegen.py\<close> and \<open>llvm_map.py\<close> that computes values without touching
  variables: arithmetic, comparisons, conversions, equality of structs, and the hash and equality of
  map keys. A value of \<open>llvmlite\<close> is the tree of the builder calls that made it.
\<close>

subsection \<open>Values\<close>

datatype irop =
    IAdd | ISub | IMul | ISDiv | IUDiv | ISRem | IURem | IAnd | IOr | IXor | IShl | IAShr | ILShr
  | FAdd | FSub | FMul | FDiv

datatype irv =
    Operand string irt
  | Constant irt int
  | ConstantReal irt int
  | ConstantNull irt
  | ConstantStruct "irv list"
  | Bin irop irv irv
  | ICmpSigned string irv irv
  | ICmpUnsigned string irv irv
  | FCmpOrdered string irv irv
  | Sext irv irt
  | Zext irv irt
  | Trunc irv irt
  | Sitofp irv irt
  | Uitofp irv irt
  | Fptosi irv irt
  | Fptoui irv irt
  | Fpext irv irt
  | Fptrunc irv irt
  | Bitcast irv irt
  | PtrToInt irv irt
  | NotV irv
  | NegV irv
  | FNegV irv
  | SelectV irv irv irv
  | ExtractValue irv nat irt
  | CallOnCopies string irv irv irt
  | ByteLoop irv irv irv irv
  | Reg nat irt
  | FnArg nat irt
  | Undef irt
  | InsertValue irv irv nat
  | Gep irv "irv list" irt
  | Global string irt
  | CString string "nat list"
  | ConstantText irt string

text \<open>
  \<open>CallOnCopies f x y t\<close> stores the values in slots of the frame and calls \<open>f\<close> on the slots.
  \<open>ByteLoop p len h body\<close> is the loop of the blocks \<open>hash.str.cond\<close> and \<open>hash.str.body\<close>: the slot of the
  hash starts as \<open>h\<close>; for each byte before \<open>len\<close> it gets the value of \<open>body\<close>, in which \<open>h\<close> is the
  slot and \<open>ch\<close> the byte at that distance from \<open>p\<close>. \<open>ExtractValue v i t\<close> has the type \<open>t\<close> of the element: for a
  field of a struct the one \<open>register_structs\<close> gave it.

  \<open>Reg\<close> is the result of a numbered instruction with an effect, \<open>FnArg\<close> an argument of the function,
  \<open>Global\<close> a function or global variable, \<open>CString hint text\<close> the address of a constant text,
  \<open>ConstantText\<close> a constant given by the text of a number; \<open>Gep\<close> names the type of its result.

  The type of a value, as the builder computes it.
\<close>

fun ir_type :: "irv \<Rightarrow> irt" where
  "ir_type (Operand x t) = t"
| "ir_type (Constant t n) = t"
| "ir_type (ConstantReal t n) = t"
| "ir_type (ConstantNull t) = t"
| "ir_type (ConstantStruct vs) = LiteralStruct (map ir_type vs)"
| "ir_type (Bin opr l r) = ir_type l"
| "ir_type (ICmpSigned p l r) = IntType 1"
| "ir_type (ICmpUnsigned p l r) = IntType 1"
| "ir_type (FCmpOrdered p l r) = IntType 1"
| "ir_type (Sext v t) = t"
| "ir_type (Zext v t) = t"
| "ir_type (Trunc v t) = t"
| "ir_type (Sitofp v t) = t"
| "ir_type (Uitofp v t) = t"
| "ir_type (Fptosi v t) = t"
| "ir_type (Fptoui v t) = t"
| "ir_type (Fpext v t) = t"
| "ir_type (Fptrunc v t) = t"
| "ir_type (Bitcast v t) = t"
| "ir_type (PtrToInt v t) = t"
| "ir_type (NotV v) = ir_type v"
| "ir_type (NegV v) = ir_type v"
| "ir_type (FNegV v) = ir_type v"
| "ir_type (SelectV c l r) = ir_type l"
| "ir_type (ExtractValue v i t) = t"
| "ir_type (CallOnCopies f x y t) = t"
| "ir_type (ByteLoop p l h body) = ir_type h"
| "ir_type (Reg n t) = t"
| "ir_type (FnArg n t) = t"
| "ir_type (Undef t) = t"
| "ir_type (InsertValue v x i) = ir_type v"
| "ir_type (Gep p idx t) = t"
| "ir_type (Global x t) = t"
| "ir_type (CString hint text) = I8PTR"
| "ir_type (ConstantText t s) = t"

definition SIGNED_INT_TYPES :: "string list" where
  "SIGNED_INT_TYPES = [''i8'', ''i16'', ''i32'', ''i64'']"

definition UNSIGNED_INT_TYPES :: "string list" where
  "UNSIGNED_INT_TYPES = [''u8'', ''u16'', ''u32'', ''u64'', ''bool'', ''rune'']"

definition is_int_type :: "tref \<Rightarrow> bool" where
  "is_int_type t \<longleftrightarrow> has_key INT_TYPES (type_key t)"

definition is_signed :: "tref \<Rightarrow> bool" where
  "is_signed t \<longleftrightarrow> named_in t SIGNED_INT_TYPES"

definition is_float :: "tref \<Rightarrow> bool" where
  "is_float t \<longleftrightarrow> has_key LLVM_FLOAT_TYPES (type_key t)"

definition unsupported :: "string \<Rightarrow> 'a res" where
  "unsupported what = Inl (NotImplementedError (''LLVM backend '' @ what))"

subsection \<open>Conversions\<close>

definition bool_value :: "irv \<Rightarrow> irv" where
  "bool_value v = (if ir_type v = IntType 1 then v else ICmpUnsigned ''!='' v (Constant (ir_type v) 0))"

fun is_null_constant :: "irv \<Rightarrow> bool" where
  "is_null_constant (ConstantNull _) = True"
| "is_null_constant _ = False"

definition cast_to :: "layout_env \<Rightarrow> irv \<Rightarrow> tref \<Rightarrow> irv res" where
  "cast_to E v t =
     rbind (llvm_type E t) (\<lambda>target.
       Inr (if ir_type v = target then v
         else
           (case (ir_type v, target) of
              (IntType a, IntType b) \<Rightarrow>
                if a < b then (if is_signed t then Sext v target else Zext v target)
                else if a > b then Trunc v target
                else v
            | (Pointer _, Pointer _) \<Rightarrow> if is_null_constant v then ConstantNull target else Bitcast v target
            | _ \<Rightarrow> v)))"

fun int_width :: "irt \<Rightarrow> nat" where
  "int_width (IntType w) = w"
| "int_width _ = 0"

definition cast_numeric :: "layout_env \<Rightarrow> irv \<Rightarrow> tref \<Rightarrow> tref \<Rightarrow> irv res" where
  "cast_numeric E v from_t to_t =
     rbind (llvm_type E to_t) (\<lambda>target.
       if ir_type v = target then Inr v
       else if is_int_type from_t \<and> is_int_type to_t then
         (if int_width (ir_type v) < int_width target
          then Inr (if is_signed from_t then Sext v target else Zext v target)
          else if int_width (ir_type v) > int_width target then Inr (Trunc v target)
          else Inr v)
       else if is_int_type from_t \<and> is_float to_t
       then Inr (if is_signed from_t then Sitofp v target else Uitofp v target)
       else if is_float from_t \<and> is_int_type to_t
       then Inr (if is_signed to_t then Fptosi v target else Fptoui v target)
       else if named from_t ''f32'' \<and> named to_t ''f64'' then Inr (Fpext v target)
       else if named from_t ''f64'' \<and> named to_t ''f32'' then Inr (Fptrunc v target)
       else unsupported (''cannot cast '' @ format_type_ref_user from_t @ '' to '' @ format_type_ref_user to_t))"

text \<open>The constant a slot starts with; the type of functions that return nothing has none.\<close>

fun default_llvm_value :: "irt \<Rightarrow> irv option" where
  "default_llvm_value VoidT = None"
| "default_llvm_value (IntType w) = Some (Constant (IntType w) 0)"
| "default_llvm_value FloatT = Some (ConstantReal FloatT 0)"
| "default_llvm_value DoubleT = Some (ConstantReal DoubleT 0)"
| "default_llvm_value (LiteralStruct ts) = Some (ConstantStruct (map (\<lambda>t. the (default_llvm_value t)) ts))"
| "default_llvm_value t = Some (ConstantNull t)"

subsection \<open>Operators\<close>

definition comparison_ops :: "string list" where
  "comparison_ops = [''=='', ''!='', ''<'', ''<='', ''>'', ''>='']"

definition emit_float_binary :: "irv \<Rightarrow> string \<Rightarrow> irv \<Rightarrow> irv res" where
  "emit_float_binary left opr right =
     (if opr = ''+'' then Inr (Bin FAdd left right)
      else if opr = ''-'' then Inr (Bin FSub left right)
      else if opr = ''*'' then Inr (Bin FMul left right)
      else if opr = ''/'' then Inr (Bin FDiv left right)
      else if opr \<in> set comparison_ops then Inr (FCmpOrdered opr left right)
      else unsupported (''does not support float operator '' @ opr))"

definition emit_binary_values :: "irv \<Rightarrow> string \<Rightarrow> irv \<Rightarrow> tref \<Rightarrow> irv res" where
  "emit_binary_values left opr right t =
     (if is_float t then emit_float_binary left opr right
      else if opr = ''+'' then Inr (Bin IAdd left right)
      else if opr = ''-'' then Inr (Bin ISub left right)
      else if opr = ''*'' then Inr (Bin IMul left right)
      else if opr = ''/'' then Inr (Bin (if is_signed t then ISDiv else IUDiv) left right)
      else if opr = ''%'' then Inr (Bin (if is_signed t then ISRem else IURem) left right)
      else if opr = ''&'' then Inr (Bin IAnd left right)
      else if opr = ''|'' then Inr (Bin IOr left right)
      else if opr = ''^'' then Inr (Bin IXor left right)
      else if opr = ''<<'' then Inr (Bin IShl left right)
      else if opr = ''>>'' then Inr (Bin (if is_signed t then IAShr else ILShr) left right)
      else if opr \<in> set comparison_ops
      then Inr (if named_in t UNSIGNED_INT_TYPES then ICmpUnsigned opr left right else ICmpSigned opr left right)
      else if opr = ''&&'' then Inr (Bin IAnd (bool_value left) (bool_value right))
      else if opr = ''||'' then Inr (Bin IOr (bool_value left) (bool_value right))
      else unsupported (''does not support binary operator '' @ opr))"

text \<open>The branch of \<open>emit_expr\<close> for unary operators without an overload, and two built-in functions.\<close>

definition emit_unary_value :: "layout_env \<Rightarrow> string \<Rightarrow> irv \<Rightarrow> tref \<Rightarrow> irv res" where
  "emit_unary_value E opr v t =
     (if opr = ''!'' then Inr (NotV (bool_value v))
      else if opr = ''-'' then Inr (if is_float t then FNegV v else NegV v)
      else if opr = ''~'' then rbind (llvm_type E t) (\<lambda>ty. Inr (Bin IXor v (Constant ty (-1))))
      else unsupported (''does not support unary operator '' @ opr))"

definition emit_min_max :: "string \<Rightarrow> irv \<Rightarrow> irv \<Rightarrow> tref \<Rightarrow> irv" where
  "emit_min_max name left right t =
     (let pred = (if name = ''min'' then ''<='' else ''>='') in
      SelectV
        (if is_float t then FCmpOrdered pred left right
         else if named_in t UNSIGNED_INT_TYPES then ICmpUnsigned pred left right
         else ICmpSigned pred left right)
        left right)"

definition emit_abs :: "irv \<Rightarrow> tref \<Rightarrow> irv" where
  "emit_abs v t =
     (if is_float t
      then SelectV (FCmpOrdered ''<'' v (ConstantReal (ir_type v) 0)) (Bin FSub (ConstantReal (ir_type v) 0) v) v
      else SelectV (ICmpSigned ''<'' v (Constant (ir_type v) 0)) (Bin ISub (Constant (ir_type v) 0) v) v)"

text \<open>
  What \<open>emit_print\<close> writes, in the order of its tests: a text, a character, a float through a function of the
  runtime that gives its text, or an integer through a format of \<open>printf\<close>.
\<close>

datatype printed = PrintedText irv | PrintedRune irv | PrintedFloat string irv | PrintedInt string irv

definition print_argument :: "irv \<Rightarrow> tref \<Rightarrow> printed res" where
  "print_argument v t =
     (if named t ''str'' then Inr (PrintedText v)
      else if named t ''rune'' then Inr (PrintedRune v)
      else if named t ''bool'' then Inr (PrintedInt ''%d'' (Zext (bool_value v) (IntType 32)))
      else if named t ''f32'' then Inr (PrintedFloat ''__nc_f32_to_str_out'' v)
      else if named t ''f64'' then Inr (PrintedFloat ''__nc_f64_to_str_out'' v)
      else if is_int_type t
      then Inr (PrintedInt ''%lld''
        (if int_width (ir_type v) < 64
         then (if is_signed t then Sext v (IntType 64) else Zext v (IntType 64))
         else v))
      else unsupported (''cannot print type: '' @ format_type_ref_user t))"

text \<open>
  \<open>emit_to_str\<close> on a type that is no text, slice or pointer: the function of the runtime that makes the text, and
  its argument.
\<close>

definition to_str_value :: "layout_env \<Rightarrow> irv \<Rightarrow> tref \<Rightarrow> (string \<times> irv) res" where
  "to_str_value E v t =
     (if named t ''rune'' then rbind (cast_to E v (NamedType ''rune'')) (\<lambda>v. Inr (''__nc_rune_to_str_out'', v))
      else if named t ''bool'' then Inr (''__nc_i32_to_str_out'', Zext (bool_value v) (IntType 32))
      else if is_int_type t
      then
        (if named_in t UNSIGNED_INT_TYPES \<and> \<not> named t ''bool''
         then rbind (cast_to E v (NamedType ''u64'')) (\<lambda>v. Inr (''__nc_u64_to_str_out'', v))
         else rbind (cast_to E v (NamedType ''i64'')) (\<lambda>v. Inr (''__nc_i64_to_str_out'', v)))
      else if is_float t
      then Inr (if named t ''f32'' then ''__nc_f32_to_str_out'' else ''__nc_f64_to_str_out'', v)
      else unsupported (''cannot convert '' @ format_type_ref_user t @ '' to str''))"

subsection \<open>Equality of structs\<close>

definition emit_str_eq :: "irv \<Rightarrow> irv \<Rightarrow> irv" where
  "emit_str_eq left right =
     ICmpSigned ''!='' (CallOnCopies ''__nc_str_eq_ptr'' left right (IntType 32)) (Constant (IntType 32) 0)"

text \<open>\<open>n\<close> bounds how deep structs are nested in each other.\<close>

fun emit_eq_values :: "nat \<Rightarrow> layout_env \<Rightarrow> irv \<Rightarrow> irv \<Rightarrow> tref \<Rightarrow> irv res" where
  "emit_eq_values 0 E left right t = Inl OutOfFuel"
| "emit_eq_values (Suc n) E left right t =
     (if named t ''str'' then Inr (emit_str_eq left right)
      else
        (case map_of (STRUCT_FIELDS E) (type_key t) of
           Some fs \<Rightarrow>
             rfold (\<lambda>(i, ft) result.
                 rbind (llvm_type E ft) (\<lambda>ty.
                 rbind (emit_eq_values n E (ExtractValue left i ty) (ExtractValue right i ty) ft) (\<lambda>eq.
                   Inr (Bin IAnd result eq))))
               (enumerate 0 (map snd fs)) (Constant (IntType 1) 1)
         | None \<Rightarrow> emit_binary_values left ''=='' right t))"

subsection \<open>Map keys\<close>

text \<open>
  A type is passed as text or as a type reference: only the text of a pointer is recognised as one. The
  key type of a map is text, the types of fields are references.
\<close>

definition emit_map_hash_mix :: "irv \<Rightarrow> irv \<Rightarrow> irv" where
  "emit_map_hash_mix h v =
     (let v = (case ir_type v of
           IntType w \<Rightarrow> if w < 64 then Zext v (IntType 64) else if w > 64 then Trunc v (IntType 64) else v
         | Pointer _ \<Rightarrow> PtrToInt v (IntType 64)
         | _ \<Rightarrow> v)
      in Bin IMul (Bin IXor h v) (Constant (IntType 64) 1099511628211))"

definition byte_step :: irv where
  "byte_step = emit_map_hash_mix (Operand ''h'' (IntType 64)) (Operand ''ch'' (IntType 8))"

fun emit_map_hash_value :: "nat \<Rightarrow> layout_env \<Rightarrow> bool \<Rightarrow> irv \<Rightarrow> tref \<Rightarrow> irv \<Rightarrow> irv res" where
  "emit_map_hash_value 0 E is_text v t h = Inl OutOfFuel"
| "emit_map_hash_value (Suc n) E is_text v t h =
     (if named t ''str'' then Inr (ByteLoop (ExtractValue v 0 I8PTR) (ExtractValue v 1 (IntType 64)) h byte_step)
      else
        (case map_of (STRUCT_FIELDS E) (type_key t) of
           Some fs \<Rightarrow>
             rfold (\<lambda>(i, ft) h. rbind (llvm_type E ft) (\<lambda>ty. emit_map_hash_value n E False (ExtractValue v i ty) ft h))
               (enumerate 0 (map snd fs)) h
         | None \<Rightarrow>
             if is_text \<and> (starts_with ''*'' (type_key t) \<or> starts_with ''?*'' (type_key t))
             then Inr (emit_map_hash_mix h v)
             else if has_key (ENUM_VARIANTS E) (type_key t) \<or> is_int_type t then Inr (emit_map_hash_mix h v)
             else unsupported (''cannot hash map key '' @ format_type_ref_user t)))"

fun emit_map_eq_value :: "nat \<Rightarrow> layout_env \<Rightarrow> irv \<Rightarrow> irv \<Rightarrow> tref \<Rightarrow> irv res" where
  "emit_map_eq_value 0 E left right t = Inl OutOfFuel"
| "emit_map_eq_value (Suc n) E left right t =
     (if named t ''str''
      then Inr (emit_str_eq left right)
      else
        (case map_of (STRUCT_FIELDS E) (type_key t) of
           Some fs \<Rightarrow>
             rfold (\<lambda>(i, ft) result.
                 rbind (llvm_type E ft) (\<lambda>ty.
                 rbind (emit_map_eq_value n E (ExtractValue left i ty) (ExtractValue right i ty) ft) (\<lambda>eq.
                   Inr (Bin IAnd result eq))))
               (enumerate 0 (map snd fs)) (Constant (IntType 1) 1)
         | None \<Rightarrow> Inr (ICmpUnsigned ''=='' left right)))"

definition HASH_SEED :: irv where
  "HASH_SEED = Constant (IntType 64) 14695981039346656037"

text \<open>The bodies of the functions \<open>map_hash_fn\<close> and \<open>map_eq_fn\<close> make for the keys of a map.\<close>

definition map_hash_fn :: "nat \<Rightarrow> layout_env \<Rightarrow> tref \<Rightarrow> irv \<Rightarrow> irv res" where
  "map_hash_fn n E key_type key = emit_map_hash_value n E True key key_type HASH_SEED"

definition map_eq_fn :: "nat \<Rightarrow> layout_env \<Rightarrow> tref \<Rightarrow> irv \<Rightarrow> irv \<Rightarrow> irv res" where
  "map_eq_fn n E key_type left right =
     rbind (emit_map_eq_value n E left right key_type) (\<lambda>eq. Inr (Zext eq (IntType 32)))"

text \<open>\<open>map_desc\<close>: sizes and offsets of the entries of a hash table.\<close>

record map_layout =
  key_size :: nat
  value_size :: nat
  entry_size :: nat
  key_offset :: nat
  value_offset :: nat
  state_offset :: nat

definition map_desc :: "nat \<Rightarrow> layout_env \<Rightarrow> tref \<Rightarrow> tref \<Rightarrow> map_layout res" where
  "map_desc n E key_type value_type =
     rbind (sizeof_type n E key_type) (\<lambda>ks. rbind (sizeof_type n E value_type) (\<lambda>vs.
     rbind (alignof_type n E key_type) (\<lambda>ka. rbind (alignof_type n E value_type) (\<lambda>va.
       let key_offset = 0;
         value_offset = align_to (key_offset + ks) va;
         state_offset = align_to (value_offset + vs) 4;
         entry_size = align_to (state_offset + 4) (Max {8, ka, va, 4})
       in Inr \<lparr>key_size = ks, value_size = vs, entry_size = entry_size, key_offset = key_offset,
            value_offset = value_offset, state_offset = state_offset\<rparr>))))"

definition type_label :: "string \<Rightarrow> string" where
  "type_label s = map (\<lambda>c. if py_isalnum c then c else CHR ''_'') s"

end
