(* ===== verification/LlvmValuesProps.thy ===== *)
theory LlvmValuesProps
  imports LlvmValues LayoutProps "HOL-Library.Signed_Division"
begin

unbundle bit_operations_syntax

text \<open>
  What the emitted values compute, under the documented meaning of LLVM's instructions: arithmetic and
  conversions of integers are those of the numbers the registers hold, equal map keys have equal hashes,
  and the entries of a map are laid out without overlap.
\<close>

subsection \<open>Instructions\<close>

datatype rv = RInt int | RPtr int | RStruct "rv list"

text \<open>
  The instructions the emitted values use, as parameters: operations on registers of a width, which hold
  bit patterns (numbers below \<open>2 ^ w\<close>), and the function of the runtime that compares strings.
\<close>

record llvm_sem =
  sem_bin :: "irop \<Rightarrow> nat \<Rightarrow> int \<Rightarrow> int \<Rightarrow> int option"
  sem_icmp :: "bool \<Rightarrow> string \<Rightarrow> nat \<Rightarrow> int \<Rightarrow> int \<Rightarrow> bool"
  sem_sext :: "nat \<Rightarrow> nat \<Rightarrow> int \<Rightarrow> int"
  sem_zext :: "nat \<Rightarrow> nat \<Rightarrow> int \<Rightarrow> int"
  sem_trunc :: "nat \<Rightarrow> nat \<Rightarrow> int \<Rightarrow> int"
  sem_call :: "string \<Rightarrow> (int \<Rightarrow> int) \<Rightarrow> rv \<Rightarrow> rv \<Rightarrow> int"

definition byte_loop :: "(int \<Rightarrow> int \<Rightarrow> int option) \<Rightarrow> (int \<Rightarrow> int) \<Rightarrow> int \<Rightarrow> nat \<Rightarrow> int \<Rightarrow> int option" where
  "byte_loop step mem p len h =
     foldl (\<lambda>acc i. case acc of None \<Rightarrow> None | Some h \<Rightarrow> step h (mem (p + int i))) (Some h) [0..<len]"

fun eval :: "llvm_sem \<Rightarrow> (int \<Rightarrow> int) \<Rightarrow> (string \<Rightarrow> rv) \<Rightarrow> irv \<Rightarrow> rv option" where
  "eval M mem env (Operand x t) = Some (env x)"
| "eval M mem env (Constant (IntType w) n) = Some (RInt (take_bit w n))"
| "eval M mem env (ConstantNull t) = Some (RPtr 0)"
| "eval M mem env (Bin opr l r) =
     (case (ir_type l, eval M mem env l, eval M mem env r) of
        (IntType w, Some (RInt a), Some (RInt b)) \<Rightarrow> map_option RInt (sem_bin M opr w a b)
      | _ \<Rightarrow> None)"
| "eval M mem env (ICmpSigned p l r) =
     (case (ir_type l, eval M mem env l, eval M mem env r) of
        (IntType w, Some (RInt a), Some (RInt b)) \<Rightarrow> Some (RInt (of_bool (sem_icmp M True p w a b)))
      | (Pointer _, Some (RPtr a), Some (RPtr b)) \<Rightarrow> Some (RInt (of_bool (sem_icmp M True p 64 a b)))
      | _ \<Rightarrow> None)"
| "eval M mem env (ICmpUnsigned p l r) =
     (case (ir_type l, eval M mem env l, eval M mem env r) of
        (IntType w, Some (RInt a), Some (RInt b)) \<Rightarrow> Some (RInt (of_bool (sem_icmp M False p w a b)))
      | (Pointer _, Some (RPtr a), Some (RPtr b)) \<Rightarrow> Some (RInt (of_bool (sem_icmp M False p 64 a b)))
      | _ \<Rightarrow> None)"
| "eval M mem env (Sext v t) =
     (case eval M mem env v of
        Some (RInt a) \<Rightarrow> Some (RInt (sem_sext M (int_width (ir_type v)) (int_width t) a)) | _ \<Rightarrow> None)"
| "eval M mem env (Zext v t) =
     (case eval M mem env v of
        Some (RInt a) \<Rightarrow> Some (RInt (sem_zext M (int_width (ir_type v)) (int_width t) a)) | _ \<Rightarrow> None)"
| "eval M mem env (Trunc v t) =
     (case eval M mem env v of
        Some (RInt a) \<Rightarrow> Some (RInt (sem_trunc M (int_width (ir_type v)) (int_width t) a)) | _ \<Rightarrow> None)"
| "eval M mem env (Bitcast v t) = eval M mem env v"
| "eval M mem env (PtrToInt v t) =
     (case eval M mem env v of Some (RPtr a) \<Rightarrow> Some (RInt a) | _ \<Rightarrow> None)"
| "eval M mem env (NotV v) =
     (case (ir_type v, eval M mem env v) of
        (IntType w, Some (RInt a)) \<Rightarrow> map_option RInt (sem_bin M IXor w a (take_bit w (- 1))) | _ \<Rightarrow> None)"
| "eval M mem env (NegV v) =
     (case (ir_type v, eval M mem env v) of
        (IntType w, Some (RInt a)) \<Rightarrow> map_option RInt (sem_bin M ISub w 0 a) | _ \<Rightarrow> None)"
| "eval M mem env (SelectV c l r) =
     (case eval M mem env c of
        Some (RInt b) \<Rightarrow> if b = 0 then eval M mem env r else eval M mem env l | _ \<Rightarrow> None)"
| "eval M mem env (ExtractValue v i t) =
     (case eval M mem env v of
        Some (RStruct vs) \<Rightarrow> if i < length vs then Some (vs ! i) else None | _ \<Rightarrow> None)"
| "eval M mem env (CallOnCopies f x y t) =
     (case (eval M mem env x, eval M mem env y) of
        (Some a, Some b) \<Rightarrow> Some (RInt (take_bit (int_width t) (sem_call M f mem a b))) | _ \<Rightarrow> None)"
| "eval M mem env (ByteLoop p len h body) =
     (case (eval M mem env p, eval M mem env len, eval M mem env h) of
        (Some (RPtr a), Some (RInt n), Some (RInt hv)) \<Rightarrow>
          map_option RInt (byte_loop (\<lambda>hv ch.
              case eval M mem (env(''h'' := RInt hv, ''ch'' := RInt ch)) body of Some (RInt x) \<Rightarrow> Some x | _ \<Rightarrow> None)
            mem a (nat n) hv)
      | _ \<Rightarrow> None)"
| "eval M mem env v = None"

text \<open>What LLVM's language reference says of them.\<close>

definition compare :: "string \<Rightarrow> int \<Rightarrow> int \<Rightarrow> bool" where
  "compare p a b =
     (if p = ''=='' then a = b else if p = ''!='' then a \<noteq> b else if p = ''<'' then a < b
      else if p = ''<='' then a \<le> b else if p = ''>'' then a > b else a \<ge> b)"

definition signed_of :: "nat \<Rightarrow> int \<Rightarrow> int" where
  "signed_of w a = signed_take_bit (w - 1) a"

locale llvm_ints =
  fixes M :: llvm_sem
  assumes wrap: "sem_bin M IAdd w a b = Some (take_bit w (a + b))" "sem_bin M ISub w a b = Some (take_bit w (a - b))"
      "sem_bin M IMul w a b = Some (take_bit w (a * b))"
    and bits: "sem_bin M IAnd w a b = Some (a AND b)" "sem_bin M IOr w a b = Some (a OR b)"
      "sem_bin M IXor w a b = Some (a XOR b)"
    and unsigned_division: "sem_bin M IUDiv w a b = (if b = 0 then None else Some (a div b))"
      "sem_bin M IURem w a b = (if b = 0 then None else Some (a mod b))"
    and signed_division: "sem_bin M ISDiv w a b =
        (if b = 0 \<or> signed_of w a = - (2 ^ (w - 1)) \<and> signed_of w b = - 1 then None
         else Some (take_bit w (signed_of w a sdiv signed_of w b)))"
      "sem_bin M ISRem w a b =
        (if b = 0 \<or> signed_of w a = - (2 ^ (w - 1)) \<and> signed_of w b = - 1 then None
         else Some (take_bit w (signed_of w a smod signed_of w b)))"
    and shifts: "sem_bin M IShl w a b = (if b < int w then Some (take_bit w (push_bit (nat b) a)) else None)"
      "sem_bin M ILShr w a b = (if b < int w then Some (drop_bit (nat b) a) else None)"
      "sem_bin M IAShr w a b = (if b < int w then Some (take_bit w (drop_bit (nat b) (signed_of w a))) else None)"
    and icmp: "sem_icmp M k p w a b = (if k then compare p (signed_of w a) (signed_of w b) else compare p a b)"
    and casts: "sem_sext M w w' a = take_bit w' (signed_of w a)" "sem_zext M w w' a = a"
      "sem_trunc M w w' a = take_bit w' a"

text \<open>A semantics that follows these rules.\<close>

definition reference_bin :: "irop \<Rightarrow> nat \<Rightarrow> int \<Rightarrow> int \<Rightarrow> int option" where
  "reference_bin opr w a b =
     (case opr of
        IAdd \<Rightarrow> Some (take_bit w (a + b)) | ISub \<Rightarrow> Some (take_bit w (a - b)) | IMul \<Rightarrow> Some (take_bit w (a * b))
      | IAnd \<Rightarrow> Some (a AND b) | IOr \<Rightarrow> Some (a OR b) | IXor \<Rightarrow> Some (a XOR b)
      | IUDiv \<Rightarrow> (if b = 0 then None else Some (a div b)) | IURem \<Rightarrow> (if b = 0 then None else Some (a mod b))
      | ISDiv \<Rightarrow> (if b = 0 \<or> signed_of w a = - (2 ^ (w - 1)) \<and> signed_of w b = - 1 then None
          else Some (take_bit w (signed_of w a sdiv signed_of w b)))
      | ISRem \<Rightarrow> (if b = 0 \<or> signed_of w a = - (2 ^ (w - 1)) \<and> signed_of w b = - 1 then None
          else Some (take_bit w (signed_of w a smod signed_of w b)))
      | IShl \<Rightarrow> (if b < int w then Some (take_bit w (push_bit (nat b) a)) else None)
      | ILShr \<Rightarrow> (if b < int w then Some (drop_bit (nat b) a) else None)
      | IAShr \<Rightarrow> (if b < int w then Some (take_bit w (drop_bit (nat b) (signed_of w a))) else None)
      | _ \<Rightarrow> None)"

text \<open>The strings are structs of a pointer and a length; the runtime compares lengths and bytes.\<close>

fun str_bytes :: "(int \<Rightarrow> int) \<Rightarrow> rv \<Rightarrow> int list" where
  "str_bytes mem (RStruct [RPtr p, RInt n]) = map (\<lambda>i. mem (p + int i)) [0..<nat n]"
| "str_bytes mem v = []"

definition reference_sem :: llvm_sem where
  "reference_sem = \<lparr>sem_bin = reference_bin,
     sem_icmp = (\<lambda>is_signed p w a b. if is_signed then compare p (signed_of w a) (signed_of w b) else compare p a b),
     sem_sext = (\<lambda>w w' a. take_bit w' (signed_of w a)), sem_zext = (\<lambda>w w' a. a),
     sem_trunc = (\<lambda>w w' a. take_bit w' a),
     sem_call = (\<lambda>f mem a b. of_bool (str_bytes mem a = str_bytes mem b))\<rparr>"

interpretation reference: llvm_ints reference_sem
  by unfold_locales (simp_all add: reference_sem_def reference_bin_def)

subsection \<open>Integers\<close>

text \<open>The numbers of an integer type of width \<open>w\<close>.\<close>

definition num_ok :: "tref \<Rightarrow> nat \<Rightarrow> int \<Rightarrow> bool" where
  "num_ok t w n \<longleftrightarrow> (if is_signed t then - (2 ^ (w - 1)) \<le> n \<and> n < 2 ^ (w - 1) else 0 \<le> n \<and> n < 2 ^ w)"

text \<open>What an operator means on these numbers, before the result is wrapped; \<open>None\<close> where it is undefined.\<close>

definition int_op :: "tref \<Rightarrow> nat \<Rightarrow> string \<Rightarrow> int \<Rightarrow> int \<Rightarrow> int option" where
  "int_op t w opr l r =
     (let undefined = (r = 0 \<or> is_signed t \<and> l = - (2 ^ (w - 1)) \<and> r = - 1) in
      if opr = ''+'' then Some (l + r)
      else if opr = ''-'' then Some (l - r)
      else if opr = ''*'' then Some (l * r)
      else if opr = ''/'' then (if undefined then None else Some (l sdiv r))
      else if opr = ''%'' then (if undefined then None else Some (l smod r))
      else if opr = ''&'' then Some (l AND r)
      else if opr = ''|'' then Some (l OR r)
      else if opr = ''^'' then Some (l XOR r)
      else if opr = ''<<'' then (if 0 \<le> r \<and> r < int w then Some (l * 2 ^ nat r) else None)
      else (if 0 \<le> r \<and> r < int w then Some (l div 2 ^ nat r) else None))"

definition arithmetic_ops :: "string list" where
  "arithmetic_ops = [''+'', ''-'', ''*'', ''/'', ''%'', ''&'', ''|'', ''^'', ''<<'', ''>>'']"

lemma int_type_cases:
  assumes "map_of INT_TYPES (type_key t) = Some (IntType w)"
  obtains (signed) "is_signed t" "\<not> named_in t UNSIGNED_INT_TYPES" "\<not> is_float t" "w \<in> {8, 16, 32, 64}"
    | (unsigned) "\<not> is_signed t" "named_in t UNSIGNED_INT_TYPES" "\<not> is_float t" "w \<in> {1, 8, 16, 32, 64}"
proof -
  have "(type_key t, IntType w) \<in> set INT_TYPES" using assms by (rule map_of_SomeD)
  then have "(type_key t, w) \<in> set [(''i8'', 8), (''i16'', 16), (''i32'', 32), (''i64'', 64)]
      \<or> (type_key t, w) \<in> set [(''u8'', 8), (''u16'', 16), (''u32'', 32), (''u64'', 64), (''bool'', 1), (''rune'', 32)]"
    by (auto simp: INT_TYPES_def)
  then show thesis
  proof
    assume k: "(type_key t, w) \<in> set [(''i8'', 8), (''i16'', 16), (''i32'', 32), (''i64'', 64)]"
    show thesis
      by (rule signed) (use k in \<open>auto simp: is_signed_def is_float_def named_in_def has_key_def SIGNED_INT_TYPES_def
          UNSIGNED_INT_TYPES_def LLVM_FLOAT_TYPES_def\<close>)
  next
    assume k: "(type_key t, w) \<in> set [(''u8'', 8), (''u16'', 16), (''u32'', 32), (''u64'', 64), (''bool'', 1), (''rune'', 32)]"
    show thesis
      by (rule unsigned) (use k in \<open>auto simp: is_signed_def is_float_def named_in_def has_key_def SIGNED_INT_TYPES_def
          UNSIGNED_INT_TYPES_def LLVM_FLOAT_TYPES_def\<close>)
  qed
qed

lemma signed_of_pattern: "0 < w \<Longrightarrow> - (2 ^ (w - 1)) \<le> n \<Longrightarrow> n < 2 ^ (w - 1) \<Longrightarrow> signed_of w (take_bit w n) = n"
  by (cases w) (simp_all add: signed_of_def signed_take_bit_take_bit signed_take_bit_int_eq_self)

lemma unsigned_pattern: "0 \<le> n \<Longrightarrow> n < 2 ^ w \<Longrightarrow> take_bit w n = (n :: int)"
  by (simp add: take_bit_int_eq_self)

lemma pattern_zero:
  assumes "0 < w" and "- (2 ^ (w - 1)) \<le> n" and "n < 2 ^ (w - 1)"
  shows "take_bit w n = 0 \<longleftrightarrow> n = (0 :: int)"
  using signed_of_pattern [OF assms] by (auto simp: signed_of_def)

lemma half_le: "(2 :: int) ^ (w - 1) \<le> 2 ^ w"
  by (rule power_increasing) simp_all

lemma negative_pattern:
  assumes "- (2 ^ (w - 1)) \<le> n" and "n < 0" and "0 < w"
  shows "take_bit w n = n + (2 :: int) ^ w"
proof -
  have "take_bit w n = take_bit w (n + 2 ^ w)" by (simp add: take_bit_eq_mod)
  moreover have "- (2 ^ w) \<le> n" using assms(1) half_le [of w] by linarith
  ultimately show ?thesis using assms(2) by (simp add: take_bit_int_eq_self)
qed

lemma shift_pattern:
  assumes "num_ok t w r" and "w \<in> {1, 8, 16, 32, 64}" and "is_signed t \<Longrightarrow> w \<noteq> 1"
  shows "(take_bit w r < int w) = (0 \<le> r \<and> r < int w)" and "0 \<le> r \<Longrightarrow> take_bit w r = r"
proof -
  show nonneg: "take_bit w r = r" if "0 \<le> r"
  proof (rule unsigned_pattern [OF that])
    show "r < 2 ^ w"
    proof (cases "is_signed t")
      case True
      then have "r < 2 ^ (w - 1)" using assms(1) by (simp add: num_ok_def)
      then show ?thesis using half_le [of w] by linarith
    qed (use assms(1) in \<open>simp add: num_ok_def\<close>)
  qed
  show "(take_bit w r < int w) = (0 \<le> r \<and> r < int w)"
  proof (cases "0 \<le> r")
    case False
    then have t: "is_signed t" and lo: "- (2 ^ (w - 1)) \<le> r" using assms(1) by (auto simp: num_ok_def split: if_split_asm)
    have "take_bit w r = r + 2 ^ w" using lo False assms(2) by (intro negative_pattern) auto
    moreover have "int w \<le> r + 2 ^ w" using assms(2,3) t lo by auto
    ultimately show ?thesis using False by simp
  qed (simp add: nonneg)
qed

lemma quotient_le: "0 \<le> (l :: int) \<Longrightarrow> 0 \<le> r \<Longrightarrow> l div r \<le> l"
  using zdiv_mono2 [of l 1 r] by (cases "r = 0") simp_all

context llvm_ints
begin

lemma signed_op:
  assumes t: "is_signed t" and w: "w \<in> {8, 16, 32, 64}" and l: "num_ok t w l" and r: "num_ok t w r"
  shows "sem_bin M ISDiv w (take_bit w l) (take_bit w r) = map_option (take_bit w) (int_op t w ''/'' l r)"
    and "sem_bin M ISRem w (take_bit w l) (take_bit w r) = map_option (take_bit w) (int_op t w ''%'' l r)"
    and "sem_bin M IAShr w (take_bit w l) (take_bit w r) = map_option (take_bit w) (int_op t w ''>>'' l r)"
proof -
  have w0: "0 < w" using w by auto
  have sl: "signed_of w (take_bit w l) = l" and sr: "signed_of w (take_bit w r) = r" and z: "take_bit w r = 0 \<longleftrightarrow> r = 0"
    using l r t w0 by (auto simp: num_ok_def intro: signed_of_pattern simp: pattern_zero)
  show "sem_bin M ISDiv w (take_bit w l) (take_bit w r) = map_option (take_bit w) (int_op t w ''/'' l r)"
    using t by (simp add: signed_division sl sr z int_op_def Let_def)
  show "sem_bin M ISRem w (take_bit w l) (take_bit w r) = map_option (take_bit w) (int_op t w ''%'' l r)"
    using t by (simp add: signed_division sl sr z int_op_def Let_def)
  show "sem_bin M IAShr w (take_bit w l) (take_bit w r) = map_option (take_bit w) (int_op t w ''>>'' l r)"
    using shift_pattern [OF r] w t by (auto simp: shifts sl int_op_def Let_def drop_bit_eq_div)
qed

lemma unsigned_op:
  assumes t: "\<not> is_signed t" and w: "w \<in> {1, 8, 16, 32, 64}" and l: "num_ok t w l" and r: "num_ok t w r"
  shows "sem_bin M IUDiv w (take_bit w l) (take_bit w r) = map_option (take_bit w) (int_op t w ''/'' l r)"
    and "sem_bin M IURem w (take_bit w l) (take_bit w r) = map_option (take_bit w) (int_op t w ''%'' l r)"
    and "sem_bin M ILShr w (take_bit w l) (take_bit w r) = map_option (take_bit w) (int_op t w ''>>'' l r)"
proof -
  have l': "0 \<le> l" "l < 2 ^ w" and r': "0 \<le> r" "r < 2 ^ w" using l r t by (simp_all add: num_ok_def)
  note p = unsigned_pattern [OF l'] unsigned_pattern [OF r']
  have small: "take_bit w x = x" if "0 \<le> x" "x \<le> l" for x using that l' by (simp add: take_bit_int_eq_self)
  have "l div r \<le> l" "l mod r \<le> l" "l div 2 ^ nat r \<le> l"
    using l' r' quotient_le [of l r] quotient_le [of l "2 ^ nat r"] by (simp_all add: zmod_le_nonneg_dividend)
  then have s: "take_bit w (l div r) = l div r" "take_bit w (l mod r) = l mod r" "take_bit w (l div 2 ^ nat r) = l div 2 ^ nat r"
    using l' r' by (cases "r = 0"; auto intro!: small simp: pos_imp_zdiv_nonneg_iff)+
  have d: "l sdiv r = l div r" "l smod r = l mod r"
    using l' r' by (auto simp: signed_divide_int_def signed_modulo_int_def sgn_if)
  show "sem_bin M IUDiv w (take_bit w l) (take_bit w r) = map_option (take_bit w) (int_op t w ''/'' l r)"
    using t by (simp add: unsigned_division p d s int_op_def Let_def)
  show "sem_bin M IURem w (take_bit w l) (take_bit w r) = map_option (take_bit w) (int_op t w ''%'' l r)"
    using t by (simp add: unsigned_division p d s int_op_def Let_def)
  show "sem_bin M ILShr w (take_bit w l) (take_bit w r) = map_option (take_bit w) (int_op t w ''>>'' l r)"
    using r' by (simp add: shifts p s int_op_def Let_def drop_bit_eq_div)
qed


text \<open>The operators on values that hold the patterns of two numbers.\<close>

lemma common_op:
  "sem_bin M IAdd w (take_bit w l) (take_bit w r) = map_option (take_bit w) (int_op t w ''+'' l r)"
  "sem_bin M ISub w (take_bit w l) (take_bit w r) = map_option (take_bit w) (int_op t w ''-'' l r)"
  "sem_bin M IMul w (take_bit w l) (take_bit w r) = map_option (take_bit w) (int_op t w ''*'' l r)"
  "sem_bin M IAnd w (take_bit w l) (take_bit w r) = map_option (take_bit w) (int_op t w ''&'' l r)"
  "sem_bin M IOr w (take_bit w l) (take_bit w r) = map_option (take_bit w) (int_op t w ''|'' l r)"
  "sem_bin M IXor w (take_bit w l) (take_bit w r) = map_option (take_bit w) (int_op t w ''^'' l r)"
  by (simp_all add: wrap bits int_op_def Let_def take_bit_add take_bit_diff take_bit_mult take_bit_and take_bit_or take_bit_xor)

lemma shl_op:
  assumes "num_ok t w r" and "w \<in> {1, 8, 16, 32, 64}" and "is_signed t \<Longrightarrow> w \<noteq> 1"
  shows "sem_bin M IShl w (take_bit w l) (take_bit w r) = map_option (take_bit w) (int_op t w ''<<'' l r)"
proof -
  have "take_bit w (take_bit w l * 2 ^ k) = take_bit w (l * 2 ^ k)" for k
    by (metis mod_mult_left_eq take_bit_eq_mod)
  then show ?thesis using shift_pattern [OF assms] by (auto simp: shifts int_op_def Let_def push_bit_eq_mult)
qed

lemma eval_Bin:
  assumes "ir_type left = IntType w" and "eval M mem env left = Some (RInt a)" and "eval M mem env right = Some (RInt b)"
  shows "eval M mem env (Bin opr left right) = map_option RInt (sem_bin M opr w a b)"
  using assms by simp

lemma arithmetic:
  assumes t: "map_of INT_TYPES (type_key t) = Some (IntType w)" and l: "num_ok t w l" and r: "num_ok t w r"
    and left: "ir_type left = IntType w" "eval M mem env left = Some (RInt (take_bit w l))"
    and right: "eval M mem env right = Some (RInt (take_bit w r))"
    and opr: "opr \<in> set arithmetic_ops"
  shows "\<exists>v. emit_binary_values left opr right t = Inr v
    \<and> eval M mem env v = map_option (\<lambda>n. RInt (take_bit w n)) (int_op t w opr l r)"
proof -
  from t show ?thesis
  proof (cases rule: int_type_cases)
    case signed
    have "sem_bin M IShl w (take_bit w l) (take_bit w r) = map_option (take_bit w) (int_op t w ''<<'' l r)"
      using signed by (intro shl_op [OF r]) auto
    note ops = signed_op [OF signed(1,4) l r] this common_op [where t = t]
    from opr signed show ?thesis
      unfolding arithmetic_ops_def
      by (elim in_list) (simp_all add: emit_binary_values_def eval_Bin [OF left right] ops option.map_comp comp_def del: eval.simps)
  next
    case unsigned
    have "sem_bin M IShl w (take_bit w l) (take_bit w r) = map_option (take_bit w) (int_op t w ''<<'' l r)"
      using unsigned by (intro shl_op [OF r]) auto
    note ops = unsigned_op [OF unsigned(1,4) l r] this common_op [where t = t]
    from opr unsigned show ?thesis
      unfolding arithmetic_ops_def
      by (elim in_list) (simp_all add: emit_binary_values_def eval_Bin [OF left right] ops option.map_comp comp_def del: eval.simps)
  qed
qed

lemma comparison:
  assumes t: "map_of INT_TYPES (type_key t) = Some (IntType w)" and l: "num_ok t w l" and r: "num_ok t w r"
    and left: "ir_type left = IntType w" "eval M mem env left = Some (RInt (take_bit w l))"
    and right: "eval M mem env right = Some (RInt (take_bit w r))"
  shows "eval M mem env (if named_in t UNSIGNED_INT_TYPES then ICmpUnsigned p left right else ICmpSigned p left right)
    = Some (RInt (of_bool (compare p l r)))"
  using t
proof (cases rule: int_type_cases)
  case signed
  then have "0 < w" by auto
  then have "signed_of w (take_bit w l) = l" "signed_of w (take_bit w r) = r"
    using l r signed(1) by (simp_all add: num_ok_def signed_of_pattern)
  then show ?thesis using signed left right by (simp add: icmp)
next
  case unsigned
  then have "take_bit w l = l" "take_bit w r = r" using l r by (simp_all add: num_ok_def unsigned_pattern)
  then show ?thesis using unsigned left right by (simp add: icmp)
qed

text \<open>Conversions keep the number, modulo the width of the result.\<close>

lemma extension:
  assumes t: "map_of INT_TYPES (type_key t) = Some (IntType w)" and n: "num_ok t w n"
    and v: "ir_type v = IntType w" "eval M mem env v = Some (RInt (take_bit w n))" and w': "w \<le> w'"
  shows "eval M mem env (if is_signed t then Sext v (IntType w') else Zext v (IntType w')) = Some (RInt (take_bit w' n))"
  using t
proof (cases rule: int_type_cases)
  case signed
  then have "0 < w" by auto
  then show ?thesis using signed n v by (simp add: num_ok_def casts signed_of_pattern)
next
  case unsigned
  then have b: "0 \<le> n" "n < 2 ^ w" using n by (simp_all add: num_ok_def)
  moreover have "(2 :: int) ^ w \<le> 2 ^ w'" using w' by (rule power_increasing) simp
  ultimately have "n < 2 ^ w'" by linarith
  with b show ?thesis using unsigned v by (simp add: casts unsigned_pattern)
qed

lemma truncation:
  assumes "ir_type v = IntType w" and "eval M mem env v = Some (RInt (take_bit w n))" and "w' \<le> w"
  shows "eval M mem env (Trunc v (IntType w')) = Some (RInt (take_bit w' n))"
  using assms by (simp add: casts min_def)

lemma selection:
  assumes t: "map_of INT_TYPES (type_key t) = Some (IntType w)" and l: "num_ok t w l" and r: "num_ok t w r"
    and left: "ir_type left = IntType w" "eval M mem env left = Some (RInt (take_bit w l))"
    and right: "eval M mem env right = Some (RInt (take_bit w r))"
  shows "eval M mem env (emit_min_max ''min'' left right t) = Some (RInt (take_bit w (min l r)))"
    and "eval M mem env (emit_min_max ''max'' left right t) = Some (RInt (take_bit w (max l r)))"
proof -
  have "\<not> is_float t" using t by (cases rule: int_type_cases) simp_all
  then show "eval M mem env (emit_min_max ''min'' left right t) = Some (RInt (take_bit w (min l r)))"
    "eval M mem env (emit_min_max ''max'' left right t) = Some (RInt (take_bit w (max l r)))"
    using comparison [OF assms, of "''<=''"] comparison [OF assms, of "''>=''"] left(2) right
    by (simp_all add: emit_min_max_def Let_def compare_def min_def max_def split: if_split_asm)
qed

lemma absolute:
  assumes t: "map_of INT_TYPES (type_key t) = Some (IntType w)" and s: "is_signed t" and n: "num_ok t w n"
    and v: "ir_type v = IntType w" "eval M mem env v = Some (RInt (take_bit w n))"
  shows "eval M mem env (emit_abs v t) = Some (RInt (take_bit w \<bar>n\<bar>))"
proof -
  have f: "\<not> is_float t" "0 < w" using t s by (cases rule: int_type_cases; auto)+
  then have "signed_of w (take_bit w n) = n" "signed_of w 0 = 0"
    using n s by (auto simp: num_ok_def signed_of_pattern) (simp add: signed_of_def)
  moreover have "take_bit w (- take_bit w n) = take_bit w (- n)" by (simp add: take_bit_minus)
  ultimately show ?thesis using v f by (simp add: emit_abs_def icmp compare_def wrap)
qed

end

lemma llvm_type_int: "map_of INT_TYPES (type_key t) = Some ty \<Longrightarrow> llvm_type E t = Inr ty"
proof -
  assume ty: "map_of INT_TYPES (type_key t) = Some ty"
  then have "\<not> named t ''void''" by (auto simp: named_def INT_TYPES_def)
  then have "llvm_named E t = Some ty" by (simp add: llvm_named_def ty)
  then show ?thesis by (cases t) (simp_all add: or_else_def)
qed

lemma is_int_typeI: "map_of INT_TYPES (type_key t) = Some ty \<Longrightarrow> is_int_type t"
  by (simp add: is_int_type_def has_key_def)

text \<open>
  C24: The operators on integers compute what they mean on the numbers the operands hold, wrapped to the
  width of the type: signed or unsigned as the type says, division truncating, and without a result
  exactly where the operator is undefined.
\<close>

theorem int_operators:
  assumes "llvm_ints M" and "map_of INT_TYPES (type_key t) = Some (IntType w)"
    and "num_ok t w l" and "num_ok t w r" and "ir_type left = IntType w"
    and "eval M mem env left = Some (RInt (take_bit w l))" and "eval M mem env right = Some (RInt (take_bit w r))"
  shows "(opr \<in> set arithmetic_ops \<longrightarrow> (\<exists>v. emit_binary_values left opr right t = Inr v
            \<and> eval M mem env v = map_option (\<lambda>n. RInt (take_bit w n)) (int_op t w opr l r)))
    \<and> (opr \<in> set comparison_ops \<longrightarrow> (\<exists>v. emit_binary_values left opr right t = Inr v
            \<and> eval M mem env v = Some (RInt (of_bool (compare opr l r)))))
    \<and> eval M mem env (emit_min_max ''min'' left right t) = Some (RInt (take_bit w (min l r)))
    \<and> eval M mem env (emit_min_max ''max'' left right t) = Some (RInt (take_bit w (max l r)))
    \<and> (is_signed t \<longrightarrow> eval M mem env (emit_abs left t) = Some (RInt (take_bit w \<bar>l\<bar>)))"
proof (intro conjI impI)
  note m = assms(1)
  show "\<exists>v. emit_binary_values left opr right t = Inr v
      \<and> eval M mem env v = map_option (\<lambda>n. RInt (take_bit w n)) (int_op t w opr l r)" if "opr \<in> set arithmetic_ops"
    by (rule llvm_ints.arithmetic [OF m assms(2-7) that])
  have f: "\<not> is_float t" using assms(2) by (cases rule: int_type_cases) simp_all
  show "\<exists>v. emit_binary_values left opr right t = Inr v \<and> eval M mem env v = Some (RInt (of_bool (compare opr l r)))"
    if "opr \<in> set comparison_ops"
  proof -
    have "emit_binary_values left opr right t
        = Inr (if named_in t UNSIGNED_INT_TYPES then ICmpUnsigned opr left right else ICmpSigned opr left right)"
      using that f unfolding comparison_ops_def
      by (elim in_list) (simp_all add: emit_binary_values_def comparison_ops_def)
    with llvm_ints.comparison [OF m assms(2-7), of opr] show ?thesis by blast
  qed
  show "eval M mem env (emit_min_max ''min'' left right t) = Some (RInt (take_bit w (min l r)))"
    "eval M mem env (emit_min_max ''max'' left right t) = Some (RInt (take_bit w (max l r)))"
    by (rule llvm_ints.selection [OF m assms(2-7)])+
  show "eval M mem env (emit_abs left t) = Some (RInt (take_bit w \<bar>l\<bar>))" if "is_signed t"
    by (rule llvm_ints.absolute [OF m assms(2) that assms(3,5,6)])
qed

theorem int_operators_witness:
  "\<exists>v. emit_binary_values (Operand ''a'' (IntType 8)) ''/'' (Operand ''b'' (IntType 8)) (NamedType ''i8'') = Inr v
    \<and> eval reference_sem (\<lambda>_. 0) (\<lambda>x. if x = ''a'' then RInt 249 else RInt 2) v = Some (RInt 253)"
proof -
  let ?env = "\<lambda>x. if x = ''a'' then RInt 249 else RInt 2"
  have t: "map_of INT_TYPES (type_key (NamedType ''i8'')) = Some (IntType 8)" "num_ok (NamedType ''i8'') 8 (- 7)"
      "num_ok (NamedType ''i8'') 8 2" "''/'' \<in> set arithmetic_ops"
    and o: "int_op (NamedType ''i8'') 8 ''/'' (- 7) 2 = Some (- 3)"
    by code_simp+
  show ?thesis
    using int_operators [OF reference.llvm_ints_axioms t(1-3), of "Operand ''a'' (IntType 8)" "\<lambda>_. 0" ?env
        "Operand ''b'' (IntType 8)" "''/''"] t(4) o
    by (simp add: take_bit_eq_mod)
qed

text \<open>
  C25: A conversion between integer types gives the number of the operand modulo the width of the target,
  and a value of the LLVM type of the target.
\<close>

theorem int_conversion:
  assumes "llvm_ints M" and "map_of INT_TYPES (type_key from_t) = Some (IntType w)"
    and "map_of INT_TYPES (type_key to_t) = Some (IntType w')" and "num_ok from_t w n"
    and "ir_type v = IntType w" and "eval M mem env v = Some (RInt (take_bit w n))"
  shows "\<exists>u. cast_numeric E v from_t to_t = Inr u \<and> ir_type u = IntType w'
    \<and> eval M mem env u = Some (RInt (take_bit w' n))"
proof -
  note ty = llvm_type_int [OF assms(3), of E] is_int_typeI [OF assms(2)] is_int_typeI [OF assms(3)]
  consider "w = w'" | "w < w'" | "w' < w" by linarith
  then show ?thesis
  proof cases
    case 1
    then show ?thesis using assms(5,6) by (simp add: cast_numeric_def ty)
  next
    case 2
    then show ?thesis
      using llvm_ints.extension [OF assms(1,2,4,5,6), of w'] assms(5) by (simp add: cast_numeric_def ty)
  next
    case 3
    then show ?thesis
      using llvm_ints.truncation [OF assms(1,5,6), of w'] assms(5) by (simp add: cast_numeric_def ty)
  qed
qed

definition no_decls :: layout_env where
  "no_decls = \<lparr>STRUCT_FIELDS = [], STRUCT_TYPES = [], ENUM_VARIANTS = [], IFACE_METHODS = []\<rparr>"

theorem int_conversion_witness:
  "\<exists>u. cast_numeric no_decls (Operand ''a'' (IntType 8)) (NamedType ''i8'') (NamedType ''u32'') = Inr u
    \<and> eval reference_sem (\<lambda>_. 0) (\<lambda>_. RInt 255) u = Some (RInt 4294967295)"
proof -
  have t: "map_of INT_TYPES (type_key (NamedType ''i8'')) = Some (IntType 8)"
      "map_of INT_TYPES (type_key (NamedType ''u32'')) = Some (IntType 32)" "num_ok (NamedType ''i8'') 8 (- 1)"
    by code_simp+
  show ?thesis
    using int_conversion [OF reference.llvm_ints_axioms t, of "Operand ''a'' (IntType 8)" "\<lambda>_. 0" "\<lambda>_. RInt 255" no_decls]
    by (auto simp: take_bit_eq_mod)
qed

text \<open>The number a function of the runtime, or a format of \<open>printf\<close>, reads from its argument.\<close>

definition read_number :: "string \<Rightarrow> int \<Rightarrow> int" where
  "read_number f x =
     (if f = ''__nc_u64_to_str_out'' then x
      else signed_of (if f \<in> {''%d'', ''__nc_i32_to_str_out''} then 32 else 64) x)"

lemma number_types:
  assumes "map_of INT_TYPES (type_key t) = Some (IntType w)"
  shows "\<not> named t ''str''" "\<not> named t ''f32''" "\<not> named t ''f64''" "named t ''bool'' \<Longrightarrow> w = 1" "named t ''rune'' \<Longrightarrow> w = 32"
    "named t ''bool'' \<Longrightarrow> \<not> is_signed t"
  using assms by (auto simp: named_def INT_TYPES_def is_signed_def named_in_def SIGNED_INT_TYPES_def)

text \<open>Numbers of integer types are numbers of 64 bits, read as signed but for the upper half of \<open>u64\<close>.\<close>

lemma number_range:
  assumes "map_of INT_TYPES (type_key t) = Some (IntType w)" and "num_ok t w n"
  shows "signed_of 64 (take_bit 64 n) = (if n < 2 ^ 63 then n else n - 2 ^ 64)"
    and "is_signed t \<Longrightarrow> signed_of 64 (take_bit 64 n) = n" and "\<not> is_signed t \<Longrightarrow> take_bit 64 n = n"
proof -
  have w: "w \<le> 64" using assms(1) by (cases rule: int_type_cases; auto)
  have "(2 :: int) ^ w \<le> 2 ^ 64" "(2 :: int) ^ (w - 1) \<le> 2 ^ 63"
    using power_increasing [of w 64 "2 :: int"] power_increasing [of "w - 1" 63 "2 :: int"] w by simp_all
  then have range: "- (2 ^ 63) \<le> n" "n < 2 ^ 64" "n < 2 ^ 63 \<or> \<not> is_signed t" "0 \<le> n \<or> is_signed t"
    using assms(2) by (auto simp: num_ok_def split: if_split_asm)
  have top: "take_bit 64 n = take_bit 64 (n - 2 ^ 64)" by (simp add: take_bit_eq_mod)
  show s: "signed_of 64 (take_bit 64 n) = (if n < 2 ^ 63 then n else n - 2 ^ 64)"
  proof (cases "n < 2 ^ 63")
    case True
    then show ?thesis using range(1) by (simp add: signed_of_pattern)
  next
    case False
    then show ?thesis using range(2) unfolding top by (simp add: signed_of_pattern)
  qed
  show "signed_of 64 (take_bit 64 n) = n" if "is_signed t" using range(3) that s by simp
  show "take_bit 64 n = n" if "\<not> is_signed t" using range(2,4) that by (intro unsigned_pattern) simp_all
qed

lemma bool_number:
  assumes "llvm_ints M" and "map_of INT_TYPES (type_key t) = Some (IntType w)" and "num_ok t w n"
    and "ir_type v = IntType w" and "eval M mem env v = Some (RInt (take_bit w n))" and "named t ''bool''"
  shows "\<exists>x. eval M mem env (Zext (bool_value v) (IntType 32)) = Some (RInt x) \<and> signed_of 32 x = n \<and> n < 2 ^ 63"
proof -
  note b = number_types(4,6) [OF assms(2,6)]
  have n: "0 \<le> n" "n < 2" using assms(3) b by (simp_all add: num_ok_def)
  have "bool_value v = v" using assms(4) b by (simp add: bool_value_def)
  then have "eval M mem env (Zext (bool_value v) (IntType 32)) = Some (RInt (take_bit 32 n))"
    using llvm_ints.extension [OF assms(1-5), of 32] b by simp
  then show ?thesis using n signed_of_pattern [of 32 n] by auto
qed

text \<open>
  C26: What is written for a value of an integer type. \<open>print\<close> of a number reads a signed argument of 64 bits, of a
  \<open>bool\<close> one of 32, so it writes the number, except for an \<open>u64\<close> from \<open>2 ^ 63\<close> on, which comes out
  negative; \<open>str\<close> always gives the number. A \<open>rune\<close> is written as the character in both.
\<close>

theorem printed_integers:
  assumes "llvm_ints M" and "map_of INT_TYPES (type_key t) = Some (IntType w)" and "num_ok t w n"
    and "ir_type v = IntType w" and "eval M mem env v = Some (RInt (take_bit w n))"
  shows "if named t ''rune''
    then print_argument v t = Inr (PrintedRune v) \<and> to_str_value E v t = Inr (''__nc_rune_to_str_out'', v)
    else (\<exists>fmt u x. print_argument v t = Inr (PrintedInt fmt u) \<and> eval M mem env u = Some (RInt x)
        \<and> read_number fmt x = (if n < 2 ^ 63 then n else n - 2 ^ 64))
      \<and> (\<exists>f u x. to_str_value E v t = Inr (f, u) \<and> eval M mem env u = Some (RInt x) \<and> read_number f x = n)"
proof -
  note t = number_types [OF assms(2)] is_int_typeI [OF assms(2)]
  have w: "w \<le> 64" using assms(2) by (cases rule: int_type_cases; auto)
  have k: "llvm_type E (NamedType ''u64'') = Inr (IntType 64)" "llvm_type E (NamedType ''i64'') = Inr (IntType 64)"
    "llvm_type E (NamedType ''rune'') = Inr (IntType 32)"
    by (intro llvm_type_int; simp add: INT_TYPES_def type_key_def)+
  have s: "\<not> is_signed (NamedType ''u64'')" "is_signed (NamedType ''i64'')"
    by (simp_all add: is_signed_def named_in_def SIGNED_INT_TYPES_def type_key_def)
  consider (rune) "named t ''rune''" | (bool) "named t ''bool''" "\<not> named t ''rune''"
    | (number) "\<not> named t ''rune''" "\<not> named t ''bool''" by blast
  then show ?thesis
  proof cases
    case rune
    then show ?thesis using t assms(4) by (simp add: print_argument_def to_str_value_def cast_to_def k del: llvm_type.simps)
  next
    case bool
    then show ?thesis using t bool_number [OF assms bool(1)]
      by (auto simp: print_argument_def to_str_value_def read_number_def)
  next
    case number
    let ?ext = "if is_signed t then Sext v (IntType 64) else Zext v (IntType 64)"
    have ext: "eval M mem env (if w = 64 then v else ?ext) = Some (RInt (take_bit 64 n))"
      using llvm_ints.extension [OF assms, of 64] w assms(5) by simp
    have "print_argument v t = Inr (PrintedInt ''%lld'' (if w = 64 then v else ?ext))"
      using number t w assms(4) by (auto simp: print_argument_def)
    moreover have "to_str_value E v t =
        Inr (if is_signed t then ''__nc_i64_to_str_out'' else ''__nc_u64_to_str_out'', if w = 64 then v else ?ext)"
      using assms(2) number t w assms(4)
      by (cases rule: int_type_cases; cases "w = 64") (simp_all add: to_str_value_def cast_to_def k s del: llvm_type.simps)
    ultimately show ?thesis
      using ext number number_range [OF assms(2,3)] by (simp add: read_number_def)
  qed
qed

theorem printed_integers_witness:
  "\<exists>fmt u x. print_argument (Operand ''a'' (IntType 64)) (NamedType ''u64'') = Inr (PrintedInt fmt u)
     \<and> eval reference_sem (\<lambda>_. 0) (\<lambda>_. RInt 18446744073709551615) u = Some (RInt x) \<and> read_number fmt x = - 1"
proof -
  have t: "map_of INT_TYPES (type_key (NamedType ''u64'')) = Some (IntType 64)"
      "num_ok (NamedType ''u64'') 64 18446744073709551615" and r: "\<not> named (NamedType ''u64'') ''rune''"
    by code_simp+
  show ?thesis
    using printed_integers [OF reference.llvm_ints_axioms t, of "Operand ''a'' (IntType 64)" "\<lambda>_. 0"
        "\<lambda>_. RInt 18446744073709551615" no_decls] r
    by (simp add: take_bit_eq_mod)
qed

end
