(* ===== verification/MapKeysProps.thy ===== *)
theory MapKeysProps
  imports LlvmValuesProps TypeRulesProps
begin

text \<open>
  The keys of maps: the emitted equality decides whether two keys are the same, the emitted hash is the same
  for the same keys, and the entries of the table do not overlap.
\<close>

subsection \<open>Keys at run time\<close>

text \<open>
  The values of a key type, and when two of them are the same key: strings by their bytes, structs by
  their fields, the other types by the register.
\<close>

fun string_ok :: "rv \<Rightarrow> bool" where
  "string_ok (RStruct [RPtr p, RInt k]) \<longleftrightarrow> 0 \<le> k"
| "string_ok v \<longleftrightarrow> False"

fun key_ok :: "nat \<Rightarrow> layout_env \<Rightarrow> tref \<Rightarrow> rv \<Rightarrow> bool" where
  "key_ok 0 E t v = False"
| "key_ok (Suc n) E t v =
     (if named t ''str'' then string_ok v
      else
        (case map_of (STRUCT_FIELDS E) (type_key t) of
           Some fs \<Rightarrow> (case v of RStruct vs \<Rightarrow> list_all2 (key_ok n E) (map snd fs) vs | _ \<Rightarrow> False)
         | None \<Rightarrow>
             (case llvm_type E t of
                Inr (IntType w) \<Rightarrow> (case v of RInt x \<Rightarrow> 0 \<le> x \<and> x < 2 ^ w | _ \<Rightarrow> False)
              | Inr (Pointer _) \<Rightarrow> (case v of RPtr _ \<Rightarrow> True | _ \<Rightarrow> False)
              | _ \<Rightarrow> False)))"

fun same_key :: "nat \<Rightarrow> layout_env \<Rightarrow> (int \<Rightarrow> int) \<Rightarrow> tref \<Rightarrow> rv \<Rightarrow> rv \<Rightarrow> bool" where
  "same_key 0 E mem t a b = False"
| "same_key (Suc n) E mem t a b =
     (if named t ''str'' then str_bytes mem a = str_bytes mem b
      else
        (case map_of (STRUCT_FIELDS E) (type_key t) of
           Some fs \<Rightarrow>
             (case (a, b) of
                (RStruct as, RStruct bs) \<Rightarrow>
                  length as = length fs \<and> length bs = length fs
                  \<and> (\<forall>i < length fs. same_key n E mem (snd (fs ! i)) (as ! i) (bs ! i))
              | _ \<Rightarrow> False)
         | None \<Rightarrow> a = b))"

lemma string_key:
  assumes "named t ''str''" and "key_ok (Suc n) E t v"
  shows "\<exists>p k. v = RStruct [RPtr p, RInt k] \<and> 0 \<le> k"
  using assms by (cases v rule: string_ok.cases) simp_all

text \<open>What the runtime documents of its comparison of strings.\<close>

locale llvm_strings = llvm_ints +
  assumes str_eq: "(take_bit 32 (sem_call M ''__nc_str_eq_ptr'' mem a b) \<noteq> 0) = (str_bytes mem a = str_bytes mem b)"
begin

lemma str_eq_value:
  assumes "eval M mem env left = Some a" and "eval M mem env right = Some b"
  shows "eval M mem env (emit_str_eq left right) = Some (RInt (of_bool (str_bytes mem a = str_bytes mem b)))"
proof -
  have z: "signed_take_bit 31 (take_bit 32 x) = 0 \<longleftrightarrow> take_bit 32 x = 0" for x :: int
    using signed_take_bit_eq_iff_take_bit_eq [of 31 "take_bit 32 x" 0] by simp
  have e: "eval M mem env (emit_str_eq left right)
      = Some (RInt (of_bool (take_bit 32 (sem_call M ''__nc_str_eq_ptr'' mem a b) \<noteq> 0)))"
    using assms by (simp add: emit_str_eq_def icmp compare_def signed_of_def z del: signed_take_bit_take_bit)
  show ?thesis unfolding e str_eq ..
qed

subsection \<open>Equality\<close>

lemma fold_and:
  assumes "rfold (\<lambda>(i, ft) acc. rbind (f i ft) (\<lambda>eq. Inr (Bin IAnd acc eq))) xs acc = Inr q"
    and "\<And>i ft eq. (i, ft) \<in> set xs \<Longrightarrow> f i ft = Inr eq \<Longrightarrow> eval M mem env eq = Some (RInt (of_bool (P i)))"
    and "ir_type acc = IntType 1" and "eval M mem env acc = Some (RInt (of_bool c))"
  shows "ir_type q = IntType 1 \<and> eval M mem env q = Some (RInt (of_bool (c \<and> (\<forall>x \<in> set xs. P (fst x)))))"
  using assms
proof (induction xs arbitrary: acc c)
  case (Cons x xs)
  obtain i ft where x: "x = (i, ft)" by (cases x)
  from Cons.prems(1) obtain eq where eq: "f i ft = Inr eq"
    and rest: "rfold (\<lambda>(i, ft) acc. rbind (f i ft) (\<lambda>eq. Inr (Bin IAnd acc eq))) xs (Bin IAnd acc eq) = Inr q"
    by (auto simp: x)
  have "eval M mem env eq = Some (RInt (of_bool (P i)))" by (rule Cons.prems(2) [OF _ eq]) (simp add: x)
  then have acc: "eval M mem env (Bin IAnd acc eq) = Some (RInt (of_bool (c \<and> P i)))"
    using Cons.prems(3,4) by (simp add: bits)
  have "ir_type q = IntType 1
      \<and> eval M mem env q = Some (RInt (of_bool ((c \<and> P i) \<and> (\<forall>x \<in> set xs. P (fst x)))))"
  proof (rule Cons.IH [OF rest _ _ acc])
    show "eval M mem env eq' = Some (RInt (of_bool (P j)))" if "(j, gt) \<in> set xs" "f j gt = Inr eq'" for j gt eq'
      by (rule Cons.prems(2) [OF _ that(2)]) (simp add: that(1))
    show "ir_type (Bin IAnd acc eq) = IntType 1" using Cons.prems(3) by simp
  qed
  then show ?case by (simp add: x del: eval.simps)
qed simp

lemma nth_enumerate_mem: "(i, x) \<in> set (enumerate 0 xs) \<longleftrightarrow> i < length xs \<and> x = xs ! i"
  by (auto simp: in_set_enumerate_eq)

lemma map_eq_correct:
  "emit_map_eq_value n E left right t = Inr q \<Longrightarrow> eval M mem env left = Some a \<Longrightarrow> eval M mem env right = Some b
   \<Longrightarrow> key_ok n E t a \<Longrightarrow> key_ok n E t b \<Longrightarrow> llvm_type E t = Inr (ir_type left)
   \<Longrightarrow> eval M mem env q = Some (RInt (of_bool (same_key n E mem t a b)))"
proof (induction n arbitrary: left right t q a b)
  case (Suc n)
  show ?case
  proof (cases "named t ''str''")
    case True
    then show ?thesis using Suc.prems(1-3) str_eq_value [of mem env left a right b] by simp
  next
    case str: False
    show ?thesis
    proof (cases "map_of (STRUCT_FIELDS E) (type_key t)")
      case None
      with str have q: "q = ICmpUnsigned ''=='' left right" using Suc.prems(1) by simp
      from Suc.prems(4,5) None str Suc.prems(6)
      consider w x y where "ir_type left = IntType w" "a = RInt x" "b = RInt y"
        | p x y where "ir_type left = Pointer p" "a = RPtr x" "b = RPtr y"
        by (auto split: irt.splits rv.splits)
      then show ?thesis
        using Suc.prems(2,3) None str by cases (simp_all add: q icmp compare_def)
    next
      case (Some fs)
      obtain vs ws where v: "a = RStruct vs" "b = RStruct ws"
        and vs: "list_all2 (key_ok n E) (map snd fs) vs" and ws: "list_all2 (key_ok n E) (map snd fs) ws"
        using Suc.prems(4,5) Some str by (auto split: rv.splits)
      note len = list_all2_lengthD [OF vs] list_all2_lengthD [OF ws]
      let ?f = "\<lambda>i ft. rbind (llvm_type E ft) (\<lambda>ty. emit_map_eq_value n E (ExtractValue left i ty) (ExtractValue right i ty) ft)"
      have fold: "rfold (\<lambda>(i, ft) acc. rbind (?f i ft) (\<lambda>eq. Inr (Bin IAnd acc eq)))
          (enumerate 0 (map snd fs)) (Constant (IntType 1) 1) = Inr q"
        using Suc.prems(1) Some str by (simp add: rbind_assoc)
      have "eval M mem env eq = Some (RInt (of_bool (same_key n E mem (snd (fs ! i)) (vs ! i) (ws ! i))))"
        if i: "(i, ft) \<in> set (enumerate 0 (map snd fs))" and eq: "?f i ft = Inr eq" for i ft eq
      proof -
        from i have i: "i < length fs" "ft = snd (fs ! i)" by (auto simp: nth_enumerate_mem)
        from eq obtain ty where ty: "llvm_type E ft = Inr ty"
          and eq: "emit_map_eq_value n E (ExtractValue left i ty) (ExtractValue right i ty) ft = Inr eq" by auto
        have "eval M mem env (ExtractValue left i ty) = Some (vs ! i)" "eval M mem env (ExtractValue right i ty) = Some (ws ! i)"
          using Suc.prems(2,3) v len i(1) by simp_all
        moreover have "key_ok n E ft (vs ! i)" "key_ok n E ft (ws ! i)"
          using vs ws i by (auto simp: list_all2_conv_all_nth)
        ultimately show ?thesis using Suc.IH [OF eq] ty i(2) by simp
      qed
      then have "ir_type q = IntType 1 \<and> eval M mem env q = Some (RInt (of_bool (True
          \<and> (\<forall>x \<in> set (enumerate 0 (map snd fs)).
                same_key n E mem (snd (fs ! fst x)) (vs ! fst x) (ws ! fst x)))))"
        by (rule fold_and [OF fold]) simp_all
      moreover have "same_key (Suc n) E mem t a b
          = (\<forall>x \<in> set (enumerate 0 (map snd fs)). same_key n E mem (snd (fs ! fst x)) (vs ! fst x) (ws ! fst x))"
        using len by (auto simp: v Some str Ball_def in_set_enumerate_eq)
      ultimately show ?thesis by simp
    qed
  qed
qed simp

subsection \<open>Hashes\<close>

text \<open>The bytes decide the loop, wherever they are stored.\<close>

lemma byte_loop_bytes:
  "byte_loop step mem p k h
   = foldl (\<lambda>acc ch. case acc of None \<Rightarrow> None | Some h \<Rightarrow> step h ch) (Some h) (map (\<lambda>i. mem (p + int i)) [0..<k])"
  by (simp add: byte_loop_def foldl_map)

lemma mix_value:
  assumes "ir_type h = IntType 64" and "eval M mem env h = Some (RInt x)"
    and "ir_type v = IntType w \<and> eval M mem env v = Some (RInt a) \<or> ir_type v = Pointer t \<and> eval M mem env v = Some (RPtr a)"
  shows "\<exists>c. eval M mem env (emit_map_hash_mix h v) = Some (RInt (take_bit 64 ((x XOR c) * 1099511628211)))
    \<and> c = (if ir_type v = IntType w \<and> 64 < w then take_bit 64 a else a) \<and> ir_type (emit_map_hash_mix h v) = IntType 64"
  using assms by (auto simp: emit_map_hash_mix_def Let_def wrap bits casts take_bit_mult)

definition hash_step :: "int \<Rightarrow> int \<Rightarrow> int option" where
  "hash_step h c = Some (take_bit 64 ((h XOR c) * 1099511628211))"

lemma byte_loop_value:
  assumes "eval M mem env h = Some (RInt x)" and "eval M mem env v = Some (RStruct [RPtr p, RInt k])" and "0 \<le> k"
  shows "eval M mem env (ByteLoop (ExtractValue v 0 I8PTR) (ExtractValue v 1 (IntType 64)) h byte_step)
    = map_option RInt (foldl (\<lambda>acc c. case acc of None \<Rightarrow> None | Some h \<Rightarrow> hash_step h c) (Some x)
        (str_bytes mem (RStruct [RPtr p, RInt k])))"
proof -
  have "eval M mem (env(''h'' := RInt h, ''ch'' := RInt c)) byte_step = map_option RInt (hash_step h c)" for h c
    by (simp add: byte_step_def emit_map_hash_mix_def Let_def wrap bits casts hash_step_def take_bit_mult)
  then show ?thesis using assms 
    by (simp add: byte_loop_bytes hash_step_def cong: option.case_cong)
qed

lemma foldl_hash_step: "\<exists>y. foldl (\<lambda>acc c. case acc of None \<Rightarrow> None | Some h \<Rightarrow> hash_step h c) (Some x) cs = Some y"
  by (induction cs arbitrary: x) (simp_all add: hash_step_def)

definition hashes_agree :: "(int \<Rightarrow> int) \<Rightarrow> (string \<Rightarrow> rv) \<Rightarrow> irv \<Rightarrow> irv \<Rightarrow> bool" where
  "hashes_agree mem env h h' \<longleftrightarrow>
     ir_type h = IntType 64 \<and> ir_type h' = IntType 64
     \<and> (\<exists>x. eval M mem env h = Some (RInt x) \<and> eval M mem env h' = Some (RInt x))"

lemma fold_hash:
  assumes "rfold (\<lambda>(i, ft) h. f i ft h) xs h = Inr u" and "rfold (\<lambda>(i, ft) h. g i ft h) xs h' = Inr u'"
    and "\<And>i ft h h' u u'. (i, ft) \<in> set xs \<Longrightarrow> f i ft h = Inr u \<Longrightarrow> g i ft h' = Inr u' \<Longrightarrow> hashes_agree mem env h h'
        \<Longrightarrow> hashes_agree mem env u u'"
    and "hashes_agree mem env h h'"
  shows "hashes_agree mem env u u'"
  using assms
proof (induction xs arbitrary: h h')
  case (Cons x xs)
  obtain i ft where x: "x = (i, ft)" by (cases x)
  obtain v v' where v: "f i ft h = Inr v" "g i ft h' = Inr v'"
    and rest: "rfold (\<lambda>(i, ft) h. f i ft h) xs v = Inr u" "rfold (\<lambda>(i, ft) h. g i ft h) xs v' = Inr u'"
    using Cons.prems(1,2) by (cases "f i ft h"; cases "g i ft h'") (simp_all add: x)
  have "hashes_agree mem env v v'" by (rule Cons.prems(3) [OF _ v Cons.prems(4)]) (simp add: x)
  then show ?case
    using Cons.IH [OF rest] Cons.prems(3) by (metis list.set_intros(2))
qed simp

lemma hash_agrees:
  "emit_map_hash_value n E is_text left t h = Inr u \<Longrightarrow> emit_map_hash_value n E is_text right t h' = Inr u'
   \<Longrightarrow> eval M mem env left = Some a \<Longrightarrow> eval M mem env right = Some b \<Longrightarrow> key_ok n E t a \<Longrightarrow> key_ok n E t b
   \<Longrightarrow> llvm_type E t = Inr (ir_type left) \<Longrightarrow> ir_type right = ir_type left \<Longrightarrow> same_key n E mem t a b
   \<Longrightarrow> hashes_agree mem env h h' \<Longrightarrow> hashes_agree mem env u u'"
proof (induction n arbitrary: is_text left right t h h' u u' a b)
  case (Suc n)
  obtain x where h: "ir_type h = IntType 64" "ir_type h' = IntType 64"
    and x: "eval M mem env h = Some (RInt x)" "eval M mem env h' = Some (RInt x)"
    using Suc.prems(10) by (auto simp: hashes_agree_def)
  show ?case
  proof (cases "named t ''str''")
    case True
    obtain p k p' k' where v: "a = RStruct [RPtr p, RInt k]" "b = RStruct [RPtr p', RInt k']" and k: "0 \<le> k" "0 \<le> k'"
      using string_key [OF True Suc.prems(5)] string_key [OF True Suc.prems(6)] by blast
    note left = Suc.prems(3) [unfolded v] and right = Suc.prems(4) [unfolded v]
    have bytes: "str_bytes mem b = str_bytes mem a" using Suc.prems(9) True by simp
    obtain y where y: "foldl (\<lambda>acc c. case acc of None \<Rightarrow> None | Some h \<Rightarrow> hash_step h c) (Some x) (str_bytes mem a) = Some y"
      using foldl_hash_step by blast
    have "eval M mem env u = Some (RInt y)"
      using byte_loop_value [OF x(1) left k(1)] y Suc.prems(1) True by (simp add: v del: eval.simps str_bytes.simps)
    moreover have "eval M mem env u' = Some (RInt y)"
      using byte_loop_value [OF x(2) right k(2)] y Suc.prems(2) True bytes
      by (simp add: v del: eval.simps str_bytes.simps)
    ultimately show ?thesis using Suc.prems(1,2) True h by (auto simp: hashes_agree_def)
  next
    case str: False
    show ?thesis
    proof (cases "map_of (STRUCT_FIELDS E) (type_key t)")
      case None
      with str have u: "u = emit_map_hash_mix h left" "u' = emit_map_hash_mix h' right"
        using Suc.prems(1,2) by (auto simp: unsupported_def split: if_split_asm)
      have "b = a" using Suc.prems(9) None str by simp
      moreover from Suc.prems(5) None str Suc.prems(7)
      obtain w z q where "ir_type left = IntType w \<and> a = RInt z \<or> ir_type left = Pointer q \<and> a = RPtr z"
        by (auto split: irt.splits rv.splits)
      ultimately show ?thesis
        using mix_value [OF h(1) x(1), of left w z q] mix_value [OF h(2) x(2), of right w z q] Suc.prems(3,4,8)
        by (auto simp: hashes_agree_def u)
    next
      case (Some fs)
      obtain vs ws where v: "a = RStruct vs" "b = RStruct ws"
        and vs: "list_all2 (key_ok n E) (map snd fs) vs" and ws: "list_all2 (key_ok n E) (map snd fs) ws"
        using Suc.prems(5,6) Some str by (auto split: rv.splits)
      note len = list_all2_lengthD [OF vs] list_all2_lengthD [OF ws]
      let ?f = "\<lambda>e i ft h. rbind (llvm_type E ft) (\<lambda>ty. emit_map_hash_value n E False (ExtractValue e i ty) ft h)"
      show ?thesis
      proof (rule fold_hash [of "?f left" "enumerate 0 (map snd fs)" h u "?f right" h' u'])
        show "rfold (\<lambda>(i, ft) h. ?f left i ft h) (enumerate 0 (map snd fs)) h = Inr u"
          "rfold (\<lambda>(i, ft) h. ?f right i ft h) (enumerate 0 (map snd fs)) h' = Inr u'"
          using Suc.prems(1,2) Some str by simp_all
        show "hashes_agree mem env h h'" by (rule Suc.prems(10))
        fix i ft g g' r r'
        assume i: "(i, ft) \<in> set (enumerate 0 (map snd fs))" and r: "?f left i ft g = Inr r" "?f right i ft g' = Inr r'"
          and agree: "hashes_agree mem env g g'"
        from i have i: "i < length fs" "ft = snd (fs ! i)" by (auto simp: nth_enumerate_mem)
        from r obtain ty where ty: "llvm_type E ft = Inr ty"
          and e: "emit_map_hash_value n E False (ExtractValue left i ty) ft g = Inr r"
            "emit_map_hash_value n E False (ExtractValue right i ty) ft g' = Inr r'" by auto
        have "eval M mem env (ExtractValue left i ty) = Some (vs ! i)" "eval M mem env (ExtractValue right i ty) = Some (ws ! i)"
          using Suc.prems(3,4) v len i(1) by simp_all
        moreover have "key_ok n E ft (vs ! i)" "key_ok n E ft (ws ! i)"
          using vs ws i by (auto simp: list_all2_conv_all_nth)
        moreover have "same_key n E mem ft (vs ! i) (ws ! i)"
          using Suc.prems(9) Some str v i by simp
        ultimately show "hashes_agree mem env r r'" using Suc.IH [OF e] ty agree by simp
      qed
    qed
  qed
qed simp

end

interpretation reference: llvm_strings reference_sem
  by unfold_locales (simp add: reference_sem_def)

text \<open>
  C27: The functions a map is given for its keys: the emitted equality answers 1 exactly when the two keys are the
  same (strings by their bytes, structs by all their fields, wherever the bytes are stored), and the
  emitted hash ends with the same number for the same keys, so a lookup looks where the insertion
  stored the entry.
\<close>

theorem map_keys:
  assumes "llvm_strings M" and "map_eq_fn n E t left right = Inr q"
    and "map_hash_fn n E t left = Inr u" and "map_hash_fn n E t right = Inr u'"
    and "eval M mem env left = Some a" and "eval M mem env right = Some b"
    and "key_ok n E t a" and "key_ok n E t b"
    and "llvm_type E t = Inr (ir_type left)" and "ir_type right = ir_type left"
  shows "eval M mem env q = Some (RInt (of_bool (same_key n E mem t a b)))
     \<and> (same_key n E mem t a b \<longrightarrow> (\<exists>h. eval M mem env u = Some (RInt h) \<and> eval M mem env u' = Some (RInt h)))"
proof -
  obtain eq where eq: "emit_map_eq_value n E left right t = Inr eq" and q: "q = Zext eq (IntType 32)"
    using assms(2) by (auto simp: map_eq_fn_def)
  have "eval M mem env eq = Some (RInt (of_bool (same_key n E mem t a b)))"
    by (rule llvm_strings.map_eq_correct [OF assms(1) eq assms(5-9)])
  then have "eval M mem env q = Some (RInt (of_bool (same_key n E mem t a b)))"
    using llvm_ints.casts(2) [OF llvm_strings.axioms(1) [OF assms(1)]] by (simp add: q)
  moreover have "llvm_strings.hashes_agree M mem env HASH_SEED HASH_SEED"
    by (simp add: llvm_strings.hashes_agree_def [OF assms(1)] HASH_SEED_def)
  from llvm_strings.hash_agrees [OF assms(1) assms(3,4) [unfolded map_hash_fn_def] assms(5-10) _ this]
  have "\<exists>h. eval M mem env u = Some (RInt h) \<and> eval M mem env u' = Some (RInt h)" if "same_key n E mem t a b"
    using that by (auto simp: llvm_strings.hashes_agree_def [OF assms(1)])
  ultimately show ?thesis by blast
qed

definition user_env :: layout_env where
  "user_env = \<lparr>STRUCT_FIELDS = [(''P'', [(''name'', NamedType ''str''), (''id'', NamedType ''i32'')])],
     STRUCT_TYPES = [(''P'', ''P'')], ENUM_VARIANTS = [], IFACE_METHODS = []\<rparr>"

definition user_key :: "int \<Rightarrow> rv" where
  "user_key p = RStruct [RStruct [RPtr p, RInt 2], RInt 7]"

lemma user_key_ok: "key_ok 2 user_env (NamedType ''P'') (user_key p)"
  by (simp add: user_key_def user_env_def numeral_2_eq_2 rules_eval llvm_named_def INT_TYPES_def or_else_def)

lemma user_key_same: "same_key 2 user_env (\<lambda>_. 65) (NamedType ''P'') (user_key p) (user_key q)"
  by (simp add: user_key_def user_env_def numeral_2_eq_2 rules_eval less_Suc_eq all_conj_distrib)

theorem map_keys_witness:
  "\<exists>q u u' h. map_eq_fn 2 user_env (NamedType ''P'') (Operand ''a'' (Identified ''P'')) (Operand ''b'' (Identified ''P'')) = Inr q
    \<and> map_hash_fn 2 user_env (NamedType ''P'') (Operand ''a'' (Identified ''P'')) = Inr u
    \<and> map_hash_fn 2 user_env (NamedType ''P'') (Operand ''b'' (Identified ''P'')) = Inr u'
    \<and> eval reference_sem (\<lambda>_. 65) (\<lambda>x. user_key (if x = ''a'' then 100 else 200)) q = Some (RInt 1)
    \<and> eval reference_sem (\<lambda>_. 65) (\<lambda>x. user_key (if x = ''a'' then 100 else 200)) u = Some (RInt h)
    \<and> eval reference_sem (\<lambda>_. 65) (\<lambda>x. user_key (if x = ''a'' then 100 else 200)) u' = Some (RInt h)"
proof -
  let ?a = "Operand ''a'' (Identified ''P'')" and ?b = "Operand ''b'' (Identified ''P'')" and ?t = "NamedType ''P''"
  let ?env = "\<lambda>x. user_key (if x = ''a'' then 100 else 200)"
  note eval = user_env_def numeral_2_eq_2 rules_eval llvm_named_def llvm_declared_def INT_TYPES_def LLVM_FLOAT_TYPES_def or_else_def
    map_hash_fn_def map_eq_fn_def is_int_type_def
  obtain q where q: "map_eq_fn 2 user_env ?t ?a ?b = Inr q" by (simp add: eval)
  obtain u where u: "map_hash_fn 2 user_env ?t ?a = Inr u" by (simp add: eval)
  obtain u' where u': "map_hash_fn 2 user_env ?t ?b = Inr u'" by (simp add: eval)
  have ty: "llvm_type user_env ?t = Inr (ir_type ?a)" by (simp add: eval)
  have vals: "eval reference_sem (\<lambda>_. 65) ?env ?a = Some (user_key 100)"
    "eval reference_sem (\<lambda>_. 65) ?env ?b = Some (user_key 200)" by simp_all
  from map_keys [OF reference.llvm_strings_axioms q u u' vals user_key_ok user_key_ok ty] user_key_same q u u'
  show ?thesis by (simp add: user_key_same del: eval.simps)
qed

subsection \<open>Entries\<close>

lemma dvd_align_to_max:
  assumes "0 < a" and "b dvd a" shows "b dvd align_to v a"
  using align_to_facts [OF assms(1), of v] assms(2) by (blast intro: dvd_trans)

lemma map_desc_cases:
  assumes "map_desc n E kt vt = Inr d"
  obtains ka va where "alignof_type n E kt = Inr ka" "alignof_type n E vt = Inr va" "0 < ka" "0 < va"
    "sizeof_type n E kt = Inr (key_size d)" "sizeof_type n E vt = Inr (value_size d)" "key_offset d = 0"
    "value_offset d = align_to (key_size d) va" "state_offset d = align_to (value_offset d + value_size d) 4"
    "entry_size d = align_to (state_offset d + 4) (Max {8, ka, va, 4})"
proof -
  from assms obtain ka va where 1: "alignof_type n E kt = Inr ka" "alignof_type n E vt = Inr va"
    and 2: "sizeof_type n E kt = Inr (key_size d)" "sizeof_type n E vt = Inr (value_size d)" "key_offset d = 0"
    "value_offset d = align_to (key_size d) va" "state_offset d = align_to (value_offset d + value_size d) 4"
    "entry_size d = align_to (state_offset d + 4) (Max {8, ka, va, 4})"
    by (auto simp: map_desc_def Let_def)
  from 1 have "0 < ka" "0 < va" by (auto dest!: alignof_pos)
  show ?thesis by (rule that) fact+
qed

lemma alignof_values: "alignof_type n E t = Inr a \<Longrightarrow> a \<in> {1, 2, 4, 8}"
proof (induction n arbitrary: t a)
  case (Suc n)
  have fold: "foldl max m as \<in> {1, 2, 4, 8}" if "m \<in> {1, 2, 4, 8}" "\<forall>b \<in> set as. b \<in> {1, 2, 4, 8}" for m :: nat and as
    using that
  proof (induction as arbitrary: m)
    case (Cons b as)
    have "max m b \<in> {1, 2, 4, 8}" using Cons.prems by (auto simp: max_def)
    then show ?case using Cons.IH Cons.prems(2) by simp
  qed simp
  have "max_default 1 as \<in> {1, 2, 4, 8}" if r: "rmap (alignof_type n E) ts = Inr as" for ts as
  proof -
    have "\<forall>b \<in> set as. b \<in> {1, 2, 4, 8}"
      using r Suc.IH by (induction ts arbitrary: as) (fastforce split: prod.splits)+
    then show ?thesis using fold [of "hd as" "tl as"] by (cases as) (simp_all add: max_default_def del: insert_iff, simp)
  qed
  with Suc.prems show ?case
    by (auto simp: backend_error_def simp del: insert_iff split: if_splits option.splits)
qed simp

text \<open>
  C28: The entries of a table: the key, the value and the state do not overlap and fit, each offset is
  aligned for what is stored there, and the size of an entry is a multiple of 8 and of the alignments
  of the key and of the value, so the offsets stay aligned in every entry of the table.
\<close>

theorem map_entries_layout:
  assumes "map_desc n E kt vt = Inr d" and "alignof_type n E kt = Inr ka" and "alignof_type n E vt = Inr va"
  shows "key_offset d + key_size d \<le> value_offset d \<and> value_offset d + value_size d \<le> state_offset d
     \<and> state_offset d + 4 \<le> entry_size d
     \<and> va dvd value_offset d \<and> 4 dvd state_offset d \<and> 8 dvd entry_size d \<and> ka dvd entry_size d \<and> va dvd entry_size d
     \<and> entry_size d < key_size d + value_size d + va + 4 + 4 + 8"
proof -
  have al: "ka \<in> {1, 2, 4, 8}" "va \<in> {1, 2, 4, 8}" by (rule alignof_values [OF assms(2)], rule alignof_values [OF assms(3)])
  then have m: "Max {8, ka, va, 4} = 8" "0 < va" "ka dvd 8" "va dvd 8" by auto
  from assms(1) have d: "key_offset d = 0" "value_offset d = align_to (key_size d) va"
    "state_offset d = align_to (value_offset d + value_size d) 4" "entry_size d = align_to (state_offset d + 4) 8"
    by (rule map_desc_cases, use assms(2,3) m(1) in simp)+
  have e: "8 dvd entry_size d" "state_offset d + 4 \<le> entry_size d" "entry_size d < state_offset d + 4 + 8"
    using align_to_facts [of 8 "state_offset d + 4"] unfolding d(4) by simp_all
  have s: "4 dvd state_offset d" "value_offset d + value_size d \<le> state_offset d"
      "state_offset d < value_offset d + value_size d + 4"
    using align_to_facts [of 4 "value_offset d + value_size d"] unfolding d(3) by simp_all
  have v: "va dvd value_offset d" "key_size d \<le> value_offset d" "value_offset d < key_size d + va"
    using align_to_facts [OF m(2), of "key_size d"] unfolding d(2) by simp_all
  show ?thesis
    using e s v m(3,4) by (simp add: d(1) dvd_trans [OF _ e(1)])
qed

theorem map_entries_layout_witness:
  "map_desc 2 user_env (NamedType ''P'') (NamedType ''i8'')
     = Inr \<lparr>key_size = 24, value_size = 1, entry_size = 32, key_offset = 0, value_offset = 24, state_offset = 28\<rparr>
   \<and> 8 dvd (32 :: nat)"
proof -
  have d: "map_desc 2 user_env (NamedType ''P'') (NamedType ''i8'')
     = Inr \<lparr>key_size = 24, value_size = 1, entry_size = 32, key_offset = 0, value_offset = 24, state_offset = 28\<rparr>"
    by code_simp
  have "alignof_type 2 user_env (NamedType ''P'') = Inr 8" "alignof_type 2 user_env (NamedType ''i8'') = Inr 1"
    by code_simp+
  from map_entries_layout [OF d this] show ?thesis by (simp add: d)
qed

subsection \<open>Pointers in keys\<close>















end
