(* ===== verification/Spec2Isabelle.thy ===== *)
theory Spec2Isabelle
  imports LexerProps LexRoundTrip TypeRefProps ParserProps SymTabProps TypeRulesProps NamesProps LayoutProps
    ModulesProps GenericsProps CheckPartsProps TypeCheckProps TypeCheckCases TypeCheckOps MapKeysProps
begin

text \<open>
  The compiler of the language NC (\<open>src/compiler\<close>, Python) as definitions of HOL, and what makes its
  parts correct.

  \<^bold>\<open>The program.\<close> \<open>compiler/__init__.py\<close> runs the passes in this order: the text of each file is cut
  into tokens (\<open>lexer.py\<close>) and parsed (\<open>parser.py\<close>) into a syntax tree (\<open>ast.py\<close>) whose types are type
  references (\<open>type_ref.py\<close>); the type aliases of a module are expanded, imported modules are loaded,
  and their names qualified; generics are replaced by instances (\<open>generics.py\<close>,
  \<open>erase_generics.py\<close>); the symbol table is built (\<open>symtab.py\<close>); the types are checked and inferred
  (\<open>typecheck.py\<close>, with \<open>type_rules.py\<close>, \<open>builtins.py\<close> and \<open>constraints.py\<close>); and code is emitted
  (\<open>llvm_*.py\<close>, with \<open>names.py\<close> and \<open>target.py\<close>).

  \<^bold>\<open>The theories.\<close> A name that ends in \<open>Props\<close> holds what is proved of the theory before it.

  \<^item> \<open>Prelude\<close>: the exceptions of the compiler as one type \<open>exn\<close>, results \<open>'a res\<close> (an exception or a
    value) with bind, map and fold, Python's operations on text, dictionaries in insertion order.
  \<^item> \<open>Lexer\<close>, \<open>LexerProps\<close>, \<open>LexRoundTrip\<close>: \<open>lexer.py\<close>. The list of tokens ends with the one
    \<open>EOF\<close>, literals hold Unicode scalar values, errors are \<open>SyntaxError\<close>, the \<open>ValueError\<close> of \<open>int\<close> and
    \<open>chr\<close> or the \<open>OverflowError\<close> of \<open>chr\<close>, and tokens written out are read back.
  \<^item> \<open>TypeRef\<close>, \<open>TypeRefProps\<close>: \<open>type_ref.py\<close>. The canonical text of a type, which the compiler uses as
    its key, reads back as the type, so equality of keys is equality of types, with the exception
    that is proved too (fallible functions returned by functions).
  \<^item> \<open>Ast\<close>, \<open>Parser\<close>, \<open>ParserProps\<close>: \<open>ast.py\<close> and \<open>parser.py\<close>. The parser returns on the tokens of
    every text, within the fuel \<open>parse\<close> starts with, and raises only the exceptions of the syntax.
  \<^item> \<open>Modules\<close>, \<open>ModulesProps\<close>: \<open>__init__.py\<close>, \<open>source.py\<close>. Aliases are expanded completely, modules
    are loaded after what they import, and what qualification does to names.
  \<^item> \<open>Generics\<close>, \<open>GenericsProps\<close>: \<open>generics.py\<close>, \<open>erase_generics.py\<close>. When monomorphization returns,
    no generics are left where it looks; programs without generics pass through unchanged; and
    where it does not return or makes the wrong declaration.
  \<^item> \<open>SymTab\<close>, \<open>SymTabProps\<close>: \<open>symtab.py\<close>. A stack of scopes (locale \<open>scoped_table\<close>, interpreted on the
    operations of the code), the relations every step of the pass over the program keeps, and
    what the table holds at its end.
  \<^item> \<open>Builtins\<close>, \<open>TypeRules\<close>, \<open>TypeRulesProps\<close>: \<open>builtins.py\<close>, \<open>constraints.py\<close>, \<open>type_rules.py\<close>. The
    three walks for comparable types, map keys and zero values decide reachability of an offending
    type.
  \<^item> \<open>CheckParts\<close>, \<open>CheckPartsProps\<close>: the parts of \<open>typecheck.py\<close> that only read the symbol table or
    the tree: visibility of names, promotion through embedded structs, method sets of interfaces,
    default parameters, patterns, the search for \<open>err\<close>. The searches end, and the one for promoted
    fields decides whether there is no path, one path or two.
  \<^item> \<open>TypeCheck\<close>: the pass \<open>infer_types\<close> of \<open>typecheck.py\<close>, one definition for each kind of expression
    and statement, and its phases over the program. The variables shared by its nested functions are
    the fields of the record \<open>tcs\<close>; entering and leaving a scope, a loop, a function, a narrowed block
    are brackets around a step. What earlier passes set on nodes is the argument \<open>cenv\<close>. A subtree that
    the code visits again (defaults, inferred bodies) is visited again as it was parsed.
  \<^item> \<open>TypeCheckProps\<close>: every accepted visit restores the context, fallible calls are handled, \<open>match\<close> is
    exhaustive, and the fuel is not observable.
  \<^item> \<open>TypeCheckOps\<close>: the table of the operators on scalar types. \<open>TypeCheckCases\<close>: programs on which the
    type checker is wrong, among them one on which it does not return.
  \<^item> \<open>Names\<close>, \<open>NamesProps\<close>: \<open>names.py\<close>, \<open>target.py\<close>, \<open>source_location.py\<close>.
  \<^item> \<open>Layout\<close>, \<open>LayoutProps\<close>: \<open>llvm_layout.py\<close> and, of \<open>llvm_codegen.py\<close>, the registration of enums
    and structs. Structs that contain themselves are rejected, exactly these; then sizes and
    alignments are computed, and are those LLVM gives to the emitted types (locale \<open>data_layout\<close>:
    LLVM's documented rules, interpreted on their computation).
  \<^item> \<open>LlvmValues\<close>, \<open>LlvmValuesProps\<close>: the values \<open>llvm_codegen.py\<close> emits for operators, conversions,
    comparisons and printed integers, as the trees of builder calls that make them. What LLVM documents of its integer
    instructions is the locale \<open>llvm_ints\<close>, interpreted on a semantics that follows it; under it the
    operators and conversions compute what the language says.
  \<^item> \<open>MapKeysProps\<close>: hash and equality of map keys (\<open>llvm_map.py\<close>): with the documented comparison of
    strings of the runtime (locale \<open>llvm_strings\<close>), equality decides sameness of keys and the same
    keys have the same hash; the layout of entries.

  \<^bold>\<open>State and effects.\<close> Objects the code changes in place are records passed on and returned; an
  exception is \<open>Inl\<close>; a dictionary is an association list in insertion order; types that the code
  passes as text are the structured types that text stands for, and membership in a set of texts is
  membership of the key.

  \<^bold>\<open>Fuel.\<close> A recursion that is not structural has a fuel and the exception \<open>OutOfFuel\<close>, which no code
  raises. The parser starts with the weight of its tokens, enough by \<open>parse_total\<close>. The search for
  recursive structs starts with two more than the number of structs, enough by
  \<open>reject_recursive_structs\<close>; sizes need one more than that number (\<open>layout_terminates\<close>). The
  expansion of aliases starts with two more than the number of aliases (\<open>alias_expansion\<close>), loading
  with three more than the number of directories (\<open>load_order\<close>). The walks of \<open>TypeRules\<close> start with a
  bound from the struct table, enough by \<open>type_rules_decide\<close>; the search for methods and
  monomorphization need not end, which \<open>resolve_diverges\<close> and \<open>polymorphic_recursion_diverges\<close> show.
  The searches of \<open>CheckParts\<close> start with two more than the number of structs or interfaces that embed,
  enough by \<open>embedding_terminates\<close>. The type checker uses one unit for each visit of a node or body, and
  is given the number by its caller: a larger number does not change an answer (\<open>fuel_irrelevant\<close>), and
  no number is enough for every program (\<open>default_call_diverges\<close>).

  \<^bold>\<open>Not modelled.\<close> The emission of instructions (\<open>llvm_*.py\<close> other than the layout) is calls of the
  builder of llvmlite, which is not part of the repository. \<open>nc.py\<close> and \<open>ncrt.py\<close> run other programs
  and read and write files. Of the type checker, the positions in messages and the annotations it
  leaves for code generation are left out. SHA-256 and the file system are arguments. Source text is Latin-1.
\<close>

end
